(* ===== verification/Prelude.thy ===== *)
theory Prelude
  imports
    Complex_Main
    "HOL-Library.Word"
    "HOL-Library.Multiset"
    "HOL-Library.State_Monad"
begin

text \<open>
  The vocabulary every component of the development shares: the theorem collections, the
  parts of Go's and Lua's numbers and strings the sources use, and generic lemmas on
  lists.

  Floating point. A Go \<^verbatim>\<open>float64\<close> (and a Lua number) is \<open>Fin r\<close> or one of the three
  special values. Comparison and arithmetic treat the special values as IEEE 754 does;
  on finite values the arithmetic of this theory is exact, and the sign of zero is not modelled.
  Where the sources depend on the 53-bit mantissa the rounding is modelled: Lua's \<^verbatim>\<open>tonumber\<close> on
  a 64-bit sequence number (\<open>round53\<close>), and the arithmetic of the rate limiter's script (theory
  Double). The scores and distances of the Go code are computed without rounding.
\<close>

named_theorems redis_laws
  \<open>what the Redis commands used by the sources do to the keyspace\<close>
named_theorems key_simps
  \<open>two key builders give the same key only for the same arguments\<close>
named_theorems float_simps
  \<open>arithmetic and comparison on finite float64 values\<close>

section \<open>float64\<close>

datatype float64 = Fin real | PInf | NInf | NaN

fun f_lt :: "float64 \<Rightarrow> float64 \<Rightarrow> bool" where
  "f_lt NaN _ = False"
| "f_lt _ NaN = False"
| "f_lt (Fin a) (Fin b) = (a < b)"
| "f_lt NInf b = (b \<noteq> NInf)"
| "f_lt (Fin _) b = (b = PInf)"
| "f_lt PInf _ = False"

definition f_le :: "float64 \<Rightarrow> float64 \<Rightarrow> bool" where
  "f_le a b = (a \<noteq> NaN \<and> b \<noteq> NaN \<and> (a = b \<or> f_lt a b))"

definition f_eq :: "float64 \<Rightarrow> float64 \<Rightarrow> bool" where
  "f_eq a b = (a \<noteq> NaN \<and> a = b)"

fun f_neg :: "float64 \<Rightarrow> float64" where
  "f_neg (Fin a) = Fin (- a)"
| "f_neg PInf = NInf"
| "f_neg NInf = PInf"
| "f_neg NaN = NaN"

fun f_add :: "float64 \<Rightarrow> float64 \<Rightarrow> float64" where
  "f_add NaN _ = NaN"
| "f_add _ NaN = NaN"
| "f_add (Fin a) (Fin b) = Fin (a + b)"
| "f_add PInf NInf = NaN"
| "f_add NInf PInf = NaN"
| "f_add PInf _ = PInf"
| "f_add _ PInf = PInf"
| "f_add NInf _ = NInf"
| "f_add _ NInf = NInf"

definition f_sub :: "float64 \<Rightarrow> float64 \<Rightarrow> float64" where
  "f_sub a b = f_add a (f_neg b)"

text \<open>The sign of a value that is not a NaN, as a finite value: \<open>-1\<close>, \<open>0\<close> or \<open>1\<close>.\<close>

fun f_sgn :: "float64 \<Rightarrow> real" where
  "f_sgn (Fin a) = sgn a"
| "f_sgn PInf = 1"
| "f_sgn NInf = -1"
| "f_sgn NaN = 0"

definition f_inf :: "real \<Rightarrow> float64" where
  "f_inf s = (if s > 0 then PInf else if s < 0 then NInf else NaN)"

fun f_mul :: "float64 \<Rightarrow> float64 \<Rightarrow> float64" where
  "f_mul NaN _ = NaN"
| "f_mul _ NaN = NaN"
| "f_mul (Fin a) (Fin b) = Fin (a * b)"
| "f_mul a b = f_inf (f_sgn a * f_sgn b)"

text \<open>Division by a constant; the sources divide by non-zero literals only.\<close>

definition f_divc :: "float64 \<Rightarrow> real \<Rightarrow> float64" where
  "f_divc a c = f_mul a (Fin (1 / c))"

text \<open>Go's conversion of an integer to \<^verbatim>\<open>float64\<close>, for integers a mantissa can hold.\<close>

definition f_of_int :: "int \<Rightarrow> float64" where
  "f_of_int n = Fin (of_int n)"

text \<open>Lua's \<^verbatim>\<open>math.max\<close> and \<^verbatim>\<open>math.min\<close>: the first argument, replaced by a better second.\<close>

definition lua_max :: "float64 \<Rightarrow> float64 \<Rightarrow> float64" where
  "lua_max a b = (if f_lt a b then b else a)"

definition lua_min :: "float64 \<Rightarrow> float64 \<Rightarrow> float64" where
  "lua_min a b = (if f_lt b a then b else a)"

lemma f_le_Fin [simp, float_simps]: "f_le (Fin a) (Fin b) = (a \<le> b)"
  by (auto simp: f_le_def)

lemma f_eq_Fin [simp, float_simps]: "f_eq (Fin a) (Fin b) = (a = b)"
  by (simp add: f_eq_def)

lemma f_sub_Fin [simp, float_simps]: "f_sub (Fin a) (Fin b) = Fin (a - b)"
  by (simp add: f_sub_def)

lemma f_divc_Fin [simp, float_simps]: "f_divc (Fin a) c = Fin (a / c)"
  by (simp add: f_divc_def)

lemma lua_max_Fin [simp, float_simps]: "lua_max (Fin a) (Fin b) = Fin (max a b)"
  by (simp add: lua_max_def max_def)

lemma lua_min_Fin [simp, float_simps]: "lua_min (Fin a) (Fin b) = Fin (min a b)"
  by (simp add: lua_min_def min_def)

lemma f_lt_NaN_right [simp]: "\<not> f_lt a NaN"
  by (cases a) simp_all

lemma f_lt_irrefl [simp]: "\<not> f_lt a a"
  by (cases a) simp_all

lemma f_lt_trans: "f_lt a b \<Longrightarrow> f_lt b c \<Longrightarrow> f_lt a c"
  by (cases a; cases b; cases c) simp_all

lemma f_lt_asym: "f_lt a b \<Longrightarrow> \<not> f_lt b a"
  by (cases a; cases b) simp_all

text \<open>Away from NaN, \<open>f_lt\<close> is the strict part of a total order.\<close>

lemma f_not_lt: "a \<noteq> NaN \<Longrightarrow> b \<noteq> NaN \<Longrightarrow> \<not> f_lt a b \<longleftrightarrow> f_le b a"
  by (cases a; cases b) (auto simp: f_le_def)

lemma f_le_trans: "f_le a b \<Longrightarrow> f_le b c \<Longrightarrow> f_le a c"
  by (auto simp: f_le_def intro: f_lt_trans)

lemma f_le_refl [simp]: "f_le a a \<longleftrightarrow> a \<noteq> NaN"
  by (simp add: f_le_def)

lemma f_lt_le_trans: "f_lt a b \<Longrightarrow> f_le b c \<Longrightarrow> f_lt a c"
  by (auto simp: f_le_def intro: f_lt_trans)

section \<open>The 53-bit mantissa\<close>

text \<open>
  \<open>scale53 m\<close> is the number of low bits of \<open>m\<close> a 53-bit mantissa drops; \<open>round53\<close> rounds an
  integer to the nearest value such a mantissa holds, ties to even, as the conversion of a
  decimal integer string to a double does.
\<close>

function scale53 :: "nat \<Rightarrow> nat" where
  "scale53 m = (if m < 2 ^ 53 then 0 else Suc (scale53 (m div 2)))"
  by pat_completeness auto
termination
  by (relation "measure id") (auto simp: div_less_dividend)

declare scale53.simps [simp del]

definition round53_nat :: "nat \<Rightarrow> nat" where
  "round53_nat m =
     (let e = scale53 m; q = m div 2 ^ e; r = m mod 2 ^ e
      in (if 2 * r > 2 ^ e \<or> (2 * r = 2 ^ e \<and> odd q) then q + 1 else q) * 2 ^ e)"

definition round53 :: "int \<Rightarrow> int" where
  "round53 n = sgn n * int (round53_nat (nat \<bar>n\<bar>))"

lemma scale53_upper: "m < 2 ^ (53 + scale53 m)"
proof (induction m rule: scale53.induct)
  case (1 m)
  show ?case
  proof (cases "m < 2 ^ 53")
    case True
    then show ?thesis by (simp add: scale53.simps [of m])
  next
    case False
    with 1 have "m div 2 < 2 ^ (53 + scale53 (m div 2))" by simp
    then have "m < 2 * 2 ^ (53 + scale53 (m div 2))" by linarith
    with False show ?thesis by (simp add: scale53.simps [of m] power_add)
  qed
qed

lemma scale53_lower: "0 < scale53 m \<Longrightarrow> 2 ^ (52 + scale53 m) \<le> m"
proof (induction m rule: scale53.induct)
  case (1 m)
  from "1.prems" have big: "\<not> m < 2 ^ 53"
    by (auto simp: scale53.simps [of m] split: if_splits)
  then have s: "scale53 m = Suc (scale53 (m div 2))" by (simp add: scale53.simps [of m])
  show ?case
  proof (cases "scale53 (m div 2) = 0")
    case True
    with s big show ?thesis by simp
  next
    case False
    with 1 big have "2 ^ (52 + scale53 (m div 2)) \<le> m div 2" by simp
    then have "2 * 2 ^ (52 + scale53 (m div 2)) \<le> m" by linarith
    with s show ?thesis by (simp add: power_add)
  qed
qed

lemma scale53_mono: "m \<le> n \<Longrightarrow> scale53 m \<le> scale53 n"
proof (rule ccontr)
  assume le: "m \<le> n" and "\<not> scale53 m \<le> scale53 n"
  then have gt: "Suc (scale53 n) \<le> scale53 m" by simp
  then have "2 ^ (52 + scale53 m) \<le> m" by (intro scale53_lower) simp
  moreover have "(2::nat) ^ (53 + scale53 n) \<le> 2 ^ (52 + scale53 m)"
    using gt by (intro power_increasing) auto
  ultimately show False using scale53_upper [of n] le by linarith
qed

text \<open>Rounding at a fixed scale is monotone, so rounding is monotone.\<close>

lemma round_at_mono:
  fixes m n e :: nat
  defines "rnd \<equiv> \<lambda>k. if 2 * (k mod 2 ^ e) > 2 ^ e \<or> (2 * (k mod 2 ^ e) = 2 ^ e \<and> odd (k div 2 ^ e))
                     then k div 2 ^ e + 1 else k div 2 ^ e"
  assumes "m \<le> n"
  shows "rnd m \<le> rnd n"
proof (cases "m div 2 ^ e = n div 2 ^ e")
  case True
  have "m mod 2 ^ e \<le> n mod 2 ^ e"
    using assms(2) True
    by (metis add_le_cancel_left div_mult_mod_eq)
  with True show ?thesis by (auto simp: rnd_def)
next
  case False
  with assms(2) have "m div 2 ^ e + 1 \<le> n div 2 ^ e"
    by (metis Suc_eq_plus1 Suc_leI div_le_mono order_le_neq_trans)
  then show ?thesis by (auto simp: rnd_def)
qed

lemma round53_nat_bounds:
  "m div 2 ^ scale53 m * 2 ^ scale53 m \<le> round53_nat m"
  "round53_nat m \<le> (m div 2 ^ scale53 m + 1) * 2 ^ scale53 m"
  by (auto simp: round53_nat_def Let_def)

lemma round53_nat_mono: assumes "m \<le> n" shows "round53_nat m \<le> round53_nat n"
proof (cases "scale53 m = scale53 n")
  case True
  with round_at_mono [OF assms, of "scale53 n"] show ?thesis
    by (simp add: round53_nat_def Let_def)
next
  case False
  with scale53_mono [OF assms] have lt: "scale53 m < scale53 n" by simp
  have "m div 2 ^ scale53 m < 2 ^ 53"
    using scale53_upper [of m] by (simp add: div_less_iff_less_mult power_add mult.commute)
  then have "m div 2 ^ scale53 m + 1 \<le> 2 ^ 53" by simp
  then have "round53_nat m \<le> 2 ^ 53 * 2 ^ scale53 m"
    by (meson round53_nat_bounds(2) le_trans mult_le_mono1)
  also have "\<dots> \<le> 2 ^ (52 + scale53 n)"
  proof -
    have "(2::nat) ^ (53 + scale53 m) \<le> 2 ^ (52 + scale53 n)"
      using lt by (intro power_increasing) auto
    then show ?thesis by (simp add: power_add)
  qed
  also have "\<dots> \<le> n div 2 ^ scale53 n * 2 ^ scale53 n"
  proof -
    have "2 ^ (52 + scale53 n) \<le> n" using lt by (intro scale53_lower) simp
    then have "(2::nat) ^ 52 \<le> n div 2 ^ scale53 n"
      by (simp add: less_eq_div_iff_mult_less_eq power_add)
    then show ?thesis by (simp add: power_add)
  qed
  also have "\<dots> \<le> round53_nat n" by (rule round53_nat_bounds(1))
  finally show ?thesis .
qed

lemma round53_nat_id: "m \<le> 2 ^ 53 \<Longrightarrow> round53_nat m = m"
proof (cases "m < 2 ^ 53")
  case True
  then show ?thesis by (simp add: round53_nat_def scale53.simps [of m])
next
  case False
  assume "m \<le> 2 ^ 53"
  with False have "m = 2 ^ 53" by simp
  then show ?thesis by (simp add: round53_nat_def scale53.simps)
qed

theorem round53_mono: assumes "m \<le> n" shows "round53 m \<le> round53 n"
proof (cases "0 \<le> m")
  case True
  with assms have "round53_nat (nat \<bar>m\<bar>) \<le> round53_nat (nat \<bar>n\<bar>)"
    by (intro round53_nat_mono) simp
  with True assms show ?thesis by (auto simp: round53_def sgn_if round53_nat_id)
next
  case neg: False
  show ?thesis
  proof (cases "0 \<le> n")
    case True
    with neg have "round53 m \<le> 0" "0 \<le> round53 n" by (auto simp: round53_def sgn_if)
    then show ?thesis by linarith
  next
    case False
    with assms neg have "round53_nat (nat \<bar>n\<bar>) \<le> round53_nat (nat \<bar>m\<bar>)"
      by (intro round53_nat_mono) simp
    with False neg show ?thesis by (auto simp: round53_def sgn_if)
  qed
qed

lemma round53_id: "\<bar>n\<bar> \<le> 2 ^ 53 \<Longrightarrow> round53 n = n"
  by (auto simp: round53_def round53_nat_id nat_le_iff sgn_if)

text \<open>The first integer a double cannot hold.\<close>

lemma round53_tie: "round53 (2 ^ 53 + 1) = round53 (2 ^ 53)"
proof -
  have "scale53 (2 ^ 53) = 1" "scale53 (2 ^ 53 + 1) = 1" by (simp_all add: scale53.simps)
  then show ?thesis by (simp add: round53_def round53_nat_def Let_def)
qed

section \<open>Decimal strings and splitting\<close>

definition digit_char :: "nat \<Rightarrow> char" where
  "digit_char d = char_of (48 + d)"

definition is_digit :: "char \<Rightarrow> bool" where
  "is_digit c = (48 \<le> (of_char c :: nat) \<and> (of_char c :: nat) \<le> 57)"

text \<open>\<^verbatim>\<open>fmt\<close>'s \<^verbatim>\<open>%d\<close>.\<close>

fun show_nat :: "nat \<Rightarrow> string" where
  "show_nat n = (if n < 10 then [digit_char n] else show_nat (n div 10) @ [digit_char (n mod 10)])"

declare show_nat.simps [simp del]

definition show_int :: "int \<Rightarrow> string" where
  "show_int n = (if n < 0 then ''-'' @ show_nat (nat (- n)) else show_nat (nat n))"

fun read_digits :: "nat \<Rightarrow> string \<Rightarrow> nat option" where
  "read_digits acc [] = Some acc"
| "read_digits acc (c # cs) =
     (if is_digit c then read_digits (10 * acc + (of_char c - 48)) cs else None)"

text \<open>\<^verbatim>\<open>strconv.ParseUint(s, 10, 64)\<close>: digits only, at least one, below \<open>2 ^ 64\<close>.\<close>

definition ParseUint :: "string \<Rightarrow> 64 word option" where
  "ParseUint s =
     (if s = [] then None
      else case read_digits 0 s of
             None \<Rightarrow> None
           | Some n \<Rightarrow> if n < 2 ^ 64 then Some (of_nat n) else None)"

text \<open>A decimal number with an optional sign, and \<^verbatim>\<open>strconv.Atoi\<close> on a 64-bit platform.\<close>

definition read_nat :: "string \<Rightarrow> int option" where
  "read_nat s = (if s = [] then None else map_option int (read_digits 0 s))"

fun read_int :: "string \<Rightarrow> int option" where
  "read_int [] = None"
| "read_int (c # cs) =
     (if c = CHR ''-'' then map_option uminus (read_nat cs)
      else if c = CHR ''+'' then read_nat cs
      else read_nat (c # cs))"

definition Atoi :: "string \<Rightarrow> int option" where
  "Atoi s = (case read_int s of
       None \<Rightarrow> None
     | Some n \<Rightarrow> if - (2 ^ 63) \<le> n \<and> n < 2 ^ 63 then Some n else None)"

text \<open>\<^verbatim>\<open>strings.Split\<close> at a one-character separator: never an empty list.\<close>

fun Split :: "char \<Rightarrow> string \<Rightarrow> string list" where
  "Split c [] = [[]]"
| "Split c (x # xs) =
     (if x = c then [] # Split c xs
      else case Split c xs of [] \<Rightarrow> [[x]] | y # ys \<Rightarrow> (x # y) # ys)"

text \<open>\<^verbatim>\<open>strings.HasPrefix\<close>.\<close>

definition HasPrefix :: "string \<Rightarrow> string \<Rightarrow> bool" where
  "HasPrefix s p = (take (length p) s = p)"

lemma of_char_digit_char [simp]: "d < 10 \<Longrightarrow> of_char (digit_char d) = (48 + d :: nat)"
  by (simp add: digit_char_def)

lemma is_digit_digit_char [simp]: "d < 10 \<Longrightarrow> is_digit (digit_char d)"
  by (simp add: is_digit_def)

lemma read_digits_append:
  "read_digits a (xs @ ys) =
     (case read_digits a xs of None \<Rightarrow> None | Some b \<Rightarrow> read_digits b ys)"
  by (induction xs arbitrary: a) auto

lemma read_show_nat: "read_digits 0 (show_nat n) = Some n"
proof (induction n rule: show_nat.induct)
  case (1 n)
  show ?case
  proof (cases "n < 10")
    case True
    then show ?thesis by (simp add: show_nat.simps [of n])
  next
    case False
    with 1 have "read_digits 0 (show_nat (n div 10)) = Some (n div 10)" by simp
    with False show ?thesis by (simp add: show_nat.simps [of n] read_digits_append)
  qed
qed

lemma show_nat_nonempty [simp]: "show_nat n \<noteq> []"
  by (subst show_nat.simps) simp

lemma show_nat_digits: "c \<in> set (show_nat n) \<Longrightarrow> is_digit c"
proof (induction n rule: show_nat.induct)
  case (1 n)
  show ?case
  proof (cases "n < 10")
    case True
    with "1.prems" show ?thesis by (simp add: show_nat.simps [of n])
  next
    case False
    with "1.prems" have "c \<in> set (show_nat (n div 10)) \<or> c = digit_char (n mod 10)"
      by (auto simp: show_nat.simps [of n])
    with False "1.IH" show ?thesis by auto
  qed
qed

lemma show_int_hd: "show_int n \<noteq> []" "hd (show_int n) \<in> set ''0123456789+-NI''"
proof -
  have digit: "c \<in> set ''0123456789''" if "is_digit c" for c
  proof -
    have "(of_char c :: nat) \<in> {48, 49, 50, 51, 52, 53, 54, 55, 56, 57}"
      using that by (simp add: is_digit_def) presburger
    then have "of_char c \<in> (of_char ` set ''0123456789'' :: nat set)" by simp
    then show ?thesis by (auto simp only: image_iff of_char_eq_iff)
  qed
  have "hd (show_nat m) \<in> set ''0123456789''" for m
    using digit show_nat_digits [of "hd (show_nat m)" m] by simp
  then show "show_int n \<noteq> []" "hd (show_int n) \<in> set ''0123456789+-NI''"
    by (auto simp: show_int_def)
qed

lemma read_int_show [simp]: "read_int (show_int n) = Some n"
proof (cases "n < 0")
  case False
  obtain c cs where c: "show_nat (nat n) = c # cs" by (metis show_nat_nonempty list.exhaust)
  then have "is_digit c" using show_nat_digits [of c "nat n"] by simp
  then have "c \<noteq> CHR ''-''" "c \<noteq> CHR ''+''" by (auto simp: is_digit_def)
  then show ?thesis using False c read_show_nat [of "nat n"] by (simp add: show_int_def read_nat_def)
qed (simp add: show_int_def read_nat_def read_show_nat)

lemma Atoi_show: "- (2 ^ 63) \<le> n \<Longrightarrow> n < 2 ^ 63 \<Longrightarrow> Atoi (show_int n) = Some n"
  by (simp add: Atoi_def)

lemma show_nat_inject: "show_nat m = show_nat n \<longleftrightarrow> m = n"
  by (metis read_show_nat option.inject)

lemma ParseUint_show: "ParseUint (show_nat (unat (w :: 64 word))) = Some w"
proof -
  have "unat w < 2 ^ 64" using unsigned_less [of w] by simp
  then show ?thesis by (simp add: ParseUint_def read_show_nat)
qed

lemma Split_nonempty [simp]: "Split c xs \<noteq> []"
  by (cases xs) (auto split: list.splits)

lemma Split_no_sep: "c \<notin> set xs \<Longrightarrow> Split c xs = [xs]"
  by (induction xs) auto

lemma Split_cons_sep: "c \<notin> set xs \<Longrightarrow> Split c (xs @ c # ys) = xs # Split c ys"
  by (induction xs) auto

section \<open>Lists\<close>

lemma sorted_wrt_mono_set:
  "sorted_wrt P xs \<Longrightarrow> (\<And>x y. x \<in> set xs \<Longrightarrow> y \<in> set xs \<Longrightarrow> P x y \<Longrightarrow> Q x y) \<Longrightarrow> sorted_wrt Q xs"
  by (induction xs) auto

lemma append_Cons_last_inject:
  "xs @ [c] @ zs = ys @ [c] @ zs' \<Longrightarrow> c \<notin> set xs \<Longrightarrow> c \<notin> set ys \<Longrightarrow> xs = ys \<and> zs = zs'"
  by (induction xs arbitrary: ys) (case_tac ys; auto)+

section \<open>Remote procedure calls\<close>

text \<open>The outcome of a gRPC handler: a response, a status code, or a run-time panic.\<close>

datatype grpc_code = InvalidArgument | NotFound | FailedPrecondition | Internal

datatype 'a rpc = RpcOk 'a | Status grpc_code | Crash

text \<open>\<^verbatim>\<open>int32(n)\<close> keeps the low 32 bits.\<close>

definition to_int32 :: "int \<Rightarrow> int" where
  "to_int32 n = sint (word_of_int n :: 32 word)"

lemma to_int32_id: "0 \<le> n \<Longrightarrow> n < 2 ^ 31 \<Longrightarrow> to_int32 n = n"
  unfolding to_int32_def by transfer (simp add: signed_take_bit_int_eq_self)

end
