(* ===== verification/Redis_Service.thy ===== *)
theory Redis_Service
  imports Prelude "HOL-Library.AList"
begin

text \<open>
  The interface to the Redis server. Redis is not part of the repository, so its state
  (type \<open>'s\<close>) and its commands are a parameter of every definition that talks to it: a
  record of type \<open>'s redis\<close>. The locale \<open>redis_service\<close> states what the Redis command
  reference documents about the commands the sources use, in terms of two observations of
  a server state: \<open>view\<close>, the value a live key holds, and \<open>pttl\<close>, its remaining time to
  live in milliseconds. \<open>ref_redis\<close> is an executable server that satisfies the contract, in
  the role the in-memory server \<^verbatim>\<open>miniredis\<close> has in the repository's tests.

  A bulk string is represented by the Go or Lua value it was encoded from: text, a decimal
  integer, or a float64 in the shortest form that parses back to it.

  A Go call to Redis is one round trip (\<open>rdo\<close>). Its fate is taken from a list of the
  world: answered, lost before the server saw it, or executed with the answer lost; an
  exhausted list means that every further call is answered.
\<close>

datatype bulk = BStr string | BInt int | BFloat float64

datatype rvalue =
    RStr bulk
  | RHash "string \<rightharpoonup> bulk"
  | RSet "string set"
  | RGeo "string \<rightharpoonup> float64 \<times> float64"

datatype rerr = WrongType | InvalidExpire | InvalidCoords | LuaError | Unreachable

record 's redis =
  view :: "'s \<Rightarrow> string \<Rightarrow> rvalue option"
  pttl :: "'s \<Rightarrow> string \<Rightarrow> int option"
  rGET :: "'s \<Rightarrow> string \<Rightarrow> rerr + bulk option"
  rEXISTS :: "'s \<Rightarrow> string \<Rightarrow> bool"
  rSETEX :: "string \<Rightarrow> bulk \<Rightarrow> int \<Rightarrow> 's \<Rightarrow> rerr option \<times> 's"
  rDEL :: "string \<Rightarrow> 's \<Rightarrow> 's"
  rHGET :: "'s \<Rightarrow> string \<Rightarrow> string \<Rightarrow> rerr + bulk option"
  rHMGET :: "'s \<Rightarrow> string \<Rightarrow> string list \<Rightarrow> rerr + bulk option list"
  rHGETALL :: "'s \<Rightarrow> string \<Rightarrow> rerr + (string \<times> bulk) list"
  rHSET :: "string \<Rightarrow> (string \<times> bulk) list \<Rightarrow> 's \<Rightarrow> rerr option \<times> 's"
  rPEXPIRE :: "string \<Rightarrow> int \<Rightarrow> 's \<Rightarrow> 's"
  rSADD :: "string \<Rightarrow> string \<Rightarrow> 's \<Rightarrow> rerr option \<times> 's"
  rSREM :: "string \<Rightarrow> string \<Rightarrow> 's \<Rightarrow> rerr option \<times> 's"
  rSMEMBERS :: "'s \<Rightarrow> string \<Rightarrow> rerr + string list"
  rGEOADD :: "string \<Rightarrow> float64 \<Rightarrow> float64 \<Rightarrow> string \<Rightarrow> 's \<Rightarrow> rerr option \<times> 's"
  rZREM :: "string \<Rightarrow> string \<Rightarrow> 's \<Rightarrow> rerr option \<times> 's"
  elapse :: "nat \<Rightarrow> 's \<Rightarrow> 's"
  float_text :: "float64 \<Rightarrow> string"

text \<open>The text of a bulk string, as a Go program reads it; \<open>float_text\<close> is the client's encoding of
  a float argument.\<close>

definition bulk_text :: "'s redis \<Rightarrow> bulk \<Rightarrow> string" where
  "bulk_text R b = (case b of BStr s \<Rightarrow> s | BInt n \<Rightarrow> show_int n | BFloat x \<Rightarrow> float_text R x)"

definition hset :: "(string \<rightharpoonup> bulk) \<Rightarrow> (string \<times> bulk) list \<Rightarrow> (string \<rightharpoonup> bulk)" where
  "hset h fs = fold (\<lambda>(f, v) g. g(f \<mapsto> v)) fs h"

definition hash_or_empty :: "rvalue option \<Rightarrow> (string \<rightharpoonup> bulk)" where
  "hash_or_empty v = (case v of Some (RHash h) \<Rightarrow> h | _ \<Rightarrow> Map.empty)"

definition set_or_empty :: "rvalue option \<Rightarrow> string set" where
  "set_or_empty v = (case v of Some (RSet S) \<Rightarrow> S | _ \<Rightarrow> {})"

definition geo_or_empty :: "rvalue option \<Rightarrow> (string \<rightharpoonup> float64 \<times> float64)" where
  "geo_or_empty v = (case v of Some (RGeo g) \<Rightarrow> g | _ \<Rightarrow> Map.empty)"

definition is_hash :: "rvalue option \<Rightarrow> bool" where
  "is_hash v = (case v of None \<Rightarrow> True | Some (RHash _) \<Rightarrow> True | _ \<Rightarrow> False)"

definition is_set :: "rvalue option \<Rightarrow> bool" where
  "is_set v = (case v of None \<Rightarrow> True | Some (RSet _) \<Rightarrow> True | _ \<Rightarrow> False)"

definition is_geo :: "rvalue option \<Rightarrow> bool" where
  "is_geo v = (case v of None \<Rightarrow> True | Some (RGeo _) \<Rightarrow> True | _ \<Rightarrow> False)"

definition is_str :: "rvalue option \<Rightarrow> bool" where
  "is_str v = (case v of None \<Rightarrow> True | Some (RStr _) \<Rightarrow> True | _ \<Rightarrow> False)"

text \<open>\<^verbatim>\<open>GEOADD\<close> accepts longitudes in \<open>[-180, 180]\<close> and latitudes in the Mercator range.\<close>

definition geo_ok :: "float64 \<Rightarrow> float64 \<Rightarrow> bool" where
  "geo_ok lng lat =
     (f_le (Fin (-180)) lng \<and> f_le lng (Fin 180) \<and>
      f_le (Fin (-85.05112878)) lat \<and> f_le lat (Fin 85.05112878))"

text \<open>Containers that became empty are deleted.\<close>

definition set_value :: "string set \<Rightarrow> rvalue option" where
  "set_value S = (if S = {} then None else Some (RSet S))"

definition geo_value :: "(string \<rightharpoonup> float64 \<times> float64) \<Rightarrow> rvalue option" where
  "geo_value g = (if g = Map.empty then None else Some (RGeo g))"

locale redis_service =
  fixes R :: "'s redis"
  assumes GET_law [redis_laws]:
      "rGET R st k = (case view R st k of None \<Rightarrow> Inr None
         | Some (RStr v) \<Rightarrow> Inr (Some v) | Some _ \<Rightarrow> Inl WrongType)"
    and EXISTS_law [redis_laws]: "rEXISTS R st k = (view R st k \<noteq> None)"
    and SETEX_err [redis_laws]:
      "fst (rSETEX R k v n st) = (if n \<le> 0 then Some InvalidExpire else None)"
    and SETEX_view [redis_laws]:
      "view R (snd (rSETEX R k v n st)) =
         (if n \<le> 0 then view R st else (view R st)(k \<mapsto> RStr v))"
    and SETEX_pttl [redis_laws]:
      "pttl R (snd (rSETEX R k v n st)) =
         (if n \<le> 0 then pttl R st else (pttl R st)(k \<mapsto> 1000 * n))"
    and DEL_view [redis_laws]: "view R (rDEL R k st) = (view R st)(k := None)"
    and DEL_pttl [redis_laws]: "pttl R (rDEL R k st) = (pttl R st)(k := None)"
    and HGET_law [redis_laws]:
      "rHGET R st k f = (if is_hash (view R st k)
         then Inr (hash_or_empty (view R st k) f) else Inl WrongType)"
    and HMGET_law [redis_laws]:
      "rHMGET R st k names = (if is_hash (view R st k)
         then Inr (map (hash_or_empty (view R st k)) names) else Inl WrongType)"
    and HGETALL_law:
      "case rHGETALL R st k of
         Inl e \<Rightarrow> e = WrongType \<and> \<not> is_hash (view R st k)
       | Inr fs \<Rightarrow> is_hash (view R st k) \<and> distinct (map fst fs)
                 \<and> map_of fs = hash_or_empty (view R st k)"
    and hash_nonempty: "view R st k \<noteq> Some (RHash Map.empty)"
    and HSET_err [redis_laws]:
      "fst (rHSET R k fs st) = (if is_hash (view R st k) then None else Some WrongType)"
    and HSET_view [redis_laws]:
      "fs \<noteq> [] \<Longrightarrow> view R (snd (rHSET R k fs st)) =
         (if is_hash (view R st k)
          then (view R st)(k \<mapsto> RHash (hset (hash_or_empty (view R st k)) fs)) else view R st)"
    and HSET_pttl [redis_laws]: "pttl R (snd (rHSET R k fs st)) = pttl R st"
    and PEXPIRE_view [redis_laws]:
      "view R (rPEXPIRE R k n st) = (if n \<le> 0 then (view R st)(k := None) else view R st)"
    and PEXPIRE_pttl [redis_laws]:
      "pttl R (rPEXPIRE R k n st) =
         (if n \<le> 0 then (pttl R st)(k := None)
          else if view R st k = None then pttl R st else (pttl R st)(k \<mapsto> n))"
    and SADD_err [redis_laws]:
      "fst (rSADD R k x st) = (if is_set (view R st k) then None else Some WrongType)"
    and SADD_view [redis_laws]:
      "view R (snd (rSADD R k x st)) =
         (if is_set (view R st k)
          then (view R st)(k \<mapsto> RSet (insert x (set_or_empty (view R st k)))) else view R st)"
    and SADD_pttl [redis_laws]: "pttl R (snd (rSADD R k x st)) = pttl R st"
    and SREM_err [redis_laws]:
      "fst (rSREM R k x st) = (if is_set (view R st k) then None else Some WrongType)"
    and SREM_view [redis_laws]:
      "view R (snd (rSREM R k x st)) =
         (if is_set (view R st k)
          then (view R st)(k := set_value (set_or_empty (view R st k) - {x})) else view R st)"
    and SREM_pttl [redis_laws]:
      "pttl R (snd (rSREM R k x st)) =
         (if is_set (view R st k) \<and> set_or_empty (view R st k) \<subseteq> {x}
          then (pttl R st)(k := None) else pttl R st)"
    and SMEMBERS_law:
      "case rSMEMBERS R st k of
         Inl e \<Rightarrow> e = WrongType \<and> \<not> is_set (view R st k)
       | Inr xs \<Rightarrow> is_set (view R st k) \<and> distinct xs \<and> set xs = set_or_empty (view R st k)"
    and GEOADD_err [redis_laws]:
      "fst (rGEOADD R k lng lat x st) =
         (if \<not> geo_ok lng lat then Some InvalidCoords
          else if is_geo (view R st k) then None else Some WrongType)"
    and GEOADD_view [redis_laws]:
      "view R (snd (rGEOADD R k lng lat x st)) =
         (if geo_ok lng lat \<and> is_geo (view R st k)
          then (view R st)(k \<mapsto> RGeo ((geo_or_empty (view R st k))(x \<mapsto> (lng, lat))))
          else view R st)"
    and GEOADD_pttl [redis_laws]: "pttl R (snd (rGEOADD R k lng lat x st)) = pttl R st"
    and ZREM_err [redis_laws]:
      "fst (rZREM R k x st) = (if is_geo (view R st k) then None else Some WrongType)"
    and ZREM_view [redis_laws]:
      "view R (snd (rZREM R k x st)) =
         (if is_geo (view R st k)
          then (view R st)(k := geo_value ((geo_or_empty (view R st k))(x := None)))
          else view R st)"
    and pttl_dead: "view R st k = None \<Longrightarrow> pttl R st k = None"
    and elapse_view [redis_laws]:
      "view R (elapse R d st) k =
         (case pttl R st k of Some t \<Rightarrow> if t \<le> int d then None else view R st k
          | None \<Rightarrow> view R st k)"
    and elapse_pttl [redis_laws]:
      "pttl R (elapse R d st) k =
         (case pttl R st k of Some t \<Rightarrow> if t \<le> int d then None else Some (t - int d)
          | None \<Rightarrow> None)"
    and float_text_law: "float_text R num \<noteq> [] \<and> hd (float_text R num) \<in> set ''0123456789+-NI''"
begin

lemma bulk_text_eq:
  assumes "s = [] \<or> hd s \<notin> set ''0123456789+-NI''"
  shows "bulk_text R b = s \<longleftrightarrow> b = BStr s"
  using assms float_text_law show_int_hd
  by (cases b) (auto simp del: list.set simp: bulk_text_def)

lemma HGETALL_hash:
  assumes "view R st k = Some (RHash h)"
  obtains fs where "rHGETALL R st k = Inr fs" "map_of fs = h" "fs \<noteq> []"
proof -
  have "is_hash (view R st k)" "hash_or_empty (view R st k) = h" "h \<noteq> Map.empty"
    using assms hash_nonempty [of st k] by (auto simp: is_hash_def hash_or_empty_def)
  with HGETALL_law [of st k] show ?thesis
    by (cases "rHGETALL R st k") (auto intro: that)
qed

lemma HGETALL_none: "view R st k = None \<Longrightarrow> rHGETALL R st k = Inr []"
  using HGETALL_law [of st k]
  by (auto simp: is_hash_def hash_or_empty_def split: sum.splits)

end

section \<open>Round trips\<close>

datatype fate = Answered | LostBefore | LostAfter

record 's world =
  srv :: 's
  fates :: "fate list"

definition rdo :: "('s \<Rightarrow> (rerr + 'a) \<times> 's) \<Rightarrow> (('s, 'm) world_scheme, rerr + 'a) state" where
  "rdo cmd = State (\<lambda>w.
     let (r, st) = cmd (srv w); rest = tl (fates w)
     in case fates w of
          [] \<Rightarrow> (r, w\<lparr>srv := st\<rparr>)
        | Answered # _ \<Rightarrow> (r, w\<lparr>srv := st, fates := rest\<rparr>)
        | LostBefore # _ \<Rightarrow> (Inl Unreachable, w\<lparr>fates := rest\<rparr>)
        | LostAfter # _ \<Rightarrow> (Inl Unreachable, w\<lparr>srv := st, fates := rest\<rparr>))"

text \<open>A command that only reads, and a command that writes and may answer with an error.\<close>

definition rread :: "('s \<Rightarrow> rerr + 'a) \<Rightarrow> (('s, 'm) world_scheme, rerr + 'a) state" where
  "rread cmd = rdo (\<lambda>st. (cmd st, st))"

definition rwrite :: "('s \<Rightarrow> rerr option \<times> 's) \<Rightarrow> (('s, 'm) world_scheme, rerr option) state" where
  "rwrite cmd = do {
     r \<leftarrow> rdo (\<lambda>st. case cmd st of (Some e, st') \<Rightarrow> (Inl e, st') | (None, st') \<Rightarrow> (Inr (), st'));
     State_Monad.return (case r of Inl e \<Rightarrow> Some e | Inr _ \<Rightarrow> None) }"

text \<open>
  A \<^verbatim>\<open>MULTI\<close>/\<^verbatim>\<open>EXEC\<close> transaction: every queued command runs, and the first error reply is the
  error of the transaction; nothing is rolled back.
\<close>

fun tx :: "('s \<Rightarrow> rerr option \<times> 's) list \<Rightarrow> 's \<Rightarrow> rerr option \<times> 's" where
  "tx [] st = (None, st)"
| "tx (c # cs) st =
     (let (e, st1) = c st; (e', st2) = tx cs st1
      in (case e of None \<Rightarrow> e' | Some _ \<Rightarrow> e, st2))"

text \<open>The Lua side: \<^verbatim>\<open>redis.call\<close> raises an error reply, which ends the script; what the
  script wrote before stays.\<close>

definition redis_call :: "rerr option \<times> 's \<Rightarrow> ('s \<Rightarrow> (rerr + 'a) \<times> 's) \<Rightarrow> (rerr + 'a) \<times> 's" where
  "redis_call p k = (case fst p of Some e \<Rightarrow> (Inl e, snd p) | None \<Rightarrow> k (snd p))"

definition redis_read :: "rerr + 'v \<Rightarrow> 's \<Rightarrow> ('v \<Rightarrow> (rerr + 'a) \<times> 's) \<Rightarrow> (rerr + 'a) \<times> 's" where
  "redis_read r st k = (case r of Inl e \<Rightarrow> (Inl e, st) | Inr v \<Rightarrow> k v)"

lemma rdo_answered [simp]:
  "fates w = [] \<Longrightarrow> run_state (rdo cmd) w = (fst (cmd (srv w)), w\<lparr>srv := snd (cmd (srv w))\<rparr>)"
  by (simp add: rdo_def split_beta Let_def)

text \<open>Whatever the fate of a call, the server afterwards is as before or as the command left it,
  and an answer other than \<open>Unreachable\<close> is the command's answer on the server's state.\<close>

lemma rdo_cases:
  obtains (answered) w' where
      "run_state (rdo cmd) w = (fst (cmd (srv w)), w')" "srv w' = snd (cmd (srv w))"
  | (lost) w' where "run_state (rdo cmd) w = (Inl Unreachable, w')"
      "srv w' = srv w \<or> srv w' = snd (cmd (srv w))"
  by (cases "fates w"; cases "hd (fates w)") (auto simp: rdo_def split_beta Let_def)

lemma rread_answered [simp]:
  "fates w = [] \<Longrightarrow> run_state (rread cmd) w = (cmd (srv w), w)"
  by (simp add: rread_def)

lemma rread_srv: "run_state (rread cmd) w = (r, w') \<Longrightarrow> srv w' = srv w"
  unfolding rread_def by (rule rdo_cases [of "\<lambda>st. (cmd st, st)" w]) auto

lemma rread_Inr: "run_state (rread cmd) w = (Inr a, w') \<Longrightarrow> cmd (srv w) = Inr a"
  unfolding rread_def by (rule rdo_cases [of "\<lambda>st. (cmd st, st)" w]) auto

lemma srv_rread [simp]: "srv (snd (run_state (rread cmd) w)) = srv w"
  by (metis prod.collapse rread_srv)

lemma rread_fst: "fst (run_state (rread cmd) w) \<in> {cmd (srv w), Inl Unreachable}"
  unfolding rread_def by (rule rdo_cases [of "\<lambda>st. (cmd st, st)" w]) auto

lemma rread_lost [simp]:
  "fates w = LostBefore # fs \<Longrightarrow> run_state (rread cmd) w = (Inl Unreachable, w\<lparr>fates := fs\<rparr>)"
  by (simp add: rread_def rdo_def)

lemma rwrite_answered [simp]:
  "fates w = [] \<Longrightarrow> run_state (rwrite cmd) w = (fst (cmd (srv w)), w\<lparr>srv := snd (cmd (srv w))\<rparr>)"
  by (auto simp: rwrite_def split_beta split: option.splits)

lemma hset_Nil [simp]: "hset h [] = h"
  by (simp add: hset_def)

lemma hset_Cons [simp]: "hset h ((f, v) # fs) = hset (h(f \<mapsto> v)) fs"
  by (simp add: hset_def)

lemma is_hash_simps [simp]:
  "is_hash None" "is_hash (Some (RHash h))" "\<not> is_hash (Some (RStr v))"
  "\<not> is_hash (Some (RSet S))" "\<not> is_hash (Some (RGeo g))"
  by (simp_all add: is_hash_def)

lemma is_set_simps [simp]: "is_set None" "is_set (Some (RSet S))"
  by (simp_all add: is_set_def)

lemma is_geo_simps [simp]: "is_geo None" "is_geo (Some (RGeo g))"
  by (simp_all add: is_geo_def)

lemma is_str_simps [simp]:
  "is_str None" "is_str (Some (RStr v))" "\<not> is_str (Some (RHash h))"
  by (simp_all add: is_str_def)

lemma or_empty_simps [simp]:
  "hash_or_empty None = Map.empty" "hash_or_empty (Some (RHash h)) = h"
  "set_or_empty None = {}" "set_or_empty (Some (RSet S)) = S"
  "geo_or_empty None = Map.empty" "geo_or_empty (Some (RGeo g)) = g"
  by (simp_all add: hash_or_empty_def set_or_empty_def geo_or_empty_def)

lemma is_set_set_value [simp]: "is_set (set_value S)"
  by (simp add: set_value_def)

lemma set_or_empty_set_value [simp]: "set_or_empty (set_value S) = S"
  by (simp add: set_value_def set_or_empty_def)

end
