(* ===== verification/Keys.thy ===== *)
theory Keys
  imports Redis_Service
begin

text \<open>
  \<^verbatim>\<open>internal/redis/keys.go\<close>: the key builders of the hot-state layer and the reservation
  lease payload. The lemmas in \<open>key_simps\<close> say when two builders can produce the same key;
  the builders of one driver collide with those of another only for identifiers that
  contain a colon.
\<close>

definition DriverKeyPrefix :: string where "DriverKeyPrefix = ''driver:''"
definition LocKeySuffix :: string where "LocKeySuffix = '':loc''"
definition LeaseKeySuffix :: string where "LeaseKeySuffix = '':lease''"
definition SeqKeyPrefix :: string where "SeqKeyPrefix = ''seq:''"
definition CellKeyPrefix :: string where "CellKeyPrefix = ''h3:''"
definition CellKeySuffix :: string where "CellKeySuffix = '':drivers''"
definition GeoKey :: string where "GeoKey = ''geo:drivers''"
definition RideKeyPrefix :: string where "RideKeyPrefix = ''ride:''"
definition RateLimitPrefix :: string where "RateLimitPrefix = ''ratelimit:''"

definition DriverKey :: "string \<Rightarrow> string" where
  "DriverKey i = DriverKeyPrefix @ i"

definition DriverLocKey :: "string \<Rightarrow> string" where
  "DriverLocKey i = DriverKeyPrefix @ i @ LocKeySuffix"

definition DriverLeaseKey :: "string \<Rightarrow> string" where
  "DriverLeaseKey i = DriverKeyPrefix @ i @ LeaseKeySuffix"

definition DriverSeqKey :: "string \<Rightarrow> string" where
  "DriverSeqKey i = SeqKeyPrefix @ i"

definition CellKey :: "string \<Rightarrow> string" where
  "CellKey cell = CellKeyPrefix @ cell @ CellKeySuffix"

definition RideKey :: "string \<Rightarrow> string" where
  "RideKey i = RideKeyPrefix @ i"

definition RateLimitKey :: "string \<Rightarrow> string \<Rightarrow> string" where
  "RateLimitKey scope i = RateLimitPrefix @ scope @ '':'' @ i"

record LeaseValue =
  RideID :: string
  Token :: string
  Version :: "64 word"

definition LeaseValue_String :: "LeaseValue \<Rightarrow> string" where
  "LeaseValue_String l = RideID l @ '':'' @ Token l @ '':'' @ show_nat (unat (Version l))"

datatype lease_err = MalformedLease string | MalformedVersion string

definition ParseLeaseValue :: "string \<Rightarrow> lease_err + LeaseValue" where
  "ParseLeaseValue s = (case Split CHR '':'' s of
       [r, t, v] \<Rightarrow> (case ParseUint v of
           None \<Rightarrow> Inl (MalformedVersion s)
         | Some n \<Rightarrow> Inr \<lparr> RideID = r, Token = t, Version = n \<rparr>)
     | _ \<Rightarrow> Inl (MalformedLease s))"

text \<open>An identifier without the key separator.\<close>

definition plain :: "string \<Rightarrow> bool" where
  "plain s = (CHR '':'' \<notin> set s)"

definition plain_lease :: "LeaseValue \<Rightarrow> bool" where
  "plain_lease l = (plain (RideID l) \<and> plain (Token l))"

lemmas key_defs = DriverKey_def DriverLocKey_def DriverLeaseKey_def DriverSeqKey_def CellKey_def
  RideKey_def RateLimitKey_def GeoKey_def DriverKeyPrefix_def LocKeySuffix_def LeaseKeySuffix_def
  SeqKeyPrefix_def CellKeyPrefix_def CellKeySuffix_def RideKeyPrefix_def RateLimitPrefix_def

section \<open>When keys coincide\<close>

lemma key_inj [simp, key_simps]:
  "DriverKey a = DriverKey b \<longleftrightarrow> a = b"
  "DriverLocKey a = DriverLocKey b \<longleftrightarrow> a = b"
  "DriverLeaseKey a = DriverLeaseKey b \<longleftrightarrow> a = b"
  "DriverSeqKey a = DriverSeqKey b \<longleftrightarrow> a = b"
  "CellKey a = CellKey b \<longleftrightarrow> a = b"
  "RideKey a = RideKey b \<longleftrightarrow> a = b"
  by (simp_all add: key_defs)

text \<open>Different families start differently, or end differently.\<close>

lemma driver_families_ne [simp, key_simps]:
  "DriverLeaseKey a \<noteq> DriverLocKey b" "DriverLocKey b \<noteq> DriverLeaseKey a"
proof -
  have "last (DriverLeaseKey a) \<noteq> last (DriverLocKey b)" by (simp add: key_defs)
  then show "DriverLeaseKey a \<noteq> DriverLocKey b" "DriverLocKey b \<noteq> DriverLeaseKey a" by metis+
qed

lemma families_ne [simp, key_simps]:
  "DriverKey a \<noteq> DriverSeqKey b" "DriverSeqKey b \<noteq> DriverKey a"
  "DriverKey a \<noteq> CellKey b" "CellKey b \<noteq> DriverKey a"
  "DriverKey a \<noteq> GeoKey" "GeoKey \<noteq> DriverKey a"
  "DriverKey a \<noteq> RideKey b" "RideKey b \<noteq> DriverKey a"
  "DriverKey a \<noteq> RateLimitKey s b" "RateLimitKey s b \<noteq> DriverKey a"
  "DriverLocKey a \<noteq> DriverSeqKey b" "DriverSeqKey b \<noteq> DriverLocKey a"
  "DriverLocKey a \<noteq> CellKey b" "CellKey b \<noteq> DriverLocKey a"
  "DriverLocKey a \<noteq> GeoKey" "GeoKey \<noteq> DriverLocKey a"
  "DriverLocKey a \<noteq> RideKey b" "RideKey b \<noteq> DriverLocKey a"
  "DriverLocKey a \<noteq> RateLimitKey s b" "RateLimitKey s b \<noteq> DriverLocKey a"
  "DriverLeaseKey a \<noteq> DriverSeqKey b" "DriverSeqKey b \<noteq> DriverLeaseKey a"
  "DriverLeaseKey a \<noteq> CellKey b" "CellKey b \<noteq> DriverLeaseKey a"
  "DriverLeaseKey a \<noteq> GeoKey" "GeoKey \<noteq> DriverLeaseKey a"
  "DriverLeaseKey a \<noteq> RideKey b" "RideKey b \<noteq> DriverLeaseKey a"
  "DriverLeaseKey a \<noteq> RateLimitKey s b" "RateLimitKey s b \<noteq> DriverLeaseKey a"
  "DriverSeqKey a \<noteq> CellKey b" "CellKey b \<noteq> DriverSeqKey a"
  "DriverSeqKey a \<noteq> GeoKey" "GeoKey \<noteq> DriverSeqKey a"
  "DriverSeqKey a \<noteq> RideKey b" "RideKey b \<noteq> DriverSeqKey a"
  "DriverSeqKey a \<noteq> RateLimitKey s b" "RateLimitKey s b \<noteq> DriverSeqKey a"
  "CellKey a \<noteq> GeoKey" "GeoKey \<noteq> CellKey a"
  "CellKey a \<noteq> RideKey b" "RideKey b \<noteq> CellKey a"
  "CellKey a \<noteq> RateLimitKey s b" "RateLimitKey s b \<noteq> CellKey a"
  "RideKey a \<noteq> GeoKey" "GeoKey \<noteq> RideKey a"
  "RideKey a \<noteq> RateLimitKey s b" "RateLimitKey s b \<noteq> RideKey a"
  "RateLimitKey s b \<noteq> GeoKey" "GeoKey \<noteq> RateLimitKey s b"
  by (simp_all add: key_defs)

lemma plain_driver_key_ne [simp, key_simps]:
  assumes "plain a"
  shows "DriverKey a \<noteq> DriverLocKey b" "DriverLocKey b \<noteq> DriverKey a"
    "DriverKey a \<noteq> DriverLeaseKey b" "DriverLeaseKey b \<noteq> DriverKey a"
  using assms by (auto simp: key_defs plain_def)

text \<open>
  Without the hypothesis the families do overlap: the profile key of the driver whose
  identifier is \<^verbatim>\<open>a:lease\<close> is the lease key of the driver \<^verbatim>\<open>a\<close>, and the profile key of
  \<^verbatim>\<open>a:loc\<close> is the position key of \<open>a\<close>. Identifiers are derived from an unvalidated e-mail
  string, so the hypothesis \<^const>\<open>plain\<close> of the properties is not established by the code.
\<close>

theorem driver_keys_collide:
  "DriverKey (a @ '':lease'') = DriverLeaseKey a \<and> DriverKey (a @ '':loc'') = DriverLocKey a"
  by (simp add: key_defs)

section \<open>The lease payload\<close>

lemma plain_show_nat [simp]: "plain (show_nat n)"
  using show_nat_digits [of "CHR '':''" n] by (auto simp: plain_def is_digit_def)

lemma plain_show_int [simp]: "plain (show_int n)"
  using plain_show_nat by (simp add: plain_def show_int_def)

lemma lease_parts:
  assumes "plain_lease l"
  shows "Split CHR '':'' (LeaseValue_String l) = [RideID l, Token l, show_nat (unat (Version l))]"
proof -
  have "CHR '':'' \<notin> set (show_nat n)" for n
    using show_nat_digits [of "CHR '':''" n] by (auto simp: is_digit_def)
  with assms show ?thesis
    by (simp add: LeaseValue_String_def plain_lease_def plain_def Split_cons_sep Split_no_sep)
qed

text \<open>The strings the scripts compare identify the leases.\<close>

lemma LeaseValue_String_inject:
  assumes "plain_lease a" and "plain_lease b"
  shows "LeaseValue_String a = LeaseValue_String b \<longleftrightarrow> a = b"
proof
  assume eq: "LeaseValue_String a = LeaseValue_String b"
  with lease_parts [OF assms(1)] lease_parts [OF assms(2)] show "a = b"
    by (cases a; cases b) (auto simp: show_nat_inject word_unat_eq_iff)
qed simp

lemma lease_parses: "plain_lease l \<Longrightarrow> ParseLeaseValue (LeaseValue_String l) = Inr l"
  using lease_parts by (simp add: ParseLeaseValue_def ParseUint_show)

text \<open>
  C32. A lease value whose ride and token contain no colon parses back to itself, with the
  full 64-bit version.
\<close>

theorem ParseLeaseValue_String:
  assumes "plain_lease l"
  shows "ParseLeaseValue (LeaseValue_String l) = Inr l"
  by (rule lease_parses [OF assms])

theorem ParseLeaseValue_String_witness:
  "ParseLeaseValue (LeaseValue_String \<lparr> RideID = ''ride-1'', Token = ''00ff'', Version = 7 \<rparr>)
     = Inr \<lparr> RideID = ''ride-1'', Token = ''00ff'', Version = 7 \<rparr>"
  by (rule ParseLeaseValue_String) (simp add: plain_lease_def plain_def)

end
