(* ===== verification/Double.thy ===== *)
theory Double
  imports Prelude
begin

text \<open>
  The arithmetic of doubles, as Lua computes: an operation gives the exact result rounded to
  the nearest double, ties to even (IEEE 754). A finite double is \<open>m * 2 ^ e\<close> with a mantissa
  of 53 bits and an exponent of at least \<open>-1074\<close>; a result of \<open>2 ^ 1024\<close> or more is infinite.
\<close>

section \<open>Rounding\<close>

definition round_even :: "real \<Rightarrow> int" where
  "round_even x = (let n = \<lfloor>x\<rfloor>; r = x - of_int n
     in if r < 1 / 2 \<or> (r = 1 / 2 \<and> even n) then n else n + 1)"

definition dbl_exp :: "real \<Rightarrow> int" where
  "dbl_exp x = max (- 1074) (\<lfloor>log 2 \<bar>x\<bar>\<rfloor> - 52)"

definition dbl :: "real \<Rightarrow> real" where
  "dbl x = (if x = 0 then 0 else of_int (round_even (x / 2 powr of_int (dbl_exp x))) * 2 powr of_int (dbl_exp x))"

definition is_dbl :: "real \<Rightarrow> bool" where
  "is_dbl x \<longleftrightarrow> (\<exists>m e. \<bar>m\<bar> \<le> 2 ^ 53 \<and> - 1074 \<le> e \<and> x = of_int m * 2 powr of_int e)"

fun f_round :: "float64 \<Rightarrow> float64" where
  "f_round (Fin x) = (if dbl x \<ge> 2 ^ 1024 then PInf else if dbl x \<le> - (2 ^ 1024) then NInf else Fin (dbl x))"
| "f_round v = v"

definition d_add :: "float64 \<Rightarrow> float64 \<Rightarrow> float64" where
  "d_add a b = f_round (f_add a b)"

definition d_sub :: "float64 \<Rightarrow> float64 \<Rightarrow> float64" where
  "d_sub a b = f_round (f_sub a b)"

definition d_mul :: "float64 \<Rightarrow> float64 \<Rightarrow> float64" where
  "d_mul a b = f_round (f_mul a b)"

definition d_divc :: "float64 \<Rightarrow> real \<Rightarrow> float64" where
  "d_divc a c = f_round (f_divc a c)"

section \<open>The error of rounding\<close>

lemma round_even_err: "\<bar>of_int (round_even x) - x\<bar> \<le> 1 / 2"
proof -
  have "of_int \<lfloor>x\<rfloor> \<le> x" "x < of_int \<lfloor>x\<rfloor> + 1" by linarith+
  then show ?thesis by (auto simp: round_even_def Let_def)
qed

lemma round_even_int [simp]: "round_even (of_int n) = n"
  by (simp add: round_even_def)

lemma dbl_0 [simp]: "dbl 0 = 0"
  by (simp add: dbl_def)

lemma powr_dbl_exp:
  assumes "x \<noteq> 0"
  shows "2 powr of_int (dbl_exp x) \<le> max (2 powr (- 1074)) (\<bar>x\<bar> * 2 powr (- 52))"
    and "\<bar>x\<bar> < 2 powr 53 * 2 powr of_int (dbl_exp x)"
proof -
  have x: "2 powr log 2 \<bar>x\<bar> = \<bar>x\<bar>" using assms by simp
  show "2 powr of_int (dbl_exp x) \<le> max (2 powr (- 1074)) (\<bar>x\<bar> * 2 powr (- 52))"
  proof (cases "dbl_exp x = - 1074")
    case True
    then show ?thesis by simp
  next
    case False
    then have "real_of_int (dbl_exp x) \<le> log 2 \<bar>x\<bar> - 52" unfolding dbl_exp_def by linarith
    then have "2 powr of_int (dbl_exp x) \<le> 2 powr (log 2 \<bar>x\<bar> - 52)" by simp
    also have "\<dots> = \<bar>x\<bar> * 2 powr (- 52)" by (simp add: powr_diff powr_minus x field_simps)
    finally show ?thesis by simp
  qed
  have "log 2 \<bar>x\<bar> < 53 + real_of_int (dbl_exp x)" unfolding dbl_exp_def by linarith
  then have "2 powr log 2 \<bar>x\<bar> < 2 powr (53 + real_of_int (dbl_exp x))" by simp
  then show "\<bar>x\<bar> < 2 powr 53 * 2 powr of_int (dbl_exp x)" by (simp only: x powr_add)
qed

lemma dbl_err_exp: "\<bar>dbl x - x\<bar> \<le> 2 powr of_int (dbl_exp x) / 2"
proof (cases "x = 0")
  case False
  let ?p = "2 powr of_int (dbl_exp x)"
  have "dbl x - x = (of_int (round_even (x / ?p)) - x / ?p) * ?p"
    using False by (simp add: dbl_def field_simps)
  then have "\<bar>dbl x - x\<bar> = \<bar>of_int (round_even (x / ?p)) - x / ?p\<bar> * ?p"
    by (simp add: abs_mult)
  also have "\<dots> \<le> 1 / 2 * ?p" by (intro mult_right_mono round_even_err) simp
  finally show ?thesis by simp
qed simp

text \<open>The relative error is at most \<open>2 ^ - 53\<close>, up to an absolute one for the subnormal numbers.\<close>

definition dbl_eps :: real where
  "dbl_eps = 1 / 2 ^ 53"

definition dbl_tiny :: real where
  "dbl_tiny = 2 powr (- 1075)"

lemma dbl_eps_bounds: "0 < dbl_eps" "1000000 * dbl_eps \<le> 1"
  by (simp_all add: dbl_eps_def)

lemma dbl_tiny_bounds: "0 < dbl_tiny" "dbl_tiny \<le> dbl_eps * dbl_eps"
proof -
  have "dbl_tiny \<le> 2 powr (- 106)" by (simp add: dbl_tiny_def)
  also have "\<dots> = dbl_eps * dbl_eps" by (simp add: dbl_eps_def powr_minus powr_numeral)
  finally show "dbl_tiny \<le> dbl_eps * dbl_eps" .
qed (simp add: dbl_tiny_def)

lemma dbl_err_max: "\<bar>dbl x - x\<bar> \<le> max dbl_tiny (\<bar>x\<bar> * dbl_eps)"
proof (cases "x = 0")
  case False
  have "2 powr (- 1074) = 2 * dbl_tiny"
    using powr_add [of "2 :: real" 1 "- 1075"] by (simp add: dbl_tiny_def)
  moreover have "\<bar>x\<bar> * 2 powr (- 52) = 2 * (\<bar>x\<bar> * dbl_eps)"
    by (simp add: dbl_eps_def powr_minus powr_numeral)
  ultimately show ?thesis
    using dbl_err_exp [of x] powr_dbl_exp(1) [OF False] by linarith
qed (use dbl_tiny_bounds in simp)

lemma dbl_err: "\<bar>dbl x - x\<bar> \<le> \<bar>x\<bar> * dbl_eps + dbl_tiny"
proof -
  have "0 \<le> \<bar>x\<bar> * dbl_eps" using dbl_eps_bounds(1) by simp
  then show ?thesis using dbl_err_max [of x] dbl_tiny_bounds(1) by linarith
qed

lemma dbl_err_normal:
  assumes "1 / 1000 \<le> \<bar>x\<bar>"
  shows "\<bar>dbl x - x\<bar> \<le> \<bar>x\<bar> * dbl_eps"
proof -
  have "dbl_tiny \<le> dbl_eps * dbl_eps" by (rule dbl_tiny_bounds(2))
  also have "\<dots> \<le> \<bar>x\<bar> * dbl_eps"
    using assms dbl_eps_bounds by (intro mult_right_mono) linarith+
  finally show ?thesis using dbl_err_max [of x] by simp
qed

lemma dbl_nonneg: "0 \<le> x \<Longrightarrow> 0 \<le> dbl x"
proof -
  assume "0 \<le> x"
  then have "- (1 / 2) \<le> real_of_int (round_even (x / 2 powr of_int (dbl_exp x)))"
    using round_even_err [of "x / 2 powr of_int (dbl_exp x)"]
    by (smt (verit) divide_nonneg_nonneg powr_ge_zero)
  then have "0 \<le> round_even (x / 2 powr of_int (dbl_exp x))" by linarith
  then show ?thesis by (simp add: dbl_def)
qed

section \<open>Doubles\<close>

lemma is_dbl_dbl: "is_dbl (dbl x)"
proof (cases "x = 0")
  case True
  then show ?thesis by (auto simp: is_dbl_def intro: exI [of _ 0])
next
  case False
  let ?p = "2 powr of_int (dbl_exp x)"
  have "\<bar>x\<bar> / ?p < 2 ^ 53"
    using powr_dbl_exp(2) [OF False] by (simp add: powr_numeral divide_simps mult.commute)
  then have "\<bar>x / ?p\<bar> < of_int (2 ^ 53)" by simp
  then have "\<bar>real_of_int (round_even (x / ?p))\<bar> < of_int (2 ^ 53) + 1"
    using round_even_err [of "x / ?p"] by linarith
  then have "\<bar>round_even (x / ?p)\<bar> \<le> 2 ^ 53" by linarith
  moreover have "- 1074 \<le> dbl_exp x" by (simp add: dbl_exp_def)
  ultimately show ?thesis using False by (auto simp: is_dbl_def dbl_def)
qed

lemma powr_int_nat: "0 \<le> e \<Longrightarrow> 2 powr real_of_int e = real_of_int (2 ^ nat e)"
  by (simp add: powr_real_of_int)

text \<open>A double is its own rounding.\<close>

lemma is_dbl_small:
  assumes "is_dbl x"
  obtains m e where "\<bar>m\<bar> < 2 ^ 53" "- 1074 \<le> e" "x = of_int m * 2 powr of_int e"
proof -
  obtain m e where m: "\<bar>m\<bar> \<le> 2 ^ 53" "- 1074 \<le> e" "x = of_int m * 2 powr of_int e"
    using assms by (auto simp: is_dbl_def)
  show thesis
  proof (cases "\<bar>m\<bar> = 2 ^ 53")
    case True
    have "real_of_int m * 2 powr of_int e = of_int (sgn m * 2 ^ 52) * 2 powr of_int (e + 1)"
      using True by (auto simp: abs_if powr_add split: if_splits)
    with m show thesis by (intro that [of "sgn m * 2 ^ 52" "e + 1"]) (auto simp: sgn_if)
  qed (use m that in force)
qed

lemma dbl_is_dbl:
  assumes "is_dbl x"
  shows "dbl x = x"
proof (cases "x = 0")
  case False
  obtain m e where m: "\<bar>m\<bar> < 2 ^ 53" "- 1074 \<le> e" "x = of_int m * 2 powr of_int e"
    using assms by (rule is_dbl_small)
  have "\<bar>real_of_int m\<bar> < 2 powr 53" using m(1) by (simp add: powr_numeral flip: of_int_abs)
  then have "\<bar>x\<bar> < 2 powr (53 + of_int e)" by (simp add: m(3) abs_mult powr_add)
  then have "log 2 \<bar>x\<bar> < 53 + of_int e" using False by (simp add: log_less_iff)
  then have "dbl_exp x \<le> e" using m(2) unfolding dbl_exp_def by linarith
  then have "2 powr of_int e / 2 powr of_int (dbl_exp x) = real_of_int (2 ^ nat (e - dbl_exp x))"
    using powr_int_nat [of "e - dbl_exp x"] by (simp flip: powr_diff)
  then have "x / 2 powr of_int (dbl_exp x) = of_int (m * 2 ^ nat (e - dbl_exp x))"
    by (metis m(3) of_int_mult times_divide_eq_right)
  then have "round_even (x / 2 powr of_int (dbl_exp x)) = m * 2 ^ nat (e - dbl_exp x)" by (simp only: round_even_int)
  with \<open>x / _ = _\<close> False show ?thesis by (simp add: dbl_def field_simps)
qed simp

lemma is_dbl_int: "\<bar>n\<bar> \<le> 2 ^ 53 \<Longrightarrow> is_dbl (of_int n)"
  unfolding is_dbl_def by (intro exI [of _ n] exI [of _ 0]) simp

lemma dbl_int: "\<bar>n\<bar> \<le> 2 ^ 53 \<Longrightarrow> dbl (of_int n) = of_int n"
  by (intro dbl_is_dbl is_dbl_int)

text \<open>Taking one from a double of at least one loses nothing.\<close>

lemma is_dbl_minus_1:
  assumes "is_dbl x" and "1 \<le> x" and "x \<le> 2 ^ 53"
  shows "is_dbl (x - 1)"
proof -
  obtain m e where m: "\<bar>m\<bar> \<le> 2 ^ 53" "- 1074 \<le> e" "x = of_int m * 2 powr of_int e"
    using assms(1) by (auto simp: is_dbl_def)
  show ?thesis
  proof (cases "0 \<le> e")
    case True
    then have "x = of_int (m * 2 ^ nat e)" by (simp add: m(3) powr_int_nat)
    moreover from this have "1 \<le> m * 2 ^ nat e" "m * 2 ^ nat e \<le> 2 ^ 53"
      using assms(2,3) by (linarith, metis of_int_le_iff of_int_numeral of_int_power)
    ultimately show ?thesis using is_dbl_int [of "m * 2 ^ nat e - 1"] by simp
  next
    case False
    let ?p = "2 ^ nat (- e) :: int"
    have "real_of_int ?p = 2 powr of_int (- e)" using powr_int_nat [of "- e"] False by simp
    then have p: "of_int ?p * 2 powr of_int e = (1 :: real)" by (simp flip: powr_add)
    then have x: "x - 1 = of_int (m - ?p) * 2 powr of_int e" by (simp add: m(3) left_diff_distrib)
    have "0 \<le> real_of_int (m - ?p) * 2 powr of_int e" using x assms(2) by simp
    then have "0 \<le> m - ?p" by (simp add: zero_le_mult_iff)
    moreover have "0 \<le> ?p" by simp
    ultimately have "\<bar>m - ?p\<bar> \<le> 2 ^ 53" using m(1) by linarith
    with x m(2) show ?thesis unfolding is_dbl_def by blast
  qed
qed

section \<open>Operations\<close>

lemma dbl_bound: "\<bar>dbl x\<bar> \<le> 2 * \<bar>x\<bar> + 1"
proof -
  have "\<bar>x\<bar> * dbl_eps \<le> \<bar>x\<bar> * 1" using dbl_eps_bounds by (intro mult_left_mono) auto
  moreover have "dbl_eps * dbl_eps \<le> 1 * 1" using dbl_eps_bounds by (intro mult_mono) auto
  ultimately show ?thesis using dbl_err [of x] dbl_tiny_bounds by linarith
qed

lemma dbl_le: "0 \<le> x \<Longrightarrow> x \<le> 2 ^ n \<Longrightarrow> dbl x \<le> 2 ^ (n + 2)"
proof -
  assume x: "0 \<le> x" "x \<le> 2 ^ n"
  have "dbl x \<le> 2 * x + 1" using dbl_bound [of x] x(1) by simp
  moreover have "1 \<le> (2 :: real) ^ n" by (rule one_le_power) simp
  ultimately have "dbl x \<le> 4 * 2 ^ n" using x(2) by linarith
  then show ?thesis by simp
qed

lemma f_round_Fin: "\<bar>dbl x\<bar> < 2 ^ 1024 \<Longrightarrow> f_round (Fin x) = Fin (dbl x)"
  by auto

lemma f_round_small:
  assumes "\<bar>x\<bar> \<le> 2 ^ 200"
  shows "f_round (Fin x) = Fin (dbl x)"
proof (rule f_round_Fin)
  have "\<bar>dbl x\<bar> \<le> 2 * \<bar>x\<bar> + 1" by (rule dbl_bound)
  also have "\<dots> \<le> 2 ^ 202" using assms by simp
  also have "(2 :: real) ^ 202 < 2 ^ 1024" by (intro power_strict_increasing) auto
  finally show "\<bar>dbl x\<bar> < 2 ^ 1024" .
qed


lemma d_simps [simp, float_simps]:
  "\<bar>a + b\<bar> \<le> 2 ^ 200 \<Longrightarrow> d_add (Fin a) (Fin b) = Fin (dbl (a + b))"
  "\<bar>a - b\<bar> \<le> 2 ^ 200 \<Longrightarrow> d_sub (Fin a) (Fin b) = Fin (dbl (a - b))"
  "\<bar>a * b\<bar> \<le> 2 ^ 200 \<Longrightarrow> d_mul (Fin a) (Fin b) = Fin (dbl (a * b))"
  "\<bar>a / c\<bar> \<le> 2 ^ 200 \<Longrightarrow> d_divc (Fin a) c = Fin (dbl (a / c))"
  by (simp_all add: d_add_def d_sub_def d_mul_def d_divc_def f_round_small del: f_round.simps)

text \<open>
  The error of \<open>t + a * r\<close> cut off at \<open>c\<close>, computed in doubles: three roundings, each within half
  a unit in the last place of a number that is about \<open>c\<close> or cut off.
\<close>

lemma dbl_refill_err:
  fixes a r t c :: real
  assumes "a = 0 \<or> 1 / 1000 \<le> a" and "0 \<le> r" and "0 \<le> t" and "t \<le> c" and "1 \<le> c"
  shows "\<bar>min c (dbl (t + dbl (dbl a * r))) - min c (t + a * r)\<bar> \<le> 4 * c * dbl_eps"
proof -
  let ?u = dbl_eps
  define q where "q = dbl a * r"
  define p where "p = dbl q"
  define s where "s = t + p"
  define v where "v = dbl s"
  have u: "0 < ?u" "1000000 * ?u \<le> 1" by (fact dbl_eps_bounds)+
  have a: "0 \<le> a" "\<bar>dbl a - a\<bar> \<le> a * ?u"
    using assms(1) dbl_err_normal [of a] by (auto simp: abs_if split: if_splits)
  have nn: "0 \<le> q" "0 \<le> p" "0 \<le> s" "0 \<le> a * r"
    using a(1) assms(2,3) by (simp_all add: q_def p_def s_def dbl_nonneg)
  have q: "\<bar>q - a * r\<bar> \<le> a * r * ?u"
  proof -
    have "\<bar>q - a * r\<bar> = \<bar>dbl a - a\<bar> * r"
      using assms(2) by (simp add: q_def abs_mult flip: left_diff_distrib)
    also have "\<dots> \<le> a * ?u * r" by (rule mult_right_mono [OF a(2) assms(2)])
    finally show ?thesis by (simp add: mult_ac)
  qed
  have tiny: "dbl_tiny \<le> c * ?u / 1000000"
  proof -
    have "dbl_tiny \<le> ?u * ?u" by (rule dbl_tiny_bounds(2))
    also have "\<dots> \<le> c / 1000000 * ?u" using u assms(5) by (intro mult_right_mono) linarith+
    finally show ?thesis by simp
  qed
  have p: "\<bar>p - q\<bar> \<le> q * ?u + c * ?u / 1000000"
    using dbl_err [of q] nn tiny by (simp add: p_def)
  have v: "\<bar>v - s\<bar> \<le> s * ?u + c * ?u / 1000000"
    using dbl_err [of s] nn tiny by (simp add: v_def)
  have small: "x * ?u \<le> x / 1000000" if "0 \<le> x" for x
    using mult_left_mono [OF u(2) that] by simp
  have "\<bar>min c v - min c (t + a * r)\<bar> \<le> 4 * (c * ?u)"
  proof (cases "t + a * r < c")
    case True
    have e: "a * r * ?u \<le> c * ?u" using True assms(3) u by (intro mult_right_mono) linarith+
    have "q \<le> 11 / 10 * c" using q e small [of c] assms(5) True assms(3) by linarith
    then have q': "q * ?u \<le> 11 / 10 * c * ?u" using u by (intro mult_right_mono) linarith+
    have "s \<le> 12 / 10 * c" using s_def p q e q' True small [of c] assms(5) by linarith
    then have v': "s * ?u \<le> 12 / 10 * c * ?u" using u by (intro mult_right_mono) linarith+
    have "0 \<le> c * ?u" using assms(5) u by simp
    then have "\<bar>v - (t + a * r)\<bar> \<le> 4 * (c * ?u)" using s_def q e p q' v v' by linarith
    then show ?thesis by linarith
  next
    case False
    show ?thesis
    proof (cases "c \<le> v")
      case True
      then show ?thesis using False assms(5) u by simp
    next
      case low: False
      have "s \<le> 11 / 10 * c"
        using v low small [OF nn(3)] small [of c] nn assms(3,5) by linarith
      then have v': "s * ?u \<le> 11 / 10 * c * ?u" using u by (intro mult_right_mono) linarith+
      have "q \<le> 12 / 10 * c"
        using s_def p \<open>s \<le> 11 / 10 * c\<close> small [OF nn(1)] small [of c] assms(3,5) by linarith
      then have q': "q * ?u \<le> 12 / 10 * c * ?u" using u by (intro mult_right_mono) linarith+
      have "a * r \<le> 13 / 10 * c"
        using q \<open>q \<le> 12 / 10 * c\<close> small [OF nn(4)] assms(5) by linarith
      then have e: "a * r * ?u \<le> 13 / 10 * c * ?u" using u by (intro mult_right_mono) linarith+
      have "0 \<le> c * ?u" using assms(5) u by simp
      then have "c - 4 * (c * ?u) \<le> v" using s_def q e p q' v v' False by linarith
      then show ?thesis using False low by linarith
    qed
  qed
  then show ?thesis by (simp add: v_def s_def p_def q_def mult.assoc)
qed

end
