(* ===== verification/Scripts.thy ===== *)
theory Scripts
  imports Keys Double
begin

text \<open>
  \<^verbatim>\<open>internal/redis/scripts.go\<close>: the four Lua scripts, each a function from the server's
  state to the script's reply and the new state. A script runs atomically in Redis, so one
  call of these functions is one step of the system. The lemmas of
  \<open>context redis_service\<close> give the outcome of every branch in terms of the keyspace.
\<close>

text \<open>Lua's \<^verbatim>\<open>tonumber\<close> on a bulk string: an integer is rounded to the 53-bit mantissa.\<close>

definition lua_tonumber :: "bulk \<Rightarrow> float64 option" where
  "lua_tonumber b = (case b of
       BInt n \<Rightarrow> Some (Fin (of_int (round53 n)))
     | BFloat x \<Rightarrow> Some x
     | BStr _ \<Rightarrow> None)"

definition applyLocationScript ::
  "'s redis \<Rightarrow> string \<Rightarrow> string \<Rightarrow> string \<Rightarrow> string \<Rightarrow> string
   \<Rightarrow> int \<Rightarrow> float64 \<Rightarrow> float64 \<Rightarrow> string \<Rightarrow> int \<Rightarrow> int \<Rightarrow> string \<Rightarrow> 's \<Rightarrow> (rerr + int) \<times> 's"
where
  "applyLocationScript R seqK locK oldK newK geoK newSeq lat lng newCell tsMs locTTL driverID st =
     (let write = (\<lambda>st.
        redis_call (rSETEX R seqK (BInt newSeq) 3600 st) (\<lambda>st.
        redis_call (rHSET R locK [(''lat'', BFloat lat), (''lng'', BFloat lng), (''cell'', BStr newCell),
                                  (''seq'', BInt newSeq), (''ts'', BInt tsMs)] st) (\<lambda>st.
        let st = rPEXPIRE R locK (1000 * locTTL) st in
        redis_call (if oldK \<noteq> newK then rSREM R oldK driverID st else (None, st)) (\<lambda>st.
        redis_call (rSADD R newK driverID st) (\<lambda>st.
        redis_call (rGEOADD R geoK lng lat driverID st) (\<lambda>st.
        (Inr 1, st)))))))
      in redis_read (rGET R st seqK) st (\<lambda>last.
           case last of
             None \<Rightarrow> write st
           | Some l \<Rightarrow> (case (lua_tonumber l, lua_tonumber (BInt newSeq)) of
               (Some a, Some b) \<Rightarrow> if f_le b a then (Inr 0, st) else write st
             | _ \<Rightarrow> (Inl LuaError, st))))"

definition reserveScript ::
  "'s redis \<Rightarrow> string \<Rightarrow> string \<Rightarrow> string \<Rightarrow> string \<Rightarrow> int \<Rightarrow> 's \<Rightarrow> (rerr + int) \<times> 's"
where
  "reserveScript R leaseK driverK rideID leaseValue ttlSeconds st =
     (if rEXISTS R st leaseK then
        redis_read (rGET R st leaseK) st (\<lambda>owner.
          if owner = Some (BStr leaseValue)
          then redis_call (rSETEX R leaseK (BStr leaseValue) ttlSeconds st) (\<lambda>st. (Inr 1, st))
          else (Inr 0, st))
      else
        redis_read (rHGET R st driverK ''state'') st (\<lambda>state.
          let state = (if state = Some (BStr ''RESERVED'') then Some (BStr ''AVAILABLE'') else state)
          in if state \<noteq> Some (BStr ''AVAILABLE'') then (Inr (-1), st)
             else redis_call (rSETEX R leaseK (BStr leaseValue) ttlSeconds st) (\<lambda>st.
                  redis_call (rHSET R driverK [(''state'', BStr ''RESERVED''),
                                               (''reserved_ride'', BStr rideID)] st) (\<lambda>st.
                  (Inr 1, st)))))"

definition releaseScript ::
  "'s redis \<Rightarrow> string \<Rightarrow> string \<Rightarrow> string \<Rightarrow> string \<Rightarrow> 's \<Rightarrow> (rerr + int) \<times> 's"
where
  "releaseScript R leaseK driverK expectedLeaseValue targetState st =
     redis_read (rGET R st leaseK) st (\<lambda>owner.
       if owner = Some (BStr expectedLeaseValue) then
         let st = rDEL R leaseK st in
         redis_call (rHSET R driverK [(''state'', BStr targetState)] st) (\<lambda>st. (Inr 1, st))
       else (Inr 0, st))"

definition tokenBucketScript ::
  "'s redis \<Rightarrow> string \<Rightarrow> float64 \<Rightarrow> float64 \<Rightarrow> float64 \<Rightarrow> float64 \<Rightarrow> int \<Rightarrow> 's \<Rightarrow> (rerr + int) \<times> 's"
where
  "tokenBucketScript R bucketK capacity refill now requested ttlMs st =
     redis_read (rHMGET R st bucketK [''tokens'', ''ts'']) st (\<lambda>b.
       let tokens = Option.bind (b ! 0) lua_tonumber; ts = Option.bind (b ! 1) lua_tonumber;
           (tokens, ts) = (if tokens = None then (Some capacity, Some now) else (tokens, ts))
       in case (tokens, ts) of
            (Some tokens, Some ts) \<Rightarrow>
              (let elapsed = lua_max (Fin 0) (d_sub now ts);
                   tokens = lua_min capacity (d_add tokens (d_mul (d_divc elapsed 1000) refill));
                   (tokens, allowed) = (if f_le requested tokens then (d_sub tokens requested, 1)
                                        else (tokens, 0))
               in redis_call (rHSET R bucketK [(''tokens'', BFloat tokens), (''ts'', BFloat now)] st) (\<lambda>st.
                  (Inr allowed, rPEXPIRE R bucketK ttlMs st)))
          | _ \<Rightarrow> (Inl LuaError, st))"

lemma redis_call_None [simp]: "fst p = None \<Longrightarrow> redis_call p k = k (snd p)"
  by (simp add: redis_call_def)

lemma redis_call_Some: "fst p = Some e \<Longrightarrow> redis_call p k = (Inl e, snd p)"
  by (simp add: redis_call_def)

lemma redis_read_simps [simp]:
  "redis_read (Inl e) st k = (Inl e, st)" "redis_read (Inr v) st k = k v"
  by (simp_all add: redis_read_def)

lemma lua_tonumber_simps [simp]:
  "lua_tonumber (BInt n) = Some (Fin (of_int (round53 n)))"
  "lua_tonumber (BFloat x) = Some x" "lua_tonumber (BStr s) = None"
  by (simp_all add: lua_tonumber_def)

context redis_service
begin

section \<open>Reservation\<close>

lemma reserve_renew:
  assumes "view R st leaseK = Some (RStr (BStr lv))" and "0 < ttl"
  shows "fst (reserveScript R leaseK driverK ride lv ttl st) = Inr 1"
    and "view R (snd (reserveScript R leaseK driverK ride lv ttl st)) = view R st"
    and "pttl R (snd (reserveScript R leaseK driverK ride lv ttl st))
           = (pttl R st)(leaseK \<mapsto> 1000 * ttl)"
  using assms by (simp_all add: reserveScript_def redis_laws fun_upd_idem)

lemma reserve_conflict:
  assumes "view R st leaseK = Some (RStr b)" and "b \<noteq> BStr lv"
  shows "reserveScript R leaseK driverK ride lv ttl st = (Inr 0, st)"
  using assms by (simp add: reserveScript_def redis_laws)

lemma reserve_acquire:
  assumes "view R st leaseK = None" and "view R st driverK = Some (RHash h)"
    and "h ''state'' \<in> {Some (BStr ''AVAILABLE''), Some (BStr ''RESERVED'')}"
    and "0 < ttl" and "leaseK \<noteq> driverK"
  shows "fst (reserveScript R leaseK driverK ride lv ttl st) = Inr 1"
    and "view R (snd (reserveScript R leaseK driverK ride lv ttl st)) =
           (view R st)(leaseK \<mapsto> RStr (BStr lv),
             driverK \<mapsto> RHash (h(''state'' \<mapsto> BStr ''RESERVED'', ''reserved_ride'' \<mapsto> BStr ride)))"
    and "pttl R (snd (reserveScript R leaseK driverK ride lv ttl st))
           = (pttl R st)(leaseK \<mapsto> 1000 * ttl)"
  using assms by (auto simp: reserveScript_def redis_laws Let_def)

lemma reserve_unavailable:
  assumes "view R st leaseK = None" and "is_hash (view R st driverK)"
    and "hash_or_empty (view R st driverK) ''state''
           \<notin> {Some (BStr ''AVAILABLE''), Some (BStr ''RESERVED'')}"
  shows "reserveScript R leaseK driverK ride lv ttl st = (Inr (-1), st)"
  using assms by (auto simp: reserveScript_def redis_laws Let_def)

text \<open>A reply of 1 means that the lease key now holds the caller's value for the full term.\<close>

lemma reserve_won:
  assumes "fst (reserveScript R leaseK driverK ride lv ttl st) = Inr 1" and "leaseK \<noteq> driverK"
  shows "view R (snd (reserveScript R leaseK driverK ride lv ttl st)) leaseK = Some (RStr (BStr lv))"
    and "pttl R (snd (reserveScript R leaseK driverK ride lv ttl st)) leaseK = Some (1000 * ttl)"
    and "0 < ttl"
  using assms
  by (auto simp: reserveScript_def redis_laws Let_def redis_call_def redis_read_def
      split: if_splits option.splits sum.splits rvalue.splits)

text \<open>What a reservation attempt can change at all: its two keys.\<close>

lemma reserve_frame:
  assumes "k \<noteq> leaseK" and "k \<noteq> driverK"
  shows "view R (snd (reserveScript R leaseK driverK ride lv ttl st)) k = view R st k"
    and "pttl R (snd (reserveScript R leaseK driverK ride lv ttl st)) k = pttl R st k"
  using assms
  by (auto simp: reserveScript_def redis_laws Let_def redis_call_def redis_read_def
      split: option.splits sum.splits)

lemma release_held:
  assumes "view R st leaseK = Some (RStr (BStr lv))" and "view R st driverK = Some (RHash h)"
  shows "fst (releaseScript R leaseK driverK lv target st) = Inr 1"
    and "view R (snd (releaseScript R leaseK driverK lv target st)) =
           (view R st)(leaseK := None, driverK \<mapsto> RHash (h(''state'' \<mapsto> BStr target)))"
proof -
  have ne: "driverK \<noteq> leaseK" using assms by auto
  then show "fst (releaseScript R leaseK driverK lv target st) = Inr 1"
    "view R (snd (releaseScript R leaseK driverK lv target st)) =
       (view R st)(leaseK := None, driverK \<mapsto> RHash (h(''state'' \<mapsto> BStr target)))"
    using assms by (simp_all add: releaseScript_def redis_laws Let_def)
qed

lemma release_foreign:
  assumes "is_str (view R st leaseK)" and "view R st leaseK \<noteq> Some (RStr (BStr lv))"
  shows "releaseScript R leaseK driverK lv target st = (Inr 0, st)"
  using assms
  by (auto simp: releaseScript_def redis_laws is_str_def split: option.splits rvalue.splits)

lemma release_frame:
  assumes "k \<noteq> leaseK" and "k \<noteq> driverK"
  shows "view R (snd (releaseScript R leaseK driverK lv target st)) k = view R st k"
    and "pttl R (snd (releaseScript R leaseK driverK lv target st)) k = pttl R st k"
  using assms
  by (auto simp: releaseScript_def redis_laws Let_def redis_call_def redis_read_def
      split: option.splits sum.splits)

end

section \<open>Location updates\<close>

text \<open>Lua's number for a decimal integer argument.\<close>

definition lua_int :: "int \<Rightarrow> float64" where
  "lua_int n = Fin (of_int (round53 n))"

text \<open>The guard: no sequence applied yet, or a smaller one as Lua's numbers compare them.\<close>

definition seq_fresh :: "rvalue option \<Rightarrow> int \<Rightarrow> bool" where
  "seq_fresh v n = (case v of
       None \<Rightarrow> True
     | Some (RStr (BInt m)) \<Rightarrow> round53 m < round53 n
     | _ \<Rightarrow> False)"

text \<open>The keys of a location update hold the types the other operations give them.\<close>

definition loc_typed :: "'s redis \<Rightarrow> 's \<Rightarrow> string \<Rightarrow> string \<Rightarrow> string \<Rightarrow> string \<Rightarrow> string \<Rightarrow> bool" where
  "loc_typed R st seqK locK oldK newK geoK \<longleftrightarrow>
     (case view R st seqK of None \<Rightarrow> True | Some (RStr (BInt _)) \<Rightarrow> True | _ \<Rightarrow> False) \<and>
     is_hash (view R st locK) \<and> is_set (view R st oldK) \<and> is_set (view R st newK) \<and>
     is_geo (view R st geoK) \<and>
     seqK \<notin> {locK, oldK, newK, geoK} \<and> locK \<notin> {oldK, newK, geoK} \<and> geoK \<notin> {oldK, newK}"

definition loc_fields :: "float64 \<Rightarrow> float64 \<Rightarrow> string \<Rightarrow> int \<Rightarrow> int \<Rightarrow> (string \<times> bulk) list" where
  "loc_fields lat lng cell seq ts =
     [(''lat'', BFloat lat), (''lng'', BFloat lng), (''cell'', BStr cell),
      (''seq'', BInt seq), (''ts'', BInt ts)]"

context redis_service
begin

lemma apply_stale:
  assumes "view R st seqK = Some (RStr (BInt m))" and "round53 n \<le> round53 m"
  shows "applyLocationScript R seqK locK oldK newK geoK n lat lng cell ts locTTL d st = (Inr 0, st)"
  using assms by (simp add: applyLocationScript_def redis_laws)

text \<open>A fresh update passes the guard and runs the writes in the script's order.\<close>

lemma apply_guard:
  assumes "seq_fresh (view R st seqK) n"
  shows "applyLocationScript R seqK locK oldK newK geoK n lat lng cell ts locTTL d st =
     redis_call (rSETEX R seqK (BInt n) 3600 st) (\<lambda>st.
     redis_call (rHSET R locK (loc_fields lat lng cell n ts) st) (\<lambda>st.
     redis_call (if oldK \<noteq> newK then rSREM R oldK d (rPEXPIRE R locK (1000 * locTTL) st)
                 else (None, rPEXPIRE R locK (1000 * locTTL) st)) (\<lambda>st.
     redis_call (rSADD R newK d st) (\<lambda>st.
     redis_call (rGEOADD R geoK lng lat d st) (\<lambda>st. (Inr 1, st))))))"
proof -
  consider "view R st seqK = None" | m where "view R st seqK = Some (RStr (BInt m))" "round53 m < round53 n"
    using assms by (auto simp: seq_fresh_def split: option.splits rvalue.splits bulk.splits)
  then show ?thesis
    by cases (simp_all add: applyLocationScript_def loc_fields_def Let_def redis_laws)
qed

lemma apply_effect:
  assumes typed: "loc_typed R st seqK locK oldK newK geoK"
    and fresh: "seq_fresh (view R st seqK) n" and "0 < locTTL"
  shows "fst (applyLocationScript R seqK locK oldK newK geoK n lat lng cell ts locTTL d st)
           = (if geo_ok lng lat then Inr 1 else Inl InvalidCoords)"
    and "view R (snd (applyLocationScript R seqK locK oldK newK geoK n lat lng cell ts locTTL d st)) =
           (let v = (view R st)(seqK \<mapsto> RStr (BInt n),
                  locK \<mapsto> RHash (hset (hash_or_empty (view R st locK)) (loc_fields lat lng cell n ts)));
                v = (if oldK \<noteq> newK then v(oldK := set_value (set_or_empty (v oldK) - {d})) else v);
                v = v(newK \<mapsto> RSet (insert d (set_or_empty (v newK))))
            in if geo_ok lng lat
               then v(geoK \<mapsto> RGeo ((geo_or_empty (v geoK))(d \<mapsto> (lng, lat)))) else v)"
proof -
  have ne: "loc_fields lat lng cell n ts \<noteq> []" by (simp add: loc_fields_def)
  have t: "is_hash (view R st locK)" "is_set (view R st oldK)" "is_set (view R st newK)"
    "is_geo (view R st geoK)" "seqK \<noteq> locK" "seqK \<noteq> oldK" "seqK \<noteq> newK" "seqK \<noteq> geoK"
    "locK \<noteq> oldK" "locK \<noteq> newK" "locK \<noteq> geoK" "geoK \<noteq> oldK" "geoK \<noteq> newK"
    "locK \<noteq> seqK" "oldK \<noteq> seqK" "newK \<noteq> seqK" "geoK \<noteq> seqK"
    "oldK \<noteq> locK" "newK \<noteq> locK" "geoK \<noteq> locK" "oldK \<noteq> geoK" "newK \<noteq> geoK"
    using typed by (auto simp: loc_typed_def)
  show "fst (applyLocationScript R seqK locK oldK newK geoK n lat lng cell ts locTTL d st)
           = (if geo_ok lng lat then Inr 1 else Inl InvalidCoords)"
    using t ne \<open>0 < locTTL\<close>
    by (cases "oldK = newK"; cases "geo_ok lng lat")
      (simp_all add: apply_guard [OF fresh] redis_laws redis_call_def)
  show "view R (snd (applyLocationScript R seqK locK oldK newK geoK n lat lng cell ts locTTL d st)) =
           (let v = (view R st)(seqK \<mapsto> RStr (BInt n),
                  locK \<mapsto> RHash (hset (hash_or_empty (view R st locK)) (loc_fields lat lng cell n ts)));
                v = (if oldK \<noteq> newK then v(oldK := set_value (set_or_empty (v oldK) - {d})) else v);
                v = v(newK \<mapsto> RSet (insert d (set_or_empty (v newK))))
            in if geo_ok lng lat
               then v(geoK \<mapsto> RGeo ((geo_or_empty (v geoK))(d \<mapsto> (lng, lat)))) else v)"
    using t ne \<open>0 < locTTL\<close>
    by (cases "oldK = newK"; cases "geo_ok lng lat")
      (simp_all add: apply_guard [OF fresh] redis_laws redis_call_def Let_def)
qed

lemma apply_ttl:
  assumes "loc_typed R st seqK locK oldK newK geoK"
    and fresh: "seq_fresh (view R st seqK) n" and "0 < locTTL"
  shows "pttl R (snd (applyLocationScript R seqK locK oldK newK geoK n lat lng cell ts locTTL d st)) locK
           = Some (1000 * locTTL)"
    and "pttl R (snd (applyLocationScript R seqK locK oldK newK geoK n lat lng cell ts locTTL d st)) seqK
           = Some 3600000"
proof -
  have ne: "loc_fields lat lng cell n ts \<noteq> []" by (simp add: loc_fields_def)
  have t: "is_hash (view R st locK)" "is_set (view R st oldK)" "is_set (view R st newK)"
    "is_geo (view R st geoK)" "seqK \<noteq> locK" "seqK \<noteq> oldK" "seqK \<noteq> newK"
    "locK \<noteq> oldK" "locK \<noteq> newK" "locK \<noteq> seqK"
    using assms by (auto simp: loc_typed_def)
  show "pttl R (snd (applyLocationScript R seqK locK oldK newK geoK n lat lng cell ts locTTL d st)) locK
           = Some (1000 * locTTL)"
    "pttl R (snd (applyLocationScript R seqK locK oldK newK geoK n lat lng cell ts locTTL d st)) seqK
           = Some 3600000"
    using t ne \<open>0 < locTTL\<close>
    by (cases "oldK = newK"; cases "geo_ok lng lat";
        simp add: apply_guard [OF fresh] redis_laws redis_call_def)+
qed

lemma apply_frame:
  assumes "k \<notin> {seqK, locK, oldK, newK, geoK}" and "seq_fresh (view R st seqK) n"
    and "loc_typed R st seqK locK oldK newK geoK" and "0 < locTTL"
  shows "view R (snd (applyLocationScript R seqK locK oldK newK geoK n lat lng cell ts locTTL d st)) k
           = view R st k"
  using assms by (simp add: apply_effect Let_def)

end

section \<open>Rate limiting\<close>

text \<open>
  A bucket is empty of information (never used or expired) or holds a number of tokens and the
  time of its last use in milliseconds. \<open>bucket_refill\<close> is its content at time \<open>now\<close> in exact
  arithmetic, \<open>bucket_tokens\<close> what the script computes: the sum, the product and the quotient are
  each rounded to a double.
\<close>

type_synonym bucket = "(real \<times> int) option"

definition bucket_refill :: "int \<Rightarrow> real \<Rightarrow> int \<Rightarrow> bucket \<Rightarrow> real" where
  "bucket_refill cap refill now b = (case b of
       None \<Rightarrow> of_int cap
     | Some (t, ts) \<Rightarrow> min (of_int cap) (t + of_int (max 0 (now - ts)) / 1000 * refill))"

definition bucket_tokens :: "int \<Rightarrow> real \<Rightarrow> int \<Rightarrow> bucket \<Rightarrow> real" where
  "bucket_tokens cap refill now b = (case b of
       None \<Rightarrow> of_int cap
     | Some (t, ts) \<Rightarrow> min (of_int cap) (dbl (t + dbl (dbl (of_int (max 0 (now - ts)) / 1000) * refill))))"

text \<open>The buckets a hash can hold: a double between zero and the capacity, a time a double holds.\<close>

definition bucket_ok :: "int \<Rightarrow> bucket \<Rightarrow> bool" where
  "bucket_ok cap b = (case b of
       None \<Rightarrow> True
     | Some (t, ts) \<Rightarrow> is_dbl t \<and> 0 \<le> t \<and> t \<le> of_int cap \<and> 0 \<le> ts \<and> ts \<le> 2 ^ 53)"

definition bucket_is :: "'s redis \<Rightarrow> 's \<Rightarrow> string \<Rightarrow> bucket \<Rightarrow> bool" where
  "bucket_is R st k b = (case b of
       None \<Rightarrow> view R st k = None
     | Some (t, ts) \<Rightarrow> (\<exists>h. view R st k = Some (RHash h)
         \<and> h ''tokens'' = Some (BFloat (Fin t)) \<and> h ''ts'' = Some (BFloat (Fin (of_int ts)))))"

lemma bucket_tokens_err:
  assumes "bucket_ok cap b" and "1 \<le> cap" and "0 \<le> refill"
  shows "\<bar>bucket_tokens cap refill now b - bucket_refill cap refill now b\<bar> \<le> 4 * of_int cap * dbl_eps"
proof (cases b)
  case (Some p)
  obtain t ts where p: "p = (t, ts)" by force
  have "(of_int (max 0 (now - ts)) / 1000 :: real) = 0 \<or> 1 / 1000 \<le> (of_int (max 0 (now - ts)) / 1000 :: real)"
    by (auto simp: max_def)
  moreover have "0 \<le> t" "t \<le> of_int cap" "1 \<le> real_of_int cap"
    using assms(1,2) by (auto simp: Some p bucket_ok_def)
  ultimately show ?thesis
    using dbl_refill_err assms(3) by (simp only: Some p bucket_tokens_def bucket_refill_def option.case prod.case)
qed (use assms dbl_eps_bounds in \<open>simp add: bucket_tokens_def bucket_refill_def\<close>)

lemma bucket_tokens_range:
  assumes "bucket_ok cap b" and "1 \<le> cap" and "cap \<le> 2 ^ 53" and "0 \<le> refill"
  shows "is_dbl (bucket_tokens cap refill now b)" "0 \<le> bucket_tokens cap refill now b"
    "bucket_tokens cap refill now b \<le> of_int cap"
proof -
  have "is_dbl (of_int cap)" using assms(2,3) by (intro is_dbl_int) simp
  then show "is_dbl (bucket_tokens cap refill now b)"
    by (auto simp: bucket_tokens_def min_def is_dbl_dbl split: option.splits)
qed (use assms in \<open>auto simp: bucket_tokens_def bucket_ok_def dbl_nonneg split: option.splits\<close>)

text \<open>The script's arithmetic stays far from the overflow.\<close>

lemma script_tokens:
  assumes "bucket_ok cap (Some (t, ts))" and "cap \<le> 2 ^ 53" and "0 \<le> refill" and "refill \<le> 2 ^ 53"
    and "0 \<le> now" and "now \<le> 2 ^ 53"
  shows "lua_max (Fin 0) (d_sub (Fin (of_int now)) (Fin (of_int ts))) = Fin (of_int (max 0 (now - ts)))"
    and "d_add (Fin t) (d_mul (d_divc (Fin (of_int (max 0 (now - ts)))) 1000) (Fin refill))
      = Fin (dbl (t + dbl (dbl (of_int (max 0 (now - ts)) / 1000) * refill)))"
proof -
  let ?e = "real_of_int (max 0 (now - ts))"
  have ts: "\<bar>now - ts\<bar> \<le> 2 ^ 53" using assms(1,5,6) by (auto simp: bucket_ok_def)
  then have r: "\<bar>real_of_int (now - ts)\<bar> \<le> 2 ^ 53" by (simp flip: of_int_abs of_int_diff)
  then show "lua_max (Fin 0) (d_sub (Fin (of_int now)) (Fin (of_int ts))) = Fin ?e"
    using dbl_int [OF ts] by (simp add: max_def)
  have e: "0 \<le> ?e" "?e \<le> 2 ^ 53" using r by auto
  have q: "0 \<le> dbl (?e / 1000)" "dbl (?e / 1000) \<le> 2 ^ (53 + 2)"
    using dbl_le [of "?e / 1000" 53] e dbl_nonneg [of "?e / 1000"] by simp_all
  have "dbl (?e / 1000) * refill \<le> 2 ^ (53 + 2) * 2 ^ 53"
    using q assms(3,4) by (intro mult_mono) auto
  then have m: "0 \<le> dbl (?e / 1000) * refill" "dbl (?e / 1000) * refill \<le> 2 ^ 108" using q assms(3) by simp_all
  have p: "0 \<le> dbl (dbl (?e / 1000) * refill)" "dbl (dbl (?e / 1000) * refill) \<le> 2 ^ (108 + 2)"
    using dbl_le [OF m] dbl_nonneg [OF m(1)] by simp_all
  have "0 \<le> t" "t \<le> 2 ^ 53" using assms(1,2) by (auto simp: bucket_ok_def)
  then show "d_add (Fin t) (d_mul (d_divc (Fin ?e) 1000) (Fin refill))
      = Fin (dbl (t + dbl (dbl (?e / 1000) * refill)))"
    using e m p by simp
qed

context redis_service
begin

lemma bucket_step:
  assumes "bucket_is R st k b" and "0 < ttl" and "bucket_ok cap b" and "1 \<le> cap" and "cap \<le> 2 ^ 53"
    and "0 \<le> refill" and "refill \<le> 2 ^ 53" and "0 \<le> now" and "now \<le> 2 ^ 53"
  defines "T \<equiv> bucket_tokens cap refill now b"
    and "r \<equiv> tokenBucketScript R k (Fin (of_int cap)) (Fin refill) (Fin (of_int now)) (Fin 1) ttl st"
  shows "fst r = Inr (if 1 \<le> T then 1 else 0)"
    and "bucket_is R (snd r) k (Some (if 1 \<le> T then T - 1 else T, now))"
    and "pttl R (snd r) k = Some ttl"
    and "k' \<noteq> k \<Longrightarrow> view R (snd r) k' = view R st k'"
    and "k' \<noteq> k \<Longrightarrow> pttl R (snd r) k' = pttl R st k'"
proof -
  note T = bucket_tokens_range [OF assms(3-6), of now, folded T_def]
  have "real_of_int cap \<le> of_int (2 ^ 53)" using assms(5) by (simp only: of_int_le_iff)
  then have lim: "T \<le> 2 ^ 53" using T(3) by simp
  have sub: "1 \<le> T \<Longrightarrow> d_sub (Fin T) (Fin 1) = Fin (T - 1)"
    using dbl_is_dbl [OF is_dbl_minus_1 [OF T(1) _ lim]] lim by simp
  have tok: "lua_min (Fin (of_int cap)) (d_add (Fin t) (d_mul (d_divc (lua_max (Fin 0) (d_sub (Fin (of_int now)) (Fin (of_int ts)))) 1000) (Fin refill)))
      = Fin T" if "b = Some (t, ts)" for t ts
    using script_tokens [OF assms(3) [unfolded that] assms(5-9)] by (simp only: lua_min_Fin T_def that bucket_tokens_def option.case prod.case)
  have cap: "b = None \<Longrightarrow> lua_min (Fin (of_int cap)) (d_add (Fin (of_int cap)) (d_mul (d_divc (lua_max (Fin 0) (d_sub (Fin (of_int now)) (Fin (of_int now)))) 1000) (Fin refill)))
      = Fin T"
    using script_tokens [of cap "of_int cap" now, OF _ assms(5-9)] assms(4,5,8,9) is_dbl_int [of cap] dbl_int [of cap]
    by (simp add: bucket_ok_def T_def bucket_tokens_def)
  show "fst r = Inr (if 1 \<le> T then 1 else 0)"
    and "bucket_is R (snd r) k (Some (if 1 \<le> T then T - 1 else T, now))"
    and "pttl R (snd r) k = Some ttl"
    and "k' \<noteq> k \<Longrightarrow> view R (snd r) k' = view R st k'"
    and "k' \<noteq> k \<Longrightarrow> pttl R (snd r) k' = pttl R st k'"
    using assms(1,2) tok cap sub
    by (cases b; auto simp: r_def tokenBucketScript_def bucket_is_def redis_laws Let_def)+
qed

end

end
