(* ===== verification/Geospatial.thy ===== *)
theory Geospatial
  imports Prelude
begin

text \<open>
  \<^verbatim>\<open>internal/geospatial/h3.go\<close>: H3 cells, search rings and great-circle distance. The H3
  library is not part of the repository: its operations are the fields of the parameter
  \<open>H\<close>, over an abstract type \<open>'c\<close> of cells. \<open>h3_covers\<close> is the coverage fact about the tiling of
  resolution 7 that \<^verbatim>\<open>docs/decisions/ADR-004\<close> relies on.
\<close>

record 'c h3 =
  LatLngToCell :: "float64 \<Rightarrow> float64 \<Rightarrow> int \<Rightarrow> 'c option"
  ParseCell :: "string \<Rightarrow> 'c option"
  cell_String :: "'c \<Rightarrow> string"
  cell_LatLng :: "'c \<Rightarrow> (float64 \<times> float64) option"
  GridDisk :: "'c \<Rightarrow> int \<Rightarrow> 'c list option"

datatype geo_err =
    ErrLatLngToCell | ErrParseCell | ErrCellCenter | ErrNegativeRing | ErrGridDisk
  | ErrNaN | ErrLatitude | ErrLongitude

definition DefaultResolution :: int where "DefaultResolution = 7"

definition cellCircumradiusM :: real where "cellCircumradiusM = 400"

definition geo_CellKey :: "'c h3 \<Rightarrow> float64 \<Rightarrow> float64 \<Rightarrow> int \<Rightarrow> geo_err + string" where
  "geo_CellKey H lat lng res = (case LatLngToCell H lat lng res of
       None \<Rightarrow> Inl ErrLatLngToCell
     | Some cell \<Rightarrow> Inr (cell_String H cell))"

definition CellCenter :: "'c h3 \<Rightarrow> string \<Rightarrow> geo_err + float64 \<times> float64" where
  "CellCenter H cellHex = (case ParseCell H cellHex of
       None \<Rightarrow> Inl ErrParseCell
     | Some cell \<Rightarrow> (case cell_LatLng H cell of
           None \<Rightarrow> Inl ErrCellCenter
         | Some (lat, lng) \<Rightarrow> Inr (f_divc lat (pi / 180), f_divc lng (pi / 180))))"

definition Ring :: "'c h3 \<Rightarrow> string \<Rightarrow> int \<Rightarrow> geo_err + string list" where
  "Ring H originHex k =
     (if k < 0 then Inl ErrNegativeRing
      else case ParseCell H originHex of
             None \<Rightarrow> Inl ErrParseCell
           | Some cell \<Rightarrow> (case GridDisk H cell k of
                 None \<Rightarrow> Inl ErrGridDisk
               | Some ring \<Rightarrow> Inr (map (cell_String H) ring)))"

text \<open>
  Go's conversion of a \<^verbatim>\<open>float64\<close> to \<^verbatim>\<open>int\<close>: truncation, and the smallest integer for a value
  out of range or not a number, as the amd64 instruction gives it.
\<close>

definition go_int :: "float64 \<Rightarrow> int" where
  "go_int x = (case x of
       Fin r \<Rightarrow> (let n = (if r < 0 then \<lceil>r\<rceil> else \<lfloor>r\<rfloor>)
                in if - (2 ^ 63) \<le> n \<and> n < 2 ^ 63 then n else - (2 ^ 63))
     | _ \<Rightarrow> - (2 ^ 63))"

definition math_Ceil :: "float64 \<Rightarrow> float64" where
  "math_Ceil x = (case x of Fin r \<Rightarrow> Fin (of_int \<lceil>r\<rceil>) | other \<Rightarrow> other)"

definition RingForRadius :: "float64 \<Rightarrow> int \<Rightarrow> int" where
  "RingForRadius radiusM res =
     (let k = go_int (math_Ceil (f_divc radiusM cellCircumradiusM))
      in if k < 1 then 1 else k)"

text \<open>\<^verbatim>\<open>math.Atan2\<close> on finite arguments.\<close>

definition atan2 :: "real \<Rightarrow> real \<Rightarrow> real" where
  "atan2 y x =
     (if x > 0 then arctan (y / x)
      else if x < 0 then (if y \<ge> 0 then arctan (y / x) + pi else arctan (y / x) - pi)
      else if y > 0 then pi / 2 else if y < 0 then - (pi / 2) else 0)"

definition hav_a :: "real \<Rightarrow> real \<Rightarrow> real \<Rightarrow> real \<Rightarrow> real" where
  "hav_a lat1 lng1 lat2 lng2 =
     (let phi1 = lat1 * pi / 180; phi2 = lat2 * pi / 180;
          dphi = (lat2 - lat1) * pi / 180; dlam = (lng2 - lng1) * pi / 180
      in sin (dphi / 2) * sin (dphi / 2)
         + cos phi1 * cos phi2 * sin (dlam / 2) * sin (dlam / 2))"

definition earth_r :: real where "earth_r = 6371008.8"

definition haversine :: "real \<Rightarrow> real \<Rightarrow> real \<Rightarrow> real \<Rightarrow> real" where
  "haversine lat1 lng1 lat2 lng2 =
     (let a = hav_a lat1 lng1 lat2 lng2
      in 2 * earth_r * atan2 (sqrt a) (sqrt (1 - a)))"

text \<open>Any infinite or NaN argument makes a sine, and so the result, NaN.\<close>

definition HaversineMeters :: "float64 \<Rightarrow> float64 \<Rightarrow> float64 \<Rightarrow> float64 \<Rightarrow> float64" where
  "HaversineMeters lat1 lng1 lat2 lng2 = (case (lat1, lng1, lat2, lng2) of
       (Fin a, Fin b, Fin c, Fin d) \<Rightarrow> Fin (haversine a b c d)
     | _ \<Rightarrow> NaN)"

definition ValidateLatLng :: "float64 \<Rightarrow> float64 \<Rightarrow> geo_err option" where
  "ValidateLatLng lat lng =
     (if lat = NaN \<or> lng = NaN then Some ErrNaN
      else if f_lt lat (Fin (-90)) \<or> f_lt (Fin 90) lat then Some ErrLatitude
      else if f_lt lng (Fin (-180)) \<or> f_lt (Fin 180) lng then Some ErrLongitude
      else None)"

record SearchPlan =
  OriginCell :: string
  Cells :: "string list"
  RingK :: int
  plan_RadiusM :: float64

definition PlanSearch :: "'c h3 \<Rightarrow> float64 \<Rightarrow> float64 \<Rightarrow> float64 \<Rightarrow> int \<Rightarrow> geo_err + SearchPlan" where
  "PlanSearch H lat lng radiusM res = (case geo_CellKey H lat lng res of
       Inl e \<Rightarrow> Inl e
     | Inr origin \<Rightarrow> (let k = RingForRadius radiusM res in
         case Ring H origin k of
           Inl e \<Rightarrow> Inl e
         | Inr cells \<Rightarrow> Inr \<lparr> OriginCell = origin, Cells = cells, RingK = k, plan_RadiusM = radiusM \<rparr>))"

text \<open>
  The coverage of the tiling at the resolution of the index: a point at most \<open>400 k\<close> metres away
  from another lies in a cell of the other's \<open>k\<close>-disk. Crossing the \<open>k\<close>-disk from any point of its
  origin takes at least \<open>k\<close> times the length of a cell's edge, and the hexagons of resolution 7 have
  edges of about 1.4 km, never below 1 km, so that the 400 m of \<^verbatim>\<open>cellCircumradiusM\<close> are on the safe
  side. At finer resolutions it does not hold, and nothing is assumed about them. A cell's string
  form parses back to the cell.
\<close>

definition h3_covers :: "'c h3 \<Rightarrow> bool" where
  "h3_covers H \<longleftrightarrow>
     (\<forall>c. ParseCell H (cell_String H c) = Some c) \<and>
     (\<forall>lat lng lat' lng' k c c' ring.
        LatLngToCell H (Fin lat) (Fin lng) DefaultResolution = Some c \<longrightarrow>
        LatLngToCell H (Fin lat') (Fin lng') DefaultResolution = Some c' \<longrightarrow>
        GridDisk H c k = Some ring \<longrightarrow>
        haversine lat lng lat' lng' \<le> cellCircumradiusM * of_int k \<longrightarrow> c' \<in> set ring)"

section \<open>Distance\<close>

lemma hav_a_identity:
  fixes lat1 lng1 lat2 lng2 :: real
  defines "s \<equiv> sin ((lng2 - lng1) * pi / 180 / 2) ^ 2"
  defines "d \<equiv> cos (lat2 * pi / 180 - lat1 * pi / 180)"
  defines "t \<equiv> cos (lat2 * pi / 180 + lat1 * pi / 180)"
  shows "hav_a lat1 lng1 lat2 lng2 = (1 - (d * (1 - s) - s * t)) / 2"
proof -
  have half: "sin (x / 2) * sin (x / 2) = (1 - cos x) / 2" for x :: real
    using cos_double_sin [of "x / 2"] by (simp add: power2_eq_square)
  have dphi: "(lat2 - lat1) * pi / 180 = lat2 * pi / 180 - lat1 * pi / 180"
    by (simp add: left_diff_distrib diff_divide_distrib)
  have prod: "cos (lat1 * pi / 180) * cos (lat2 * pi / 180) = (d + t) / 2"
    unfolding d_def t_def by (simp add: cos_add cos_diff)
  have "hav_a lat1 lng1 lat2 lng2 = (1 - d) / 2
      + cos (lat1 * pi / 180) * cos (lat2 * pi / 180) * s"
    unfolding hav_a_def Let_def half dphi s_def d_def by (simp add: power2_eq_square mult.assoc)
  then show ?thesis unfolding prod by (simp add: field_simps)
qed

lemma hav_a_bounds: "0 \<le> hav_a lat1 lng1 lat2 lng2" "hav_a lat1 lng1 lat2 lng2 \<le> 1"
proof -
  define s where "s = sin ((lng2 - lng1) * pi / 180 / 2) ^ 2"
  define d where "d = cos (lat2 * pi / 180 - lat1 * pi / 180)"
  define t where "t = cos (lat2 * pi / 180 + lat1 * pi / 180)"
  have s: "0 \<le> s" "s \<le> 1"
    by (auto simp: s_def power2_eq_square abs_square_le_1 [unfolded power2_eq_square])
  have d: "\<bar>d\<bar> \<le> 1" and t: "\<bar>t\<bar> \<le> 1" by (simp_all add: d_def t_def)
  have "\<bar>d * (1 - s)\<bar> \<le> 1 - s"
    using s d by (simp add: abs_mult mult_left_le_one_le)
  moreover have "\<bar>s * t\<bar> \<le> s"
    using s t by (simp add: abs_mult mult_left_le)
  ultimately have "\<bar>d * (1 - s) - s * t\<bar> \<le> 1" by linarith
  moreover have "hav_a lat1 lng1 lat2 lng2 = (1 - (d * (1 - s) - s * t)) / 2"
    unfolding s_def d_def t_def by (rule hav_a_identity)
  ultimately show "0 \<le> hav_a lat1 lng1 lat2 lng2" "hav_a lat1 lng1 lat2 lng2 \<le> 1"
    by (simp_all add: abs_le_iff)
qed

lemma atan2_bounds:
  assumes "0 \<le> y" and "0 \<le> x"
  shows "0 \<le> atan2 y x" "atan2 y x \<le> pi / 2"
proof -
  have "arctan (y / x) \<le> pi / 2" using arctan_ubound [of "y / x"] by linarith
  then show "0 \<le> atan2 y x" "atan2 y x \<le> pi / 2"
    using assms pi_ge_zero by (auto simp: atan2_def)
qed

lemma hav_a_sym: "hav_a lat1 lng1 lat2 lng2 = hav_a lat2 lng2 lat1 lng1"
proof -
  have "sin ((b - a) * pi / 180 / 2) = - sin ((a - b) * pi / 180 / 2)" for a b :: real
  proof -
    have "(b - a) * pi / 180 / 2 = - ((a - b) * pi / 180 / 2)" by (simp add: field_simps)
    then show ?thesis by (metis sin_minus)
  qed
  from this [of lat2 lat1] this [of lng2 lng1] show ?thesis
    unfolding hav_a_def Let_def by (simp add: mult.commute)
qed

lemma haversine_bounds: "0 \<le> haversine a b c d" "haversine a b c d \<le> pi * earth_r"
proof -
  have "0 \<le> sqrt (hav_a a b c d)" "0 \<le> sqrt (1 - hav_a a b c d)"
    using hav_a_bounds [of a b c d] by simp_all
  from atan2_bounds [OF this]
  have "0 \<le> atan2 (sqrt (hav_a a b c d)) (sqrt (1 - hav_a a b c d))"
    and "atan2 (sqrt (hav_a a b c d)) (sqrt (1 - hav_a a b c d)) \<le> pi / 2"
    by blast+
  then show "0 \<le> haversine a b c d" "haversine a b c d \<le> pi * earth_r"
    by (simp_all add: haversine_def Let_def earth_r_def field_simps)
qed

lemma haversine_sym: "haversine a b c d = haversine c d a b"
  by (simp add: haversine_def hav_a_sym [of a b c d])

lemma haversine_same [simp]: "haversine a b a b = 0"
  by (simp add: haversine_def hav_a_def atan2_def)

lemma atan2_sin_cos:
  assumes "0 \<le> x" and "x \<le> pi / 2"
  shows "atan2 (sin x) (cos x) = x"
proof (cases "x = pi / 2")
  case True
  then have "sin x = 1" "cos x = 0" by (simp_all only: sin_pi_half cos_pi_half)
  with True show ?thesis by (simp add: atan2_def)
next
  case False
  with assms pi_gt_zero have "- (pi / 2) < x" "x < pi / 2" by linarith+
  then have "0 < cos x" "arctan (tan x) = x"
    by (auto intro: cos_gt_zero_pi arctan_tan)
  then show ?thesis by (simp add: atan2_def tan_def)
qed

text \<open>Along a meridian the distance is the arc length.\<close>

lemma haversine_meridian:
  assumes "\<bar>lat2 - lat1\<bar> \<le> 180"
  shows "haversine lat1 lng lat2 lng = earth_r * (\<bar>lat2 - lat1\<bar> * pi / 180)"
proof -
  define x where "x = \<bar>lat2 - lat1\<bar> * pi / 180 / 2"
  have x: "0 \<le> x" "x \<le> pi / 2" using assms by (auto simp: x_def)
  have a: "hav_a lat1 lng lat2 lng = sin x ^ 2"
  proof (cases "lat1 \<le> lat2")
    case True
    then show ?thesis by (simp add: hav_a_def x_def power2_eq_square)
  next
    case False
    then show ?thesis
      by (subst hav_a_sym) (simp add: hav_a_def x_def power2_eq_square)
  qed
  have sc: "0 \<le> sin x" "0 \<le> cos x" using x by (auto intro: sin_ge_zero cos_ge_zero)
  have "1 - sin x ^ 2 = cos x ^ 2" by (simp add: cos_squared_eq)
  then have "atan2 (sqrt (sin x ^ 2)) (sqrt (1 - sin x ^ 2)) = atan2 (sin x) (cos x)"
    using sc by simp
  also have "\<dots> = x" by (rule atan2_sin_cos [OF x])
  finally show ?thesis by (simp add: haversine_def a Let_def) (simp add: x_def)
qed

lemma HaversineMeters_Fin [simp]:
  "HaversineMeters (Fin a) (Fin b) (Fin c) (Fin d) = Fin (haversine a b c d)"
  by (simp add: HaversineMeters_def)

text \<open>
  On finite coordinates the distance is finite, symmetric, zero from a point to itself,
  between zero and half the Earth's circumference, and along a meridian it is the arc length.
\<close>

theorem HaversineMeters_metric:
  "\<exists>d. HaversineMeters (Fin a) (Fin b) (Fin c) (Fin e) = Fin d
     \<and> HaversineMeters (Fin c) (Fin e) (Fin a) (Fin b) = Fin d
     \<and> 0 \<le> d \<and> d \<le> pi * 6371008.8
     \<and> ((a, b) = (c, e) \<longrightarrow> d = 0)
     \<and> (b = e \<and> \<bar>c - a\<bar> \<le> 180 \<longrightarrow> d = 6371008.8 * (\<bar>c - a\<bar> * pi / 180))"
  using haversine_bounds [of a b c e] haversine_sym [of c e a b] haversine_meridian [of c a b]
  by (auto simp: earth_r_def)

theorem HaversineMeters_metric_witness:
  "HaversineMeters (Fin 0) (Fin 0) (Fin 1) (Fin 0) = Fin (6371008.8 * (\<bar>1 - 0\<bar> * pi / 180))
     \<and> HaversineMeters (Fin 5) (Fin 6) (Fin 5) (Fin 6) = Fin 0"
  using HaversineMeters_metric [of 0 0 1 0] HaversineMeters_metric [of 5 6 5 6] by auto

section \<open>Rings\<close>



lemma RingForRadius_covers: "r \<le> 400 * 2 ^ 62 \<Longrightarrow> r \<le> 400 * of_int (RingForRadius (Fin r) res)"
  by (auto simp: RingForRadius_def go_int_def math_Ceil_def cellCircumradiusM_def Let_def
      ceiling_le_iff) linarith+

lemma RingForRadius_pos: "1 \<le> RingForRadius r res"
  by (simp add: RingForRadius_def Let_def)

lemma ValidateLatLng_finite:
  assumes "ValidateLatLng lat lng = None"
  obtains a b where "lat = Fin a" "lng = Fin b" "\<bar>a\<bar> \<le> 90" "\<bar>b\<bar> \<le> 180"
  using assms by (cases lat; cases lng) (auto simp: ValidateLatLng_def split: if_splits)

text \<open>
  A tiling of the sphere into bands of one degree of latitude, with the bands at most \<open>k\<close> away as the
  \<open>k\<close>-disk: it satisfies \<open>h3_covers\<close>, since two points are at least as far apart as their parallels.
\<close>

definition bands :: "int h3" where
  "bands = \<lparr> LatLngToCell = (\<lambda>lat lng res. case lat of
         Fin a \<Rightarrow> if \<bar>a\<bar> \<le> 90 then Some \<lfloor>a\<rfloor> else None | _ \<Rightarrow> None),
     ParseCell = read_int, cell_String = show_int,
     cell_LatLng = (\<lambda>c. Some (Fin ((of_int c + 1 / 2) * pi / 180), Fin 0)),
     GridDisk = (\<lambda>c k. if k < 0 then None else Some [c - k..c + k]) \<rparr>"

lemma haversine_latitude:
  assumes "\<bar>lat1\<bar> \<le> 90" and "\<bar>lat2\<bar> \<le> 90"
  shows "earth_r * (\<bar>lat2 - lat1\<bar> * pi / 180) \<le> haversine lat1 lng1 lat2 lng2"
proof -
  let ?a = "hav_a lat1 lng1 lat2 lng2"
  define x where "x = \<bar>lat2 - lat1\<bar> * pi / 180 / 2"
  have "\<bar>lat2 - lat1\<bar> \<le> 180" using assms by linarith
  then have x: "0 \<le> x" "x \<le> pi / 2" by (auto simp: x_def)
  have c: "0 \<le> cos (l * pi / 180)" if "\<bar>l\<bar> \<le> 90" for l :: real
  proof -
    have "\<bar>l * pi\<bar> \<le> 90 * pi" using that by (simp add: abs_mult)
    then show ?thesis by (intro cos_ge_zero) (simp_all add: abs_le_iff)
  qed
  have "x = (lat2 - lat1) * pi / 180 / 2 \<or> x = - ((lat2 - lat1) * pi / 180 / 2)"
    by (simp add: x_def abs_if field_simps)
  then have "sin x ^ 2 = sin ((lat2 - lat1) * pi / 180 / 2) * sin ((lat2 - lat1) * pi / 180 / 2)"
    by (metis power2_eq_square power2_minus sin_minus)
  also have "\<dots> \<le> ?a"
    using c [OF assms(1)] c [OF assms(2)] by (simp add: hav_a_def Let_def mult.assoc)
  finally have a: "sin x ^ 2 \<le> ?a" .
  define t where "t = arcsin (sqrt ?a)"
  have s: "0 \<le> sqrt ?a" "sqrt ?a \<le> 1" using hav_a_bounds [of lat1 lng1 lat2 lng2] by simp_all
  have m: "- 1 \<le> sqrt ?a" using s(1) by linarith
  have t: "sin t = sqrt ?a" "cos t = sqrt (1 - ?a)"
    using sin_arcsin [OF m s(2)] cos_arcsin [OF m s(2)] hav_a_bounds(1) [of lat1 lng1 lat2 lng2] by (simp_all add: t_def)
  have tb: "0 \<le> t" "t \<le> pi / 2" using s m arcsin_bounded [of "sqrt ?a"] arcsin_le_arcsin [of 0 "sqrt ?a"] by (auto simp: t_def)
  have "sin x \<le> sqrt ?a" using a real_le_rsqrt by blast
  then have "x \<le> t" using x tb t(1) sin_mono_le_eq [of x t] by auto
  then have "2 * earth_r * x \<le> 2 * earth_r * t" by (simp add: earth_r_def)
  moreover have "haversine lat1 lng1 lat2 lng2 = 2 * earth_r * t"
    using atan2_sin_cos [OF tb] by (simp add: haversine_def t Let_def)
  ultimately show ?thesis by (simp add: x_def mult.commute)
qed

lemma bands_covers: "h3_covers bands"
proof -
  have "\<lfloor>b\<rfloor> \<in> set [\<lfloor>a\<rfloor> - k..\<lfloor>a\<rfloor> + k]"
    if ab: "\<bar>a\<bar> \<le> 90" "\<bar>b\<bar> \<le> 90" and k: "0 \<le> k" and h: "haversine a l b l' \<le> cellCircumradiusM * of_int k" for a b l l' k
  proof -
    define p where "p = \<bar>b - a\<bar> * pi"
    have "earth_r * (p / 180) \<le> 400 * of_int k"
      using haversine_latitude [OF ab, of l l'] h by (simp add: cellCircumradiusM_def p_def)
    then have "2654587 * p \<le> 30000 * of_int k" by (simp add: earth_r_def)
    moreover have "\<bar>b - a\<bar> * 2 \<le> p" unfolding p_def using pi_ge_two by (intro mult_left_mono) simp_all
    then have "2654587 * (\<bar>b - a\<bar> * 2) \<le> 2654587 * p" by simp
    moreover have "30000 * of_int k \<le> (2654587 * 2 / 100 * of_int k :: real)" using k by (intro mult_right_mono) simp_all
    ultimately have d: "\<bar>b - a\<bar> \<le> of_int k / 100" by simp
    show ?thesis
    proof (cases "k = 0")
      case False
      then have "1 \<le> k" using k by simp
      then have "\<bar>b - a\<bar> < of_int k" using d by linarith
      then have "\<lfloor>b\<rfloor> < \<lfloor>a\<rfloor> + k + 1" "\<lfloor>a\<rfloor> < \<lfloor>b\<rfloor> + k + 1" by linarith+
      then show ?thesis by auto
    qed (use d in simp)
  qed
  then show ?thesis
    by (auto simp: h3_covers_def bands_def split: if_splits)
qed

text \<open>The coarsest tiling there is, a single cell.\<close>

definition one_cell :: "unit h3" where
  "one_cell = \<lparr> LatLngToCell = \<lambda>_ _ _. Some (), ParseCell = \<lambda>_. Some (),
     cell_String = \<lambda>_. ''87'', cell_LatLng = \<lambda>_. Some (Fin 0, Fin 0), GridDisk = \<lambda>_ _. Some [()] \<rparr>"

lemma one_cell_key [simp]: "geo_CellKey one_cell lat lng res = Inr ''87''"
  by (simp add: geo_CellKey_def one_cell_def)

lemma one_cell_plan [simp]:
  "PlanSearch one_cell lat lng r res = Inr \<lparr> OriginCell = ''87'', Cells = [''87''],
     RingK = RingForRadius r res, plan_RadiusM = r \<rparr>"
  using RingForRadius_pos [of r res]
  by (simp add: PlanSearch_def Let_def Ring_def) (simp add: one_cell_def)

lemma PlanSearch_cells:
  assumes "PlanSearch H (Fin lat) (Fin lng) (Fin r) DefaultResolution = Inr plan" and "h3_covers H"
    and "LatLngToCell H (Fin a) (Fin b) DefaultResolution = Some c"
    and "haversine lat lng a b \<le> r" and "r \<le> 400 * 2 ^ 62"
  shows "cell_String H c \<in> set (Cells plan)"
proof -
  obtain c0 ring where c0: "LatLngToCell H (Fin lat) (Fin lng) DefaultResolution = Some c0"
    and ring: "GridDisk H c0 (RingForRadius (Fin r) DefaultResolution) = Some ring"
    and cells: "Cells plan = map (cell_String H) ring"
    using assms(1,2)
    by (auto simp: PlanSearch_def geo_CellKey_def Ring_def Let_def h3_covers_def
        split: option.splits sum.splits if_splits)
  have "haversine lat lng a b \<le> cellCircumradiusM * of_int (RingForRadius (Fin r) DefaultResolution)"
    using assms(4) RingForRadius_covers [OF assms(5), of DefaultResolution] by (simp add: cellCircumradiusM_def)
  then have "c \<in> set ring"
    using assms(2,3) c0 ring unfolding h3_covers_def by blast
  then show ?thesis by (simp add: cells)
qed

end
