(* ===== verification/Ref_Redis.thy ===== *)
theory Ref_Redis
  imports Redis_Service
begin

text \<open>
  An executable Redis server: a map from keys to values with their expiry, and the
  commands of \<open>redis_service\<close> on it. Its interpretation discharges every law of the
  contract, so the contract is satisfiable, and the concrete instances of the properties are
  evaluated on it.
\<close>

datatype refval =
    VStr bulk
  | VHash "(string \<times> bulk) list"
  | VSet "string list"
  | VGeo "(string \<times> float64 \<times> float64) list"

type_synonym ref = "string \<rightharpoonup> refval \<times> int option"

fun nonempty_val :: "refval \<Rightarrow> bool" where
  "nonempty_val (VStr _) = True"
| "nonempty_val (VHash fs) = (fs \<noteq> [])"
| "nonempty_val (VSet xs) = (xs \<noteq> [])"
| "nonempty_val (VGeo gs) = (gs \<noteq> [])"

definition ref_live :: "ref \<Rightarrow> string \<Rightarrow> (refval \<times> int option) option" where
  "ref_live st k = (case st k of None \<Rightarrow> None
     | Some (v, t) \<Rightarrow> if nonempty_val v then Some (v, t) else None)"

fun ref_value :: "refval \<Rightarrow> rvalue" where
  "ref_value (VStr b) = RStr b"
| "ref_value (VHash fs) = RHash (map_of fs)"
| "ref_value (VSet xs) = RSet (set xs)"
| "ref_value (VGeo gs) = RGeo (map_of gs)"

definition ref_view :: "ref \<Rightarrow> string \<Rightarrow> rvalue option" where
  "ref_view st k = map_option (ref_value \<circ> fst) (ref_live st k)"

definition ref_pttl :: "ref \<Rightarrow> string \<Rightarrow> int option" where
  "ref_pttl st k = (case ref_live st k of None \<Rightarrow> None | Some (_, t) \<Rightarrow> t)"

definition ref_put :: "ref \<Rightarrow> string \<Rightarrow> refval \<Rightarrow> ref" where
  "ref_put st k v = st(k \<mapsto> (v, ref_pttl st k))"

definition ref_GET :: "ref \<Rightarrow> string \<Rightarrow> rerr + bulk option" where
  "ref_GET st k = (case ref_live st k of None \<Rightarrow> Inr None
     | Some (VStr b, _) \<Rightarrow> Inr (Some b) | _ \<Rightarrow> Inl WrongType)"

definition ref_EXISTS :: "ref \<Rightarrow> string \<Rightarrow> bool" where
  "ref_EXISTS st k = (ref_live st k \<noteq> None)"

definition ref_SETEX :: "string \<Rightarrow> bulk \<Rightarrow> int \<Rightarrow> ref \<Rightarrow> rerr option \<times> ref" where
  "ref_SETEX k v n st =
     (if n \<le> 0 then (Some InvalidExpire, st) else (None, st(k \<mapsto> (VStr v, Some (1000 * n)))))"

definition ref_DEL :: "string \<Rightarrow> ref \<Rightarrow> ref" where
  "ref_DEL k st = st(k := None)"

definition ref_HGET :: "ref \<Rightarrow> string \<Rightarrow> string \<Rightarrow> rerr + bulk option" where
  "ref_HGET st k f = (case ref_live st k of None \<Rightarrow> Inr None
     | Some (VHash fs, _) \<Rightarrow> Inr (map_of fs f) | _ \<Rightarrow> Inl WrongType)"

definition ref_HMGET :: "ref \<Rightarrow> string \<Rightarrow> string list \<Rightarrow> rerr + bulk option list" where
  "ref_HMGET st k fs = (case ref_live st k of None \<Rightarrow> Inr (map (\<lambda>_. None) fs)
     | Some (VHash h, _) \<Rightarrow> Inr (map (map_of h) fs) | _ \<Rightarrow> Inl WrongType)"

definition ref_HGETALL :: "ref \<Rightarrow> string \<Rightarrow> rerr + (string \<times> bulk) list" where
  "ref_HGETALL st k = (case ref_live st k of None \<Rightarrow> Inr []
     | Some (VHash fs, _) \<Rightarrow> Inr (AList.clearjunk fs) | _ \<Rightarrow> Inl WrongType)"

fun alist_hset :: "(string \<times> bulk) list \<Rightarrow> (string \<times> bulk) list \<Rightarrow> (string \<times> bulk) list" where
  "alist_hset h [] = h"
| "alist_hset h ((f, v) # fs) = alist_hset (AList.update f v h) fs"

definition ref_HSET :: "string \<Rightarrow> (string \<times> bulk) list \<Rightarrow> ref \<Rightarrow> rerr option \<times> ref" where
  "ref_HSET k fs st = (case ref_live st k of
       None \<Rightarrow> (None, ref_put st k (VHash (alist_hset [] fs)))
     | Some (VHash h, _) \<Rightarrow> (None, ref_put st k (VHash (alist_hset h fs)))
     | _ \<Rightarrow> (Some WrongType, st))"

definition ref_PEXPIRE :: "string \<Rightarrow> int \<Rightarrow> ref \<Rightarrow> ref" where
  "ref_PEXPIRE k n st = (case ref_live st k of None \<Rightarrow> st
     | Some (v, _) \<Rightarrow> if n \<le> 0 then st(k := None) else st(k \<mapsto> (v, Some n)))"

definition ref_SADD :: "string \<Rightarrow> string \<Rightarrow> ref \<Rightarrow> rerr option \<times> ref" where
  "ref_SADD k x st = (case ref_live st k of
       None \<Rightarrow> (None, ref_put st k (VSet [x]))
     | Some (VSet xs, _) \<Rightarrow> (None, ref_put st k (VSet (List.insert x xs)))
     | _ \<Rightarrow> (Some WrongType, st))"

definition ref_SREM :: "string \<Rightarrow> string \<Rightarrow> ref \<Rightarrow> rerr option \<times> ref" where
  "ref_SREM k x st = (case ref_live st k of
       None \<Rightarrow> (None, st)
     | Some (VSet xs, _) \<Rightarrow> (None, ref_put st k (VSet (filter (\<lambda>y. y \<noteq> x) xs)))
     | _ \<Rightarrow> (Some WrongType, st))"

definition ref_SMEMBERS :: "ref \<Rightarrow> string \<Rightarrow> rerr + string list" where
  "ref_SMEMBERS st k = (case ref_live st k of None \<Rightarrow> Inr []
     | Some (VSet xs, _) \<Rightarrow> Inr (remdups xs) | _ \<Rightarrow> Inl WrongType)"

definition ref_GEOADD :: "string \<Rightarrow> float64 \<Rightarrow> float64 \<Rightarrow> string \<Rightarrow> ref \<Rightarrow> rerr option \<times> ref" where
  "ref_GEOADD k lng lat x st =
     (if \<not> geo_ok lng lat then (Some InvalidCoords, st)
      else case ref_live st k of
             None \<Rightarrow> (None, ref_put st k (VGeo [(x, lng, lat)]))
           | Some (VGeo gs, _) \<Rightarrow> (None, ref_put st k (VGeo (AList.update x (lng, lat) gs)))
           | _ \<Rightarrow> (Some WrongType, st))"

definition ref_ZREM :: "string \<Rightarrow> string \<Rightarrow> ref \<Rightarrow> rerr option \<times> ref" where
  "ref_ZREM k x st = (case ref_live st k of
       None \<Rightarrow> (None, st)
     | Some (VGeo gs, _) \<Rightarrow> (None, ref_put st k (VGeo (AList.delete x gs)))
     | _ \<Rightarrow> (Some WrongType, st))"

definition ref_elapse :: "nat \<Rightarrow> ref \<Rightarrow> ref" where
  "ref_elapse d st = (\<lambda>k. case ref_live st k of
       Some (v, Some t) \<Rightarrow> if t \<le> int d then None else Some (v, Some (t - int d))
     | other \<Rightarrow> other)"

definition ref_float_text :: "float64 \<Rightarrow> string" where
  "ref_float_text x = (case x of
     Fin r \<Rightarrow> show_int \<lfloor>r\<rfloor> | PInf \<Rightarrow> ''+Inf'' | NInf \<Rightarrow> ''-Inf'' | NaN \<Rightarrow> ''NaN'')"

definition ref_redis :: "ref redis" where
  "ref_redis = \<lparr> view = ref_view, pttl = ref_pttl, rGET = ref_GET, rEXISTS = ref_EXISTS,
     rSETEX = ref_SETEX, rDEL = ref_DEL, rHGET = ref_HGET, rHMGET = ref_HMGET, rHGETALL = ref_HGETALL,
     rHSET = ref_HSET, rPEXPIRE = ref_PEXPIRE, rSADD = ref_SADD, rSREM = ref_SREM,
     rSMEMBERS = ref_SMEMBERS, rGEOADD = ref_GEOADD, rZREM = ref_ZREM, elapse = ref_elapse,
     float_text = ref_float_text \<rparr>"

lemma ref_redis_simps [simp]:
  "view ref_redis = ref_view" "pttl ref_redis = ref_pttl" "rGET ref_redis = ref_GET"
  "rEXISTS ref_redis = ref_EXISTS" "rSETEX ref_redis = ref_SETEX" "rDEL ref_redis = ref_DEL"
  "rHGET ref_redis = ref_HGET" "rHMGET ref_redis = ref_HMGET"
  "rHGETALL ref_redis = ref_HGETALL" "rHSET ref_redis = ref_HSET"
  "rPEXPIRE ref_redis = ref_PEXPIRE" "rSADD ref_redis = ref_SADD" "rSREM ref_redis = ref_SREM"
  "rSMEMBERS ref_redis = ref_SMEMBERS" "rGEOADD ref_redis = ref_GEOADD"
  "rZREM ref_redis = ref_ZREM" "elapse ref_redis = ref_elapse"
  "float_text ref_redis = ref_float_text"
  by (simp_all add: ref_redis_def)

lemmas ref_reads = ref_GET_def ref_EXISTS_def ref_HGET_def ref_HMGET_def ref_HGETALL_def
  ref_SMEMBERS_def
lemmas ref_writes = ref_SETEX_def ref_DEL_def ref_HSET_def ref_PEXPIRE_def ref_SADD_def
  ref_SREM_def ref_GEOADD_def ref_ZREM_def
lemmas ref_splits = option.splits refval.splits prod.splits if_splits

lemma alist_hset_ne: "h \<noteq> [] \<or> fs \<noteq> [] \<Longrightarrow> alist_hset h fs \<noteq> []"
  by (induction h fs rule: alist_hset.induct) auto

lemma map_of_alist_hset: "map_of (alist_hset h fs) = hset (map_of h) fs"
  by (induction h fs rule: alist_hset.induct) (auto simp: update_conv' fun_upd_def)

lemma ref_live_put:
  "ref_live (ref_put st k v) k' =
     (if k' = k then (if nonempty_val v then Some (v, ref_pttl st k) else None) else ref_live st k')"
  by (simp add: ref_live_def ref_put_def)

lemma ref_live_upd:
  "ref_live (st(k \<mapsto> (v, t))) k' =
     (if k' = k then (if nonempty_val v then Some (v, t) else None) else ref_live st k')"
  by (simp add: ref_live_def)

lemma ref_live_del: "ref_live (st(k := None)) k' = (if k' = k then None else ref_live st k')"
  by (simp add: ref_live_def)

lemma ref_live_nonempty: "ref_live st k = Some (v, t) \<Longrightarrow> nonempty_val v"
  by (auto simp: ref_live_def split: option.splits if_splits)

lemma map_of_empty_iff: "map_of xs = Map.empty \<longleftrightarrow> xs = []"
  by (cases xs) (auto simp: fun_eq_iff)

lemma geo_value_map_of:
  "geo_value (map_of gs) = (if gs = [] then None else Some (RGeo (map_of gs)))"
  by (simp add: geo_value_def map_of_empty_iff)

lemma geo_value_empty: "geo_value Map.empty = None"
  by (simp add: geo_value_def)

lemma list_insert_ne [simp]: "List.insert x xs \<noteq> []"
  by (auto simp: List.insert_def)

lemma alist_update_ne [simp]: "AList.update f v xs \<noteq> []"
  by (cases xs) auto

lemmas ref_lives = ref_live_put ref_live_upd ref_live_del

lemma ref_live_elapse:
  "ref_live (ref_elapse d st) k = (case ref_live st k of
       Some (v, Some t) \<Rightarrow> if t \<le> int d then None else Some (v, Some (t - int d))
     | other \<Rightarrow> other)"
proof -
  have "ref_live (ref_elapse d st) k = (case ref_elapse d st k of None \<Rightarrow> None
     | Some (v, t) \<Rightarrow> if nonempty_val v then Some (v, t) else None)"
    by (simp add: ref_live_def [of "ref_elapse d st"])
  then show ?thesis
    by (auto simp: ref_elapse_def dest: ref_live_nonempty split: option.splits)
qed

interpretation ref: redis_service ref_redis
proof (unfold_locales, goal_cases)
  case (1 st k) show ?case
    by (auto simp: ref_GET_def ref_view_def split: ref_splits)
next
  case (2 st k) show ?case by (simp add: ref_EXISTS_def ref_view_def)
next
  case (3 k v n st) show ?case by (simp add: ref_SETEX_def)
next
  case (4 k v n st) show ?case
    by (auto simp: ref_SETEX_def ref_view_def fun_eq_iff ref_lives)
next
  case (5 k v n st) show ?case
    by (auto simp: ref_SETEX_def ref_pttl_def fun_eq_iff ref_lives)
next
  case (6 k st) show ?case by (auto simp: ref_DEL_def ref_view_def fun_eq_iff ref_lives)
next
  case (7 k st) show ?case by (auto simp: ref_DEL_def ref_pttl_def fun_eq_iff ref_lives)
next
  case (8 st k f) show ?case
    by (auto simp: ref_HGET_def ref_view_def is_hash_def hash_or_empty_def split: ref_splits)
next
  case (9 st k fs) show ?case
    by (auto simp: ref_HMGET_def ref_view_def is_hash_def hash_or_empty_def split: ref_splits)
next
  case (10 st k) show ?case
    by (auto simp: ref_HGETALL_def ref_view_def is_hash_def hash_or_empty_def
        map_of_clearjunk split: ref_splits)
next
  case (11 st k) show ?case
    by (auto simp: ref_view_def map_of_empty_iff elim!: ref_value.elims dest!: ref_live_nonempty)
next
  case (12 k fs st) show ?case
    by (auto simp: ref_HSET_def ref_view_def is_hash_def split: ref_splits)
next
  case (13 fs k st) then show ?case
    by (auto simp: ref_HSET_def ref_view_def is_hash_def hash_or_empty_def fun_eq_iff ref_lives
        map_of_alist_hset alist_hset_ne split: ref_splits)
next
  case (14 k fs st) show ?case
    by (auto simp: ref_HSET_def ref_pttl_def fun_eq_iff ref_lives alist_hset_ne
        dest: ref_live_nonempty split: ref_splits)
next
  case (15 k n st) show ?case
    by (auto simp: ref_PEXPIRE_def ref_view_def fun_eq_iff ref_lives dest: ref_live_nonempty
        split: ref_splits)
next
  case (16 k n st) show ?case
    by (auto simp: ref_PEXPIRE_def ref_view_def ref_pttl_def fun_eq_iff ref_lives
        dest: ref_live_nonempty split: ref_splits)
next
  case (17 k x st) show ?case
    by (auto simp: ref_SADD_def ref_view_def is_set_def split: ref_splits)
next
  case (18 k x st) show ?case
    by (auto simp: ref_SADD_def ref_view_def is_set_def set_or_empty_def fun_eq_iff ref_lives
        split: ref_splits)
next
  case (19 k x st) show ?case
    by (auto simp: ref_SADD_def ref_pttl_def fun_eq_iff ref_lives split: ref_splits)
next
  case (20 k x st) show ?case
    by (auto simp: ref_SREM_def ref_view_def is_set_def split: ref_splits)
next
  case (21 k x st) show ?case
    by (auto simp: ref_SREM_def ref_view_def is_set_def set_or_empty_def set_value_def fun_eq_iff
        ref_lives filter_empty_conv split: ref_splits)
next
  case (22 k x st) show ?case
    by (auto simp: ref_SREM_def ref_pttl_def ref_view_def is_set_def set_or_empty_def fun_eq_iff
        ref_lives filter_empty_conv split: ref_splits)
next
  case (23 st k) show ?case
    by (auto simp: ref_SMEMBERS_def ref_view_def is_set_def set_or_empty_def split: ref_splits)
next
  case (24 k lng lat x st) show ?case
    by (auto simp: ref_GEOADD_def ref_view_def is_geo_def split: ref_splits)
next
  case (25 k lng lat x st) show ?case
    by (auto simp: ref_GEOADD_def ref_view_def is_geo_def geo_or_empty_def fun_eq_iff ref_lives
        update_conv' split: ref_splits)
next
  case (26 k lng lat x st) show ?case
    by (auto simp: ref_GEOADD_def ref_pttl_def fun_eq_iff ref_lives split: ref_splits)
next
  case (27 k x st) show ?case
    by (auto simp: ref_ZREM_def ref_view_def is_geo_def split: ref_splits)
next
  case (28 k x st) show ?case
    by (rule ext) (auto simp: ref_ZREM_def ref_view_def is_geo_def geo_or_empty_def ref_lives
        geo_value_map_of geo_value_empty simp flip: delete_conv' split: ref_splits)
next
  case (29 st k) then show ?case by (auto simp: ref_view_def ref_pttl_def split: option.splits)
next
  case (30 d st k) show ?case
    by (auto simp: ref_view_def ref_pttl_def ref_live_elapse split: ref_splits)
next
  case (31 d st k) show ?case
    by (auto simp: ref_view_def ref_pttl_def ref_live_elapse split: ref_splits)
next
  case (32 x) show ?case
    by (cases x) (simp_all add: ref_float_text_def show_int_hd(1) show_int_hd(2) [simplified])
qed

end
