(* ===== verification/Go_Sort.thy ===== *)
theory Go_Sort
  imports Prelude
begin

text \<open>
  Sorting. The contract of \<^verbatim>\<open>sort.Slice\<close>, as the package documentation states it: the result is a
  rearrangement of the slice, sorted when \<open>lt\<close> is a strict weak order; equal elements may end
  up in any order. The contract is a locale over the sorting function, so that what the engine
  proves holds for every implementation of it; the insertion sort that the sources write out
  in \<^verbatim>\<open>SearchNearby\<close> satisfies it.
\<close>

definition strict_weak :: "('a \<Rightarrow> 'a \<Rightarrow> bool) \<Rightarrow> 'a set \<Rightarrow> bool" where
  "strict_weak lt A \<longleftrightarrow> (\<forall>a \<in> A. \<forall>b \<in> A. lt a b \<longrightarrow> \<not> lt b a)
     \<and> (\<forall>a \<in> A. \<forall>b \<in> A. \<forall>c \<in> A. \<not> lt b a \<longrightarrow> \<not> lt c b \<longrightarrow> \<not> lt c a)"

definition sorted_by :: "('a \<Rightarrow> 'a \<Rightarrow> bool) \<Rightarrow> 'a list \<Rightarrow> bool" where
  "sorted_by lt = sorted_wrt (\<lambda>a b. \<not> lt b a)"

lemma strict_weak_mono: "strict_weak lt B \<Longrightarrow> A \<subseteq> B \<Longrightarrow> strict_weak lt A"
  unfolding strict_weak_def by blast

lemma strict_weak_asym: "strict_weak lt A \<Longrightarrow> a \<in> A \<Longrightarrow> b \<in> A \<Longrightarrow> lt a b \<Longrightarrow> \<not> lt b a"
  unfolding strict_weak_def by blast

lemma strict_weak_trans:
  "strict_weak lt A \<Longrightarrow> a \<in> A \<Longrightarrow> b \<in> A \<Longrightarrow> c \<in> A \<Longrightarrow> \<not> lt b a \<Longrightarrow> \<not> lt c b \<Longrightarrow> \<not> lt c a"
  unfolding strict_weak_def by blast

locale slice_sort =
  fixes srt :: "('a \<Rightarrow> 'a \<Rightarrow> bool) \<Rightarrow> 'a list \<Rightarrow> 'a list"
  assumes srt_mset: "mset (srt lt xs) = mset xs"
    and srt_sorted: "strict_weak lt (set xs) \<Longrightarrow> sorted_by lt (srt lt xs)"
begin

lemma srt_set [simp]: "set (srt lt xs) = set xs"
  by (metis srt_mset set_mset_mset)

lemma srt_length [simp]: "length (srt lt xs) = length xs"
  by (metis srt_mset size_mset)

lemma srt_distinct_map [simp]: "distinct (map f (srt lt xs)) = distinct (map f xs)"
  by (metis srt_mset mset_eq_imp_distinct_iff mset_map)

text \<open>The first elements of the sorted slice are the best ones.\<close>

lemma srt_take_best:
  assumes "strict_weak lt (set xs)" and "a \<in> set (take n (srt lt xs))"
    and "b \<in> set (drop n (srt lt xs))"
  shows "\<not> lt b a"
proof -
  have "sorted_wrt (\<lambda>a b. \<not> lt b a) (take n (srt lt xs) @ drop n (srt lt xs))"
    using srt_sorted [OF assms(1)] by (simp add: sorted_by_def)
  with assms(2,3) show ?thesis by (simp only: sorted_wrt_append) blast
qed

lemma srt_hd_least:
  assumes "strict_weak lt (set xs)" and "srt lt xs = a # ys" and "b \<in> set xs"
  shows "\<not> lt b a"
proof (cases "b = a")
  case True
  with assms show ?thesis
    using strict_weak_asym [OF assms(1)] by blast
next
  case False
  moreover have "b \<in> set (a # ys)" using assms(2,3) srt_set by metis
  ultimately show ?thesis
    using srt_sorted [OF assms(1)] assms(2) by (simp add: sorted_by_def)
qed

end

section \<open>Insertion sort\<close>

text \<open>\<open>sift\<close> is the inner loop from index \<open>j\<close>, \<open>insertion_sort\<close> the outer one.\<close>

fun sift :: "('a \<Rightarrow> 'a \<Rightarrow> bool) \<Rightarrow> 'a list \<Rightarrow> nat \<Rightarrow> 'a list" where
  "sift lt out 0 = out"
| "sift lt out (Suc j) =
     (if lt (out ! Suc j) (out ! j)
      then sift lt (out[Suc j := out ! j, j := out ! Suc j]) j
      else out)"

definition insertion_sort :: "('a \<Rightarrow> 'a \<Rightarrow> bool) \<Rightarrow> 'a list \<Rightarrow> 'a list" where
  "insertion_sort lt out = fold (\<lambda>i out. sift lt out i) [1..<length out] out"

lemma sift_swap:
  "sift lt (ys @ y # x # zs) (Suc (length ys)) =
     (if lt x y then sift lt (ys @ x # y # zs) (length ys) else ys @ y # x # zs)"
  by (simp add: nth_append list_update_append)

lemma sift_inserts:
  assumes "sorted_by lt ys" and "strict_weak lt (set (x # ys))"
  shows "\<exists>us. sift lt (ys @ x # zs) (length ys) = us @ zs \<and> mset us = mset (x # ys) \<and> sorted_by lt us"
  using assms
proof (induction ys arbitrary: zs rule: rev_induct)
  case Nil
  then show ?case by (intro exI [of _ "[x]"]) (simp add: sorted_by_def)
next
  case (snoc y ys)
  show ?case
  proof (cases "lt x y")
    case True
    have "strict_weak lt (set (x # ys))" "sorted_by lt ys"
      using snoc.prems(1) strict_weak_mono [OF snoc.prems(2)]
      by (auto simp: sorted_by_def sorted_wrt_append)
    with snoc.IH [of "y # zs"] obtain us where us: "sift lt (ys @ x # y # zs) (length ys) = us @ y # zs"
      "mset us = mset (x # ys)" "sorted_by lt us"
      by blast
    have "\<not> lt y p" if "p \<in> set us" for p
    proof -
      have "p \<in> set (x # ys)" using that us(2) by (metis set_mset_mset)
      then show ?thesis
        using snoc.prems(1) strict_weak_asym [OF snoc.prems(2) _ _ True]
        by (auto simp: sorted_by_def sorted_wrt_append)
    qed
    with us True show ?thesis
      by (intro exI [of _ "us @ [y]"]) (simp add: sift_swap sorted_by_def sorted_wrt_append del: sift.simps)
  next
    case False
    have "\<not> lt x p" if "p \<in> set (ys @ [y])" for p
    proof (cases "p = y")
      case False
      then have "p \<in> set ys" "\<not> lt y p" using that snoc.prems(1) by (auto simp: sorted_by_def sorted_wrt_append)
      then show ?thesis using strict_weak_trans [OF snoc.prems(2), of p y x] \<open>\<not> lt x y\<close> by simp
    qed (use False in simp)
    with False snoc.prems show ?thesis
      by (intro exI [of _ "ys @ [y, x]"]) (simp add: sift_swap sorted_by_def sorted_wrt_append del: sift.simps)
  qed
qed

lemma sift_mset: "j < length out \<Longrightarrow> mset (sift lt out j) = mset out"
proof (induction j arbitrary: out)
  case (Suc j)
  then show ?case using mset_swap [of j out "Suc j"] by simp
qed simp

lemma sift_length [simp]: "length (sift lt out j) = length out"
  by (induction lt out j rule: sift.induct) simp_all

lemma insertion_sort_mset: "mset (insertion_sort lt out) = mset out"
proof -
  have "mset (fold (\<lambda>i out. sift lt out i) is out) = mset out" if "\<forall>i \<in> set is. i < length out" for "is"
    using that by (induction "is" arbitrary: out) (simp_all add: sift_mset)
  then show ?thesis by (simp add: insertion_sort_def)
qed

lemma insertion_sort_prefix:
  assumes "strict_weak lt (set out)" and "1 \<le> n" and "n \<le> length out"
  shows "\<exists>ys. fold (\<lambda>i out. sift lt out i) [1..<n] out = ys @ drop n out \<and> length ys = n
    \<and> mset ys = mset (take n out) \<and> sorted_by lt ys"
  using assms(2,3)
proof (induction n rule: dec_induct)
  case base
  then show ?case
    by (intro exI [of _ "take 1 out"]) (cases out; simp add: sorted_by_def)
next
  case (step n)
  then obtain ys where ys: "fold (\<lambda>i out. sift lt out i) [1..<n] out = ys @ drop n out"
    "length ys = n" "mset ys = mset (take n out)" "sorted_by lt ys" by auto
  have "set ys \<subseteq> set out" using ys(3) by (metis set_mset_mset set_take_subset)
  then have "set (out ! n # ys) \<subseteq> set out" using step.prems by auto
  then have "strict_weak lt (set (out ! n # ys))"
    by (rule strict_weak_mono [OF assms(1)])
  from sift_inserts [OF ys(4) this, of "drop (Suc n) out"] obtain us where
    us: "sift lt (ys @ out ! n # drop (Suc n) out) n = us @ drop (Suc n) out"
      "mset us = mset (out ! n # ys)" "sorted_by lt us"
    using ys(2) by auto
  moreover have "drop n out = out ! n # drop (Suc n) out"
    using step.prems by (simp add: Cons_nth_drop_Suc)
  moreover have "length us = Suc n" using us(2) ys(2) by (metis length_Cons size_mset)
  ultimately show ?case
    using step ys by (intro exI [of _ us]) (simp add: take_Suc_conv_app_nth)
qed

lemma insertion_sort_sorted:
  assumes "strict_weak lt (set out)"
  shows "sorted_by lt (insertion_sort lt out)"
  using insertion_sort_prefix [OF assms, of "length out"]
  by (cases out) (auto simp: insertion_sort_def sorted_by_def)

interpretation ins: slice_sort insertion_sort
  by unfold_locales (simp_all add: insertion_sort_mset insertion_sort_sorted)

end
