(* ===== verification/Store.thy ===== *)
theory Store
  imports Scripts Geospatial Ref_Redis Go_Sort
begin

text \<open>
  \<^verbatim>\<open>internal/redis/store.go\<close>: the hot-state client. One definition per method, in the state
  monad over the world: the server and the fates of the calls to come. \<open>R\<close> is the Redis
  server, \<open>H\<close> the H3 library; clock readings are arguments. A Go error is a value of \<open>go_err\<close>;
  an operation through which a run-time panic can escape returns a \<open>go_out\<close>.
\<close>

datatype go_err =
    ERedis rerr
  | EGeo geo_err
  | ELease lease_err
  | ERebuild string go_err

datatype 'a go_out = Ret 'a | Err go_err | Panic

record DriverPos =
  pos_ID :: string
  pos_Lat :: float64
  pos_Lng :: float64
  pos_Cell :: string
  pos_Seq :: int
  pos_Ts :: int
  pos_State :: string
  pos_Rating :: float64
  pos_DistM :: float64

text \<open>
  \<^verbatim>\<open>v, _ := rdb.HGet(...).Result()\<close>: the text of the field, and the empty string when the field
  is missing or the call fails.
\<close>

definition hget_text :: "'s redis \<Rightarrow> rerr + bulk option \<Rightarrow> string" where
  "hget_text R r = (case r of Inr (Some b) \<Rightarrow> bulk_text R b | _ \<Rightarrow> [])"

text \<open>
  \<^verbatim>\<open>strconv.ParseFloat\<close> and \<^verbatim>\<open>strconv.ParseInt\<close> with the error dropped, on a bulk string: what was
  written from a number reads back as that number; other text reads as zero.
\<close>

definition ParseFloat :: "bulk option \<Rightarrow> float64" where
  "ParseFloat v = (case v of
       Some (BFloat x) \<Rightarrow> x
     | Some (BInt n) \<Rightarrow> Fin (of_int (round53 n))
     | _ \<Rightarrow> Fin 0)"

definition ParseInt :: "bulk option \<Rightarrow> int" where
  "ParseInt v = (case v of
       Some (BInt n) \<Rightarrow> max (- (2 ^ 63)) (min n (2 ^ 63 - 1))
     | Some (BFloat (Fin r)) \<Rightarrow>
         (if r = of_int \<lfloor>r\<rfloor> then max (- (2 ^ 63)) (min \<lfloor>r\<rfloor> (2 ^ 63 - 1)) else 0)
     | _ \<Rightarrow> 0)"

text \<open>
  \<^verbatim>\<open>fmt.Sscanf\<close> with \<^verbatim>\<open>%d\<close> into a zeroed \<^verbatim>\<open>int64\<close>: the integer prefix of a number's text; zero when there
  is none or it does not fit. With \<^verbatim>\<open>%f\<close> it reads a number as \<open>ParseFloat\<close> does.
\<close>

definition Sscanf_d :: "bulk option \<Rightarrow> int" where
  "Sscanf_d v = (let n = (case v of
         Some (BInt n) \<Rightarrow> n
       | Some (BFloat (Fin r)) \<Rightarrow> (if r < 0 then \<lceil>r\<rceil> else \<lfloor>r\<rfloor>)
       | _ \<Rightarrow> 0)
     in if - (2 ^ 63) \<le> n \<and> n < 2 ^ 63 then n else 0)"

text \<open>The reply of \<^verbatim>\<open>HGET\<close> as \<^verbatim>\<open>(string, error)\<close> with the error dropped, for the parsers.\<close>

definition hget_val :: "rerr + bulk option \<Rightarrow> bulk option" where
  "hget_val r = (case r of Inr v \<Rightarrow> v | Inl _ \<Rightarrow> None)"

definition InitDriver ::
  "'s redis \<Rightarrow> 'c h3 \<Rightarrow> int \<Rightarrow> string \<Rightarrow> string \<Rightarrow> string \<Rightarrow> float64 \<Rightarrow> float64 \<Rightarrow> float64
   \<Rightarrow> (('s, 'm) world_scheme, go_err option) state"
where
  "InitDriver R H nowMs i name st rating lat lng =
     (case geo_CellKey H lat lng DefaultResolution of
        Inl e \<Rightarrow> State_Monad.return (Some (EGeo e))
      | Inr cell \<Rightarrow> do {
          e \<leftarrow> rwrite (tx [
            rHSET R (DriverKey i) [(''id'', BStr i), (''name'', BStr name), (''state'', BStr st),
                                   (''rating'', BFloat rating)],
            rHSET R (DriverLocKey i) [(''lat'', BFloat lat), (''lng'', BFloat lng), (''cell'', BStr cell),
                                      (''seq'', BInt 0), (''ts'', BInt nowMs)],
            \<lambda>s. (None, rPEXPIRE R (DriverLocKey i) 120000 s),
            rSADD R (CellKey cell) i,
            rGEOADD R GeoKey lng lat i]);
          State_Monad.return (map_option ERedis e) })"

definition SetState ::
  "'s redis \<Rightarrow> string \<Rightarrow> string \<Rightarrow> (('s, 'm) world_scheme, go_err option) state" where
  "SetState R i st = do {
     e \<leftarrow> rwrite (rHSET R (DriverKey i) [(''state'', BStr st)]);
     State_Monad.return (map_option ERedis e) }"

definition GetState ::
  "'s redis \<Rightarrow> string \<Rightarrow> (('s, 'm) world_scheme, go_err + string) state" where
  "GetState R i = do {
     r \<leftarrow> rread (\<lambda>s. rHGET R s (DriverKey i) ''state'');
     State_Monad.return (case r of
         Inr None \<Rightarrow> Inr []
       | Inr (Some v) \<Rightarrow> Inr (bulk_text R v)
       | Inl e \<Rightarrow> Inl (ERedis e)) }"

definition Store_ApplyLocation ::
  "'s redis \<Rightarrow> 'c h3 \<Rightarrow> string \<Rightarrow> float64 \<Rightarrow> float64 \<Rightarrow> int \<Rightarrow> int
   \<Rightarrow> (('s, 'm) world_scheme, go_err + bool) state"
where
  "Store_ApplyLocation R H driverID lat lng seq tsMs = do {
     r \<leftarrow> rread (\<lambda>s. rHGET R s (DriverLocKey driverID) ''cell'');
     let oldCell = hget_text R r;
     case (if oldCell = [] then geo_CellKey H lat lng DefaultResolution else Inr oldCell) of
       Inl e \<Rightarrow> State_Monad.return (Inl (EGeo e))
     | Inr oldCell \<Rightarrow> (case geo_CellKey H lat lng DefaultResolution of
         Inl e \<Rightarrow> State_Monad.return (Inl (EGeo e))
       | Inr newCell \<Rightarrow> do {
           r \<leftarrow> rdo (applyLocationScript R (DriverSeqKey driverID) (DriverLocKey driverID)
                  (CellKey oldCell) (CellKey newCell) GeoKey seq lat lng newCell tsMs 120 driverID);
           State_Monad.return (case r of Inl e \<Rightarrow> Inl (ERedis e) | Inr res \<Rightarrow> Inr (res = 1)) }) }"

definition Store_GetLocation ::
  "'s redis \<Rightarrow> string \<Rightarrow> (('s, 'm) world_scheme, go_err + DriverPos option) state"
where
  "Store_GetLocation R driverID = do {
     r \<leftarrow> rread (\<lambda>s. rHGETALL R s (DriverLocKey driverID));
     case r of
       Inl e \<Rightarrow> State_Monad.return (Inl (ERedis e))
     | Inr [] \<Rightarrow> State_Monad.return (Inr None)
     | Inr fs \<Rightarrow> do {
         let m = map_of fs;
         d \<leftarrow> rread (\<lambda>s. rHGET R s (DriverKey driverID) ''state'');
         r \<leftarrow> rread (\<lambda>s. rHGET R s (DriverKey driverID) ''rating'');
         State_Monad.return (Inr (Some \<lparr> pos_ID = driverID,
           pos_Lat = ParseFloat (m ''lat''), pos_Lng = ParseFloat (m ''lng''),
           pos_Cell = hget_text R (Inr (m ''cell'')),
           pos_Seq = ParseInt (m ''seq''), pos_Ts = ParseInt (m ''ts''),
           pos_State = hget_text R d, pos_Rating = ParseFloat (hget_val r),
           pos_DistM = Fin 0 \<rparr>)) } }"

section \<open>Search\<close>

text \<open>
  The body of the search loop for one driver: no result when the driver is skipped. \<^verbatim>\<open>HMGET\<close>
  answers with one entry per requested field, and \<^verbatim>\<open>m[i].(string)\<close> panics on a missing one.
\<close>

definition search_driver ::
  "'s redis \<Rightarrow> float64 \<Rightarrow> float64 \<Rightarrow> float64 \<Rightarrow> string
   \<Rightarrow> (('s, 'm) world_scheme, DriverPos option go_out) state"
where
  "search_driver R lat lng radiusM i = do {
     r \<leftarrow> rread (\<lambda>s. rHMGET R s (DriverLocKey i) [''lat'', ''lng'', ''cell'']);
     case r of
       Inl e \<Rightarrow> State_Monad.return (Err (ERedis e))
     | Inr m \<Rightarrow> if length m < 3 then State_Monad.return (Ret None) else do {
         st \<leftarrow> rread (\<lambda>s. rHGET R s (DriverKey i) ''state'');
         if hget_text R st \<noteq> ''AVAILABLE'' then State_Monad.return (Ret None)
         else case (m ! 0, m ! 1) of
           (Some a, Some b) \<Rightarrow>
             let dLat = ParseFloat (Some a); dLng = ParseFloat (Some b);
                 d = HaversineMeters lat lng dLat dLng
             in if f_lt radiusM d then State_Monad.return (Ret None) else do {
                  rating \<leftarrow> rread (\<lambda>s. rHGET R s (DriverKey i) ''rating'');
                  State_Monad.return (case m ! 2 of
                      None \<Rightarrow> Panic
                    | Some c \<Rightarrow> Ret (Some \<lparr> pos_ID = i, pos_Lat = dLat, pos_Lng = dLng,
                        pos_Cell = bulk_text R c, pos_Seq = 0, pos_Ts = 0,
                        pos_State = hget_text R st, pos_Rating = ParseFloat (hget_val rating),
                        pos_DistM = d \<rparr>)) }
         | _ \<Rightarrow> State_Monad.return Panic } }"

fun search_ids ::
  "'s redis \<Rightarrow> float64 \<Rightarrow> float64 \<Rightarrow> float64 \<Rightarrow> string list \<Rightarrow> string set \<times> DriverPos list
   \<Rightarrow> (('s, 'm) world_scheme, (string set \<times> DriverPos list) go_out) state"
where
  "search_ids R lat lng radiusM [] acc = State_Monad.return (Ret acc)"
| "search_ids R lat lng radiusM (i # ids) (seen, out) =
     (if i \<in> seen then search_ids R lat lng radiusM ids (seen, out)
      else do {
        r \<leftarrow> search_driver R lat lng radiusM i;
        case r of
          Ret None \<Rightarrow> search_ids R lat lng radiusM ids (insert i seen, out)
        | Ret (Some p) \<Rightarrow> search_ids R lat lng radiusM ids (insert i seen, out @ [p])
        | Err e \<Rightarrow> State_Monad.return (Err e)
        | Panic \<Rightarrow> State_Monad.return Panic })"

fun search_cells ::
  "'s redis \<Rightarrow> float64 \<Rightarrow> float64 \<Rightarrow> float64 \<Rightarrow> string list \<Rightarrow> string set \<times> DriverPos list
   \<Rightarrow> (('s, 'm) world_scheme, (string set \<times> DriverPos list) go_out) state"
where
  "search_cells R lat lng radiusM [] acc = State_Monad.return (Ret acc)"
| "search_cells R lat lng radiusM (cell # cells) acc = do {
     r \<leftarrow> rread (\<lambda>s. rSMEMBERS R s (CellKey cell));
     case r of
       Inl e \<Rightarrow> State_Monad.return (Err (ERedis e))
     | Inr ids \<Rightarrow> do {
         r \<leftarrow> search_ids R lat lng radiusM ids acc;
         case r of
           Ret acc \<Rightarrow> search_cells R lat lng radiusM cells acc
         | Err e \<Rightarrow> State_Monad.return (Err e)
         | Panic \<Rightarrow> State_Monad.return Panic } }"

text \<open>The sort by distance.\<close>

definition dist_sort :: "DriverPos list \<Rightarrow> DriverPos list" where
  "dist_sort out = insertion_sort (\<lambda>a b. f_lt (pos_DistM a) (pos_DistM b)) out"

definition SearchNearby ::
  "'s redis \<Rightarrow> 'c h3 \<Rightarrow> float64 \<Rightarrow> float64 \<Rightarrow> float64
   \<Rightarrow> (('s, 'm) world_scheme, (DriverPos list \<times> nat) go_out) state"
where
  "SearchNearby R H lat lng radiusM =
     (case PlanSearch H lat lng radiusM DefaultResolution of
        Inl e \<Rightarrow> State_Monad.return (Err (EGeo e))
      | Inr plan \<Rightarrow> do {
          r \<leftarrow> search_cells R lat lng radiusM (Cells plan) ({}, []);
          State_Monad.return (case r of
              Ret (_, out) \<Rightarrow> Ret (dist_sort out, length (Cells plan))
            | Err e \<Rightarrow> Err e
            | Panic \<Rightarrow> Panic) })"

section \<open>Reservation, rate limit and ride state\<close>

datatype ReserveResult = Reserved | Conflict | NotAvailable

definition ReserveResult_String :: "ReserveResult \<Rightarrow> string" where
  "ReserveResult_String r = (case r of
       Reserved \<Rightarrow> ''reserved'' | Conflict \<Rightarrow> ''conflict'' | NotAvailable \<Rightarrow> ''not_available'')"

text \<open>\<^verbatim>\<open>int(ttl.Seconds())\<close>: a duration in nanoseconds, truncated to whole seconds.\<close>

definition ttl_seconds :: "int \<Rightarrow> int" where
  "ttl_seconds ttl = (if ttl < 0 then - ((- ttl) div 10 ^ 9) else ttl div 10 ^ 9)"

definition Store_Reserve ::
  "'s redis \<Rightarrow> string \<Rightarrow> string \<Rightarrow> LeaseValue \<Rightarrow> int
   \<Rightarrow> (('s, 'm) world_scheme, ReserveResult \<times> go_err option) state"
where
  "Store_Reserve R driverID rideID lv ttl = do {
     r \<leftarrow> rdo (reserveScript R (DriverLeaseKey driverID) (DriverKey driverID)
            rideID (LeaseValue_String lv) (ttl_seconds ttl));
     State_Monad.return (case r of
         Inl e \<Rightarrow> (NotAvailable, Some (ERedis e))
       | Inr res \<Rightarrow> (if res = 1 then Reserved else if res = 0 then Conflict else NotAvailable, None)) }"

definition Store_Release ::
  "'s redis \<Rightarrow> string \<Rightarrow> LeaseValue \<Rightarrow> string \<Rightarrow> (('s, 'm) world_scheme, go_err + bool) state"
where
  "Store_Release R driverID lv targetState = do {
     r \<leftarrow> rdo (releaseScript R (DriverLeaseKey driverID) (DriverKey driverID)
            (LeaseValue_String lv) targetState);
     State_Monad.return (case r of Inl e \<Rightarrow> Inl (ERedis e) | Inr res \<Rightarrow> Inr (res = 1)) }"

definition GetLease ::
  "'s redis \<Rightarrow> string \<Rightarrow> (('s, 'm) world_scheme, go_err + LeaseValue option) state"
where
  "GetLease R driverID = do {
     r \<leftarrow> rread (\<lambda>s. rGET R s (DriverLeaseKey driverID));
     State_Monad.return (case r of
         Inr None \<Rightarrow> Inr None
       | Inl e \<Rightarrow> Inl (ERedis e)
       | Inr (Some v) \<Rightarrow> (case ParseLeaseValue (bulk_text R v) of
           Inl e \<Rightarrow> Inl (ELease e)
         | Inr lv \<Rightarrow> Inr (Some lv))) }"

definition RateAllow ::
  "'s redis \<Rightarrow> int \<Rightarrow> string \<Rightarrow> string \<Rightarrow> int \<Rightarrow> float64 \<Rightarrow> int
   \<Rightarrow> (('s, 'm) world_scheme, go_err + bool) state"
where
  "RateAllow R nowMs scope i capacity refillPerSec requested = do {
     r \<leftarrow> rdo (tokenBucketScript R (RateLimitKey scope i) (lua_int capacity) refillPerSec
            (lua_int nowMs) (lua_int requested) (2 * 60 * 1000));
     State_Monad.return (case r of Inl e \<Rightarrow> Inl (ERedis e) | Inr res \<Rightarrow> Inr (res = 1)) }"

text \<open>The client rounds the duration of \<^verbatim>\<open>EXPIRE\<close> to whole seconds, a positive one to at least one.\<close>

definition expire_seconds :: "int \<Rightarrow> int" where
  "expire_seconds ttl = (if 0 < ttl \<and> ttl < 10 ^ 9 then 1 else ttl_seconds ttl)"

definition SetRide ::
  "'s redis \<Rightarrow> string \<Rightarrow> (string \<times> bulk) list \<Rightarrow> int \<Rightarrow> (('s, 'm) world_scheme, go_err option) state"
where
  "SetRide R i fs ttl = do {
     e \<leftarrow> rwrite (tx [
       rHSET R (RideKey i) fs,
       \<lambda>s. (None, rPEXPIRE R (RideKey i) (1000 * expire_seconds ttl) s)]);
     State_Monad.return (map_option ERedis e) }"

definition Store_GetRide ::
  "'s redis \<Rightarrow> string \<Rightarrow> (('s, 'm) world_scheme, go_err + (string \<times> bulk) list) state" where
  "Store_GetRide R i = do {
     r \<leftarrow> rread (\<lambda>s. rHGETALL R s (RideKey i));
     State_Monad.return (case r of Inl e \<Rightarrow> Inl (ERedis e) | Inr m \<Rightarrow> Inr m) }"

section \<open>Fleet-wide operations\<close>

text \<open>
  \<open>scan\<close> is the server's \<^verbatim>\<open>SCAN\<close> with the pattern \<^verbatim>\<open>driver:*\<close>: from a cursor, a batch of keys and the
  next cursor. The loop ends when the server answers with cursor 0; \<open>None\<close> stands for a scan
  that never does.
\<close>

fun count_keys ::
  "'s redis \<Rightarrow> string list \<Rightarrow> int \<times> int \<Rightarrow> (('s, 'm) world_scheme, int \<times> int) state"
where
  "count_keys R [] acc = State_Monad.return acc"
| "count_keys R (k # ks) (tot, available) =
     (if length k \<le> length DriverKeyPrefix \<or> k ! length DriverKeyPrefix = CHR '':''
      then count_keys R ks (tot, available)
      else do {
        st \<leftarrow> rread (\<lambda>s. rHGET R s k ''state'');
        count_keys R ks (tot + 1,
          if hget_text R st = ''AVAILABLE'' then available + 1 else available) })"

partial_function (option) DriverCount ::
  "'s redis \<Rightarrow> ('s \<Rightarrow> nat \<Rightarrow> rerr + string list \<times> nat) \<Rightarrow> nat \<Rightarrow> int \<times> int
   \<Rightarrow> ('s, 'm) world_scheme \<Rightarrow> ((go_err + int \<times> int) \<times> ('s, 'm) world_scheme) option"
where
  "DriverCount R scan cur acc w =
     (case run_state (rread (\<lambda>s. scan s cur)) w of
        (Inl e, w) \<Rightarrow> Some (Inl (ERedis e), w)
      | (Inr (keys, cur), w) \<Rightarrow>
          (case run_state (count_keys R keys acc) w of
             (acc, w) \<Rightarrow> if cur = 0 then Some (Inr acc, w) else DriverCount R scan cur acc w))"

definition RemoveDriver ::
  "'s redis \<Rightarrow> string \<Rightarrow> (('s, 'm) world_scheme, go_err option) state"
where
  "RemoveDriver R i = do {
     r \<leftarrow> rread (\<lambda>s. rHGET R s (DriverLocKey i) ''cell'');
     let cell = hget_text R r;
     e \<leftarrow> rwrite (tx (
       [\<lambda>s. (None, rDEL R (DriverSeqKey i) (rDEL R (DriverLeaseKey i)
                     (rDEL R (DriverLocKey i) (rDEL R (DriverKey i) s))))]
       @ (if cell \<noteq> [] then [rSREM R (CellKey cell) i] else [])
       @ [rZREM R GeoKey i]));
     State_Monad.return (map_option ERedis e) }"

text \<open>\<open>clock n\<close> is the clock as the \<open>n\<close>-th driver reads it.\<close>

fun RebuildFromDrivers ::
  "'s redis \<Rightarrow> 'c h3 \<Rightarrow> (nat \<Rightarrow> int) \<Rightarrow> (string \<times> string \<times> float64 \<times> float64) list
   \<Rightarrow> (('s, 'm) world_scheme, go_err option) state"
where
  "RebuildFromDrivers R H clock [] = State_Monad.return None"
| "RebuildFromDrivers R H clock ((i, st, lat, lng) # drivers) = do {
     e \<leftarrow> InitDriver R H (clock 0) i [] st (Fin 0) lat lng;
     case e of
       Some e \<Rightarrow> State_Monad.return (Some (ERebuild i e))
     | None \<Rightarrow> RebuildFromDrivers R H (clock \<circ> Suc) drivers }"

end
