(* ===== verification/Nearby.thy ===== *)
theory Nearby
  imports Store
begin

text \<open>
  The search of \<^verbatim>\<open>internal/redis/store.go\<close>: \<open>SearchNearby\<close> against the state of the server. The
  lemmas of \<open>context redis_service\<close> follow the loops of the code, driver by driver and cell by
  cell; the properties say what a search returns (sound under any faults, complete when its
  calls are answered), how registration makes a driver visible, and when the search panics.
\<close>

section \<open>The order of the results\<close>

definition by_dist :: "DriverPos \<Rightarrow> DriverPos \<Rightarrow> bool" where
  "by_dist a b = f_le (pos_DistM a) (pos_DistM b)"

lemma dist_sort_mset: "mset (dist_sort out) = mset out"
  by (simp add: dist_sort_def ins.srt_mset)

lemma dist_sort_sorted:
  assumes "\<forall>p \<in> set out. pos_DistM p \<noteq> NaN"
  shows "sorted_wrt by_dist (dist_sort out)"
proof -
  let ?less = "\<lambda>a b. f_lt (pos_DistM a) (pos_DistM b)"
  have le: "\<not> ?less b a \<longleftrightarrow> by_dist a b" if "a \<in> set out" "b \<in> set out" for a b
    using assms that f_not_lt by (simp add: by_dist_def)
  have "strict_weak ?less (set out)"
    unfolding strict_weak_def using le
    by (auto simp: by_dist_def dest: f_lt_asym intro: f_le_trans)
  then have "sorted_by ?less (dist_sort out)"
    unfolding dist_sort_def by (rule ins.srt_sorted)
  moreover have "set (dist_sort out) = set out" by (simp add: dist_sort_def)
  ultimately show ?thesis
    unfolding sorted_by_def by (auto elim!: sorted_wrt_mono_rel [rotated] simp: le)
qed

section \<open>What a search returns\<close>

text \<open>Computations that leave the server as it is, whatever the fates of their calls.\<close>

definition reads_only :: "(('s, 'm) world_scheme, 'a) state \<Rightarrow> bool" where
  "reads_only m \<longleftrightarrow> (\<forall>w. \<exists>fs. snd (run_state m w) = w\<lparr>fates := fs\<rparr>)"

named_theorems reads_intro \<open>a computation built from reads leaves the server as it is\<close>

lemma reads_onlyE: "reads_only m \<Longrightarrow> (\<And>fs. snd (run_state m w) = w\<lparr>fates := fs\<rparr> \<Longrightarrow> thesis) \<Longrightarrow> thesis"
  by (auto simp: reads_only_def)

lemma reads_onlyD: "reads_only m \<Longrightarrow> srv (snd (run_state m w)) = srv w"
  by (rule reads_onlyE [of m w]) simp_all

lemma reads_only_return [reads_intro]: "reads_only (State_Monad.return x)"
  unfolding reads_only_def by (metis world.surjective world.update_convs(2) run_state_return snd_conv)

lemma reads_only_rread [reads_intro]: "reads_only (rread cmd :: (('s, 'm) world_scheme, rerr + 'a) state)"
  unfolding reads_only_def
proof
  fix w :: "('s, 'm) world_scheme"
  have "w\<lparr>srv := srv w\<rparr> = w" "w\<lparr>fates := fates w\<rparr> = w" by simp_all
  then show "\<exists>fs. snd (run_state (rread cmd) w) = w\<lparr>fates := fs\<rparr>"
    by (cases "fates w"; cases "hd (fates w)") (auto simp: rread_def rdo_def Let_def intro: exI [of _ "fates w"])
qed

lemma reads_only_bind [reads_intro]:
  assumes "reads_only m" and "\<And>x. reads_only (f x)"
  shows "reads_only (m \<bind> f)"
  unfolding reads_only_def
proof
  fix w
  obtain fs where 1: "snd (run_state m w) = w\<lparr>fates := fs\<rparr>" by (rule reads_onlyE [OF assms(1)])
  let ?x = "fst (run_state m w)"
  obtain fs' where "snd (run_state (f ?x) (w\<lparr>fates := fs\<rparr>)) = w\<lparr>fates := fs\<rparr>\<lparr>fates := fs'\<rparr>"
    by (rule reads_onlyE [OF assms(2)])
  with 1 show "\<exists>fs. snd (run_state (m \<bind> f) w) = w\<lparr>fates := fs\<rparr>" by (auto simp: split_beta)
qed

lemma reads_only_search_driver [reads_intro]: "reads_only (search_driver R lat lng r i)"
  unfolding search_driver_def Let_def
  by (auto intro!: reads_intro split: sum.splits option.splits)

lemma reads_only_search_ids [reads_intro]: "reads_only (search_ids R lat lng r ids acc)"
  by (induction R lat lng r ids acc rule: search_ids.induct)
    (auto intro!: reads_intro split: go_out.splits option.splits)

lemma reads_only_search_cells [reads_intro]: "reads_only (search_cells R lat lng r cells acc)"
  by (induction R lat lng r cells acc rule: search_cells.induct)
    (auto intro!: reads_intro split: go_out.splits sum.splits)

lemma reads_only_SearchNearby [reads_intro]: "reads_only (SearchNearby R H lat lng r)"
  unfolding SearchNearby_def by (auto intro!: reads_intro split: sum.splits)

text \<open>
  The driver's profile says \<^verbatim>\<open>AVAILABLE\<close>; its position hash is alive and complete, at
  \<open>(a, b)\<close>; it is a candidate of a search.
\<close>

definition driver_available :: "'s redis \<Rightarrow> 's \<Rightarrow> string \<Rightarrow> bool" where
  "driver_available R st i \<longleftrightarrow> (\<exists>h. view R st (DriverKey i) = Some (RHash h)
     \<and> h ''state'' = Some (BStr ''AVAILABLE''))"

definition driver_at :: "'s redis \<Rightarrow> 's \<Rightarrow> string \<Rightarrow> float64 \<Rightarrow> float64 \<Rightarrow> bool" where
  "driver_at R st i a b \<longleftrightarrow> (\<exists>h x y. view R st (DriverLocKey i) = Some (RHash h)
     \<and> h ''lat'' = Some x \<and> a = ParseFloat (Some x) \<and> h ''lng'' = Some y \<and> b = ParseFloat (Some y)
     \<and> h ''cell'' \<noteq> None)"

definition candidate :: "'s redis \<Rightarrow> 's \<Rightarrow> float64 \<Rightarrow> float64 \<Rightarrow> float64 \<Rightarrow> string \<Rightarrow> float64 \<Rightarrow> bool" where
  "candidate R st lat lng r i d \<longleftrightarrow> driver_available R st i
     \<and> (\<exists>a b. driver_at R st i a b \<and> d = HaversineMeters lat lng a b \<and> \<not> f_lt r d)"

definition listed :: "'s redis \<Rightarrow> 's \<Rightarrow> string list \<Rightarrow> string \<Rightarrow> bool" where
  "listed R st cells i \<longleftrightarrow> (\<exists>cell \<in> set cells. i \<in> set_or_empty (view R st (CellKey cell)))"

text \<open>The types the other operations give the keys of a driver, and a live position hash.\<close>

definition driver_typed :: "'s redis \<Rightarrow> 's \<Rightarrow> string \<Rightarrow> bool" where
  "driver_typed R st i \<longleftrightarrow> is_hash (view R st (DriverKey i)) \<and> (\<exists>a b. driver_at R st i a b)"

lemma driver_at_unique: "driver_at R st i a b \<Longrightarrow> driver_at R st i a' b' \<Longrightarrow> a = a' \<and> b = b'"
  by (auto simp: driver_at_def)

context redis_service
begin

lemma state_text:
  "hget_text R (rHGET R st (DriverKey i) ''state'') = ''AVAILABLE'' \<longleftrightarrow> driver_available R st i"
  by (auto simp: hget_text_def redis_laws driver_available_def is_hash_def bulk_text_eq
      split: option.splits rvalue.splits)

lemma search_driver_run:
  assumes "fates w = []" and "driver_typed R (srv w) i"
  obtains (hit) p where "run_state (search_driver R lat lng r i) w = (Ret (Some p), w)"
      "pos_ID p = i" "candidate R (srv w) lat lng r i (pos_DistM p)"
  | (skip) "run_state (search_driver R lat lng r i) w = (Ret None, w)"
      "\<nexists>d. candidate R (srv w) lat lng r i d"
proof -
  obtain h x y c where h: "view R (srv w) (DriverLocKey i) = Some (RHash h)" "h ''lat'' = Some x"
    "h ''lng'' = Some y" "h ''cell'' = Some c"
    using assms(2) by (auto simp: driver_typed_def driver_at_def)
  let ?a = "ParseFloat (Some x)" and ?b = "ParseFloat (Some y)"
  have at: "driver_at R (srv w) i a' b' \<longleftrightarrow> a' = ?a \<and> b' = ?b" for a' b'
    using h by (auto simp: driver_at_def)
  let ?d = "HaversineMeters lat lng ?a ?b"
  have m: "rHMGET R (srv w) (DriverLocKey i) [''lat'', ''lng'', ''cell'']
      = Inr [Some x, Some y, Some c]"
    using h by (simp add: redis_laws)
  show thesis
  proof (cases "driver_available R (srv w) i \<and> \<not> f_lt r ?d")
    case True
    with assms(1) m show thesis
      by (intro hit) (auto simp: search_driver_def Let_def state_text candidate_def at)
  next
    case False
    with assms(1) m show thesis
      by (intro skip) (auto simp: search_driver_def Let_def state_text candidate_def at)
  qed
qed

text \<open>Whatever the fates, what a search reports of a driver is so on the server.\<close>

lemma search_driver_sound:
  assumes "fst (run_state (search_driver R lat lng r i) w) = Ret (Some p)"
  shows "pos_ID p = i" "candidate R (srv w) lat lng r i (pos_DistM p)" "pos_State p = ''AVAILABLE''"
proof -
  define r1 where "r1 = run_state (rread (\<lambda>s. rHMGET R s (DriverLocKey i) [''lat'', ''lng'', ''cell''])) w"
  define r2 where "r2 = run_state (rread (\<lambda>s. rHGET R s (DriverKey i) ''state'')) (snd r1)"
  have srv: "srv (snd r1) = srv w" by (simp add: r1_def)
  have body: "fst (run_state (search_driver R lat lng r i) w) = Ret (Some p)" by (fact assms)
  obtain m where m: "fst r1 = Inr m" "length m \<ge> 3"
    using body by (fastforce simp: search_driver_def split_beta r1_def split: sum.splits if_splits)
  then have m': "is_hash (view R (srv w) (DriverLocKey i))"
    "m = map (hash_or_empty (view R (srv w) (DriverLocKey i))) [''lat'', ''lng'', ''cell'']"
    using rread_fst [of "\<lambda>s. rHMGET R s (DriverLocKey i) [''lat'', ''lng'', ''cell'']" w]
    by (auto simp: redis_laws r1_def split: if_splits)
  have av: "hget_text R (fst r2) = ''AVAILABLE''"
    using body m by (auto simp: search_driver_def split_beta r1_def r2_def split: if_splits)
  then have "fst r2 \<noteq> Inl Unreachable" by (auto simp: hget_text_def)
  with av have "driver_available R (srv w) i"
    using rread_fst [of "\<lambda>s. rHGET R s (DriverKey i) ''state''" "snd r1"] state_text
    by (auto simp: r2_def srv)
  moreover obtain x y c where "m = [Some x, Some y, Some c]" "pos_ID p = i" "pos_State p = ''AVAILABLE''"
    "pos_DistM p = HaversineMeters lat lng (ParseFloat (Some x)) (ParseFloat (Some y))"
    "\<not> f_lt r (pos_DistM p)"
    using body m m'(2) av
    by (auto simp: search_driver_def split_beta Let_def r1_def r2_def split: if_splits option.splits)
  moreover from this m' have "driver_at R (srv w) i (ParseFloat (Some x)) (ParseFloat (Some y))"
    by (auto simp: driver_at_def is_hash_def split: option.splits rvalue.splits)
  ultimately show "pos_ID p = i" "candidate R (srv w) lat lng r i (pos_DistM p)"
    "pos_State p = ''AVAILABLE''"
    by (auto simp: candidate_def)
qed

text \<open>A driver in a cell set, \<^verbatim>\<open>AVAILABLE\<close>, whose position hash is gone.\<close>

lemma search_driver_panic:
  assumes "fates w = []" and "driver_available R (srv w) i" and "view R (srv w) (DriverLocKey i) = None"
  shows "run_state (search_driver R lat lng r i) w = (Panic, w)"
  using assms by (simp add: search_driver_def Let_def redis_laws
      state_text [unfolded HGET_law])

lemma search_ids_sound:
  assumes "fst (run_state (search_ids R lat lng r ids (seen, out)) w) = Ret (seen', out')"
  shows "seen' = seen \<union> set ids \<and> (\<exists>new. out' = out @ new \<and> distinct (map pos_ID new)
    \<and> (\<forall>p \<in> set new. pos_ID p \<in> set ids - seen \<and> pos_State p = ''AVAILABLE''
         \<and> candidate R (srv w) lat lng r (pos_ID p) (pos_DistM p)))"
  using assms
proof (induction ids arbitrary: seen out w)
  case (Cons i ids)
  define w1 where "w1 = snd (run_state (search_driver R lat lng r i) w)"
  have srv: "srv w1 = srv w"
    unfolding w1_def by (rule reads_onlyD [OF reads_only_search_driver])
  show ?case
  proof (cases "i \<in> seen")
    case True
    with Cons.IH [of seen out w] Cons.prems show ?thesis by auto
  next
    case False
    then consider
      "fst (run_state (search_driver R lat lng r i) w) = Ret None"
      "fst (run_state (search_ids R lat lng r ids (insert i seen, out)) w1) = Ret (seen', out')"
    | p where "fst (run_state (search_driver R lat lng r i) w) = Ret (Some p)"
      "fst (run_state (search_ids R lat lng r ids (insert i seen, out @ [p])) w1) = Ret (seen', out')"
      using Cons.prems by (auto simp: split_beta w1_def split: go_out.splits option.splits)
    then show ?thesis
    proof cases
      case 1
      from Cons.IH [OF 1(2)] obtain new where "seen' = insert i seen \<union> set ids" "out' = out @ new"
        "distinct (map pos_ID new)" "\<forall>p \<in> set new. pos_ID p \<in> set ids - insert i seen
          \<and> pos_State p = ''AVAILABLE'' \<and> candidate R (srv w) lat lng r (pos_ID p) (pos_DistM p)"
        unfolding srv by blast
      then show ?thesis by (auto intro!: exI [of _ new])
    next
      case (2 p)
      from Cons.IH [OF 2(2)] obtain new where n: "seen' = insert i seen \<union> set ids"
        "out' = out @ p # new" "distinct (map pos_ID new)"
        "\<forall>p \<in> set new. pos_ID p \<in> set ids - insert i seen
          \<and> pos_State p = ''AVAILABLE'' \<and> candidate R (srv w) lat lng r (pos_ID p) (pos_DistM p)"
        unfolding srv by (metis append.assoc append_Cons append_Nil)
      with search_driver_sound [OF 2(1)] False show ?thesis
        by (intro conjI exI [of _ "p # new"]) auto
    qed
  qed
qed simp

lemma search_ids_complete:
  assumes "fates w = []" and "\<forall>i \<in> set ids. driver_typed R (srv w) i"
  shows "\<exists>out'. run_state (search_ids R lat lng r ids (seen, out)) w = (Ret (seen \<union> set ids, out'), w)
    \<and> set out \<subseteq> set out'
    \<and> (\<forall>i \<in> set ids - seen. (\<exists>d. candidate R (srv w) lat lng r i d) \<longrightarrow> i \<in> pos_ID ` set out')"
  using assms(2)
proof (induction ids arbitrary: seen out)
  case (Cons i ids)
  show ?case
  proof (cases "i \<in> seen")
    case True
    then have "insert i (seen \<union> set ids) = seen \<union> set ids" by auto
    with Cons True show ?thesis by (simp add: insert_Diff_if)
  next
    case False
    have ty: "driver_typed R (srv w) i" using Cons.prems by simp
    show ?thesis
    proof (cases rule: search_driver_run [OF assms(1) ty, of lat lng r, case_names hit skip])
      case (hit p)
      with Cons.IH [of "insert i seen" "out @ [p]"] Cons.prems False show ?thesis by fastforce
    next
      case skip
      with Cons.IH [of "insert i seen" out] Cons.prems False show ?thesis by fastforce
    qed
  qed
qed simp

lemma SMEMBERS_set:
  assumes "is_set (view R st k)"
  obtains xs where "rSMEMBERS R st k = Inr xs" "set xs = set_or_empty (view R st k)"
  using assms SMEMBERS_law [of st k] by (cases "rSMEMBERS R st k") auto

lemma search_cells_sound:
  assumes "fst (run_state (search_cells R lat lng r cells (seen, out)) w) = Ret (seen', out')"
  shows "\<exists>new. out' = out @ new \<and> distinct (map pos_ID new)
    \<and> (\<forall>p \<in> set new. pos_ID p \<notin> seen \<and> listed R (srv w) cells (pos_ID p) \<and> pos_State p = ''AVAILABLE''
         \<and> candidate R (srv w) lat lng r (pos_ID p) (pos_DistM p))"
  using assms
proof (induction cells arbitrary: seen out w)
  case (Cons cell cells)
  define r1 where "r1 = run_state (rread (\<lambda>s. rSMEMBERS R s (CellKey cell))) w"
  obtain ids seen1 out1 where ids: "fst r1 = Inr ids"
    and s1: "fst (run_state (search_ids R lat lng r ids (seen, out)) (snd r1)) = Ret (seen1, out1)"
    and s2: "fst (run_state (search_cells R lat lng r cells (seen1, out1))
        (snd (run_state (search_ids R lat lng r ids (seen, out)) (snd r1)))) = Ret (seen', out')"
    using Cons.prems by (auto simp: split_beta r1_def split: sum.splits go_out.splits)
  have srv: "srv (snd r1) = srv w"
    "srv (snd (run_state (search_ids R lat lng r ids (seen, out)) (snd r1))) = srv w"
    by (simp_all add: r1_def reads_onlyD reads_intro)
  have mem: "set ids = set_or_empty (view R (srv w) (CellKey cell))"
    using rread_fst [of "\<lambda>s. rSMEMBERS R s (CellKey cell)" w] ids SMEMBERS_law [of "srv w" "CellKey cell"]
    by (auto simp: r1_def split: sum.splits)
  from search_ids_sound [OF s1] obtain new1 where
    n1: "seen1 = seen \<union> set ids" "out1 = out @ new1" "distinct (map pos_ID new1)"
      "\<forall>p \<in> set new1. pos_ID p \<in> set ids - seen \<and> pos_State p = ''AVAILABLE''
         \<and> candidate R (srv w) lat lng r (pos_ID p) (pos_DistM p)"
    unfolding srv by blast
  from Cons.IH [OF s2] obtain new2 where
    n2: "out' = out1 @ new2" "distinct (map pos_ID new2)"
      "\<forall>p \<in> set new2. pos_ID p \<notin> seen1 \<and> listed R (srv w) cells (pos_ID p) \<and> pos_State p = ''AVAILABLE''
         \<and> candidate R (srv w) lat lng r (pos_ID p) (pos_DistM p)"
    unfolding srv by blast
  have "distinct (map pos_ID (new1 @ new2))" using n1 n2 by auto
  moreover have "listed R (srv w) (cell # cells) (pos_ID p)" if "p \<in> set (new1 @ new2)" for p
    using that n1(4) n2(3) mem by (auto simp: listed_def)
  ultimately show ?case
    using n1 n2 by (intro exI [of _ "new1 @ new2"]) auto
qed simp

lemma search_cells_complete:
  assumes "fates w = []" and "\<forall>cell \<in> set cells. is_set (view R (srv w) (CellKey cell))"
    and "\<forall>i. listed R (srv w) cells i \<longrightarrow> driver_typed R (srv w) i"
    and "\<forall>i \<in> seen. (\<exists>d. candidate R (srv w) lat lng r i d) \<longrightarrow> i \<in> pos_ID ` set out"
  shows "\<exists>seen' out'. run_state (search_cells R lat lng r cells (seen, out)) w = (Ret (seen', out'), w)
    \<and> set out \<subseteq> set out'
    \<and> (\<forall>i. listed R (srv w) cells i \<longrightarrow> (\<exists>d. candidate R (srv w) lat lng r i d)
         \<longrightarrow> i \<in> pos_ID ` set out')"
  using assms(2-4)
proof (induction cells arbitrary: seen out)
  case Nil
  then show ?case by (simp add: listed_def)
next
  case (Cons cell cells)
  obtain ids where ids: "rSMEMBERS R (srv w) (CellKey cell) = Inr ids"
    "set ids = set_or_empty (view R (srv w) (CellKey cell))"
    using Cons.prems(1) SMEMBERS_set by auto
  then have listed: "listed R (srv w) (cell # cells) i \<longleftrightarrow> i \<in> set ids \<or> listed R (srv w) cells i" for i
    by (auto simp: listed_def)
  with Cons.prems(2) have "\<forall>i \<in> set ids. driver_typed R (srv w) i" by blast
  from search_ids_complete [OF assms(1) this, of lat lng r seen out] obtain out1 where
    o1: "run_state (search_ids R lat lng r ids (seen, out)) w = (Ret (seen \<union> set ids, out1), w)"
      "set out \<subseteq> set out1"
      "\<forall>i \<in> set ids - seen. (\<exists>d. candidate R (srv w) lat lng r i d) \<longrightarrow> i \<in> pos_ID ` set out1"
    by blast
  have "\<forall>i \<in> seen \<union> set ids. (\<exists>d. candidate R (srv w) lat lng r i d) \<longrightarrow> i \<in> pos_ID ` set out1"
    using o1(2,3) Cons.prems(3) by blast
  with Cons.IH [of "seen \<union> set ids" out1] Cons.prems(1,2) listed obtain seen' out' where
    o2: "run_state (search_cells R lat lng r cells (seen \<union> set ids, out1)) w = (Ret (seen', out'), w)"
      "set out1 \<subseteq> set out'"
      "\<forall>i. listed R (srv w) cells i \<longrightarrow> (\<exists>d. candidate R (srv w) lat lng r i d) \<longrightarrow> i \<in> pos_ID ` set out'"
    by auto
  have "i \<in> pos_ID ` set out'" if "listed R (srv w) (cell # cells) i"
    "\<exists>d. candidate R (srv w) lat lng r i d" for i
    using that o1(2,3) o2(2,3) Cons.prems(3) listed by blast
  moreover have "run_state (search_cells R lat lng r (cell # cells) (seen, out)) w = (Ret (seen', out'), w)"
    using assms(1) ids(1) o1(1) o2(1) by simp
  ultimately show ?case using o1(2) o2(2) by blast
qed

end

lemma dist_sort_set [simp]: "set (dist_sort out) = set out"
  by (metis dist_sort_mset set_mset_mset)

lemma dist_sort_distinct [simp]: "distinct (map pos_ID (dist_sort out)) = distinct (map pos_ID out)"
  by (metis dist_sort_mset mset_eq_imp_distinct_iff mset_map)

lemma SearchNearby_returns:
  assumes "redis_service R"
    and "run_state (SearchNearby R H lat lng r) w = (Ret (out, n), w')"
  shows "srv w' = srv w \<and> (\<exists>plan. PlanSearch H lat lng r DefaultResolution = Inr plan
    \<and> n = length (Cells plan) \<and> distinct (map pos_ID out)
    \<and> (\<forall>p \<in> set out. listed R (srv w) (Cells plan) (pos_ID p) \<and> pos_State p = ''AVAILABLE''
         \<and> candidate R (srv w) lat lng r (pos_ID p) (pos_DistM p))
    \<and> ((\<forall>p \<in> set out. pos_DistM p \<noteq> NaN) \<longrightarrow> sorted_wrt by_dist out))"
proof -
  have "srv w' = srv w"
    using reads_onlyD [OF reads_only_SearchNearby, of R H lat lng r w] assms(2) by simp
  moreover obtain plan seen' out' where plan: "PlanSearch H lat lng r DefaultResolution = Inr plan"
    and n: "n = length (Cells plan)" and out: "out = dist_sort out'"
    and run: "fst (run_state (search_cells R lat lng r (Cells plan) ({}, [])) w) = Ret (seen', out')"
    using assms(2)
    by (auto simp: SearchNearby_def split_beta split: sum.splits go_out.splits)
  moreover from redis_service.search_cells_sound [OF assms(1) run]
  have "distinct (map pos_ID out')" "\<forall>p \<in> set out'. listed R (srv w) (Cells plan) (pos_ID p)
      \<and> pos_State p = ''AVAILABLE'' \<and> candidate R (srv w) lat lng r (pos_ID p) (pos_DistM p)"
    by auto
  ultimately show ?thesis using dist_sort_sorted [of out'] by simp
qed

text \<open>
  C9. Whatever happens to its calls, a search that returns drivers returns each driver once,
  in the order of distance, and only drivers that are in a cell of the plan, whose profile
  says \<^verbatim>\<open>AVAILABLE\<close>, whose position is on the server, and whose reported distance is the
  distance of that position and not above the radius; and no search changes the server.
\<close>

theorem SearchNearby_sound:
  assumes "redis_service R"
    and "run_state (SearchNearby R H lat lng r) w = (Ret (out, n), w')"
  shows "srv w' = srv w \<and> (\<exists>plan. PlanSearch H lat lng r DefaultResolution = Inr plan
    \<and> n = length (Cells plan) \<and> distinct (map pos_ID out)
    \<and> (\<forall>p \<in> set out. listed R (srv w) (Cells plan) (pos_ID p) \<and> pos_State p = ''AVAILABLE''
         \<and> candidate R (srv w) lat lng r (pos_ID p) (pos_DistM p))
    \<and> ((\<forall>p \<in> set out. pos_DistM p \<noteq> NaN) \<longrightarrow> sorted_wrt by_dist out))"
  by (rule SearchNearby_returns [OF assms])

section \<open>Registering a driver\<close>

text \<open>The keys of a driver and of a cell hold the types the operations give them.\<close>

definition init_typed :: "'s redis \<Rightarrow> 's \<Rightarrow> string \<Rightarrow> string \<Rightarrow> bool" where
  "init_typed R st i cell \<longleftrightarrow> plain i \<and> is_hash (view R st (DriverKey i))
     \<and> is_hash (view R st (DriverLocKey i)) \<and> is_set (view R st (CellKey cell))
     \<and> is_geo (view R st GeoKey)"

definition init_profile :: "(string \<rightharpoonup> bulk) \<Rightarrow> string \<Rightarrow> string \<Rightarrow> string \<Rightarrow> float64 \<Rightarrow> (string \<rightharpoonup> bulk)" where
  "init_profile h i name st rating = h(''id'' \<mapsto> BStr i, ''name'' \<mapsto> BStr name,
     ''state'' \<mapsto> BStr st, ''rating'' \<mapsto> BFloat rating)"

context redis_service
begin

lemma InitDriver_run:
  assumes "fates w = []" and "geo_CellKey H lat lng DefaultResolution = Inr cell"
    and "init_typed R (srv w) i cell"
  obtains w' where
    "run_state (InitDriver R H now i name st rating lat lng) w =
       (if geo_ok lng lat then None else Some (ERedis InvalidCoords), w')"
    "fates w' = []"
    "view R (srv w') =
       (let v = (view R (srv w))(
          DriverKey i \<mapsto> RHash (init_profile (hash_or_empty (view R (srv w) (DriverKey i))) i name st rating),
          DriverLocKey i \<mapsto> RHash (hset (hash_or_empty (view R (srv w) (DriverLocKey i)))
                                      (loc_fields lat lng cell 0 now)),
          CellKey cell \<mapsto> RSet (insert i (set_or_empty (view R (srv w) (CellKey cell)))))
        in if geo_ok lng lat
           then v(GeoKey \<mapsto> RGeo ((geo_or_empty (view R (srv w) GeoKey))(i \<mapsto> (lng, lat)))) else v)"
    "pttl R (srv w') = (pttl R (srv w))(DriverLocKey i \<mapsto> 120000)"
proof -
  define w' where "w' = snd (run_state (InitDriver R H now i name st rating lat lng) w)"
  have t: "plain i" "is_hash (view R (srv w) (DriverKey i))" "is_hash (view R (srv w) (DriverLocKey i))"
    "is_set (view R (srv w) (CellKey cell))" "is_geo (view R (srv w) GeoKey)"
    using assms(3) by (simp_all add: init_typed_def)
  have 1: "run_state (InitDriver R H now i name st rating lat lng) w =
       (if geo_ok lng lat then None else Some (ERedis InvalidCoords), w')"
    using t assms(1,2) by (simp add: w'_def InitDriver_def split_beta Let_def redis_laws)
  have 2: "fates w' = []"
    using t assms(1,2) by (simp add: w'_def InitDriver_def split_beta Let_def)
  have 3: "view R (srv w') =
       (let v = (view R (srv w))(
          DriverKey i \<mapsto> RHash (init_profile (hash_or_empty (view R (srv w) (DriverKey i))) i name st rating),
          DriverLocKey i \<mapsto> RHash (hset (hash_or_empty (view R (srv w) (DriverLocKey i)))
                                      (loc_fields lat lng cell 0 now)),
          CellKey cell \<mapsto> RSet (insert i (set_or_empty (view R (srv w) (CellKey cell)))))
        in if geo_ok lng lat
           then v(GeoKey \<mapsto> RGeo ((geo_or_empty (view R (srv w) GeoKey))(i \<mapsto> (lng, lat)))) else v)"
    using t assms(1,2)
    by (simp add: w'_def InitDriver_def split_beta Let_def redis_laws loc_fields_def init_profile_def)
  have 4: "pttl R (srv w') = (pttl R (srv w))(DriverLocKey i \<mapsto> 120000)"
    using t assms(1,2) by (simp add: w'_def InitDriver_def split_beta Let_def redis_laws)
  from 1 2 3 4 show thesis by (rule that)
qed

end

text \<open>
  C33. Registering a driver succeeds exactly when the coordinates are in the range Redis
  accepts, and makes the driver visible to searches: its profile has the given state, its
  position is stored for 120 seconds, and it is a member of its cell's set. Leases are not
  touched, so a re-registration does not free a reserved driver.
\<close>

theorem InitDriver_registers:
  assumes "redis_service R" and "fates w = []"
    and "geo_CellKey H lat lng DefaultResolution = Inr cell" and "init_typed R (srv w) i cell"
    and "run_state (InitDriver R H now i name st rating lat lng) w = (e, w')"
  shows "(e = None \<longleftrightarrow> geo_ok lng lat)
    \<and> (driver_available R (srv w') i \<longleftrightarrow> st = ''AVAILABLE'')
    \<and> driver_at R (srv w') i lat lng
    \<and> listed R (srv w') [cell] i
    \<and> pttl R (srv w') (DriverLocKey i) = Some 120000
    \<and> view R (srv w') (DriverLeaseKey j) = view R (srv w) (DriverLeaseKey j)"
proof -
  have pl: "plain i" using assms(4) by (simp add: init_typed_def)
  obtain w1 where w1:
    "run_state (InitDriver R H now i name st rating lat lng) w =
       (if geo_ok lng lat then None else Some (ERedis InvalidCoords), w1)"
    "view R (srv w1) =
       (let v = (view R (srv w))(
          DriverKey i \<mapsto> RHash (init_profile (hash_or_empty (view R (srv w) (DriverKey i))) i name st rating),
          DriverLocKey i \<mapsto> RHash (hset (hash_or_empty (view R (srv w) (DriverLocKey i)))
                                      (loc_fields lat lng cell 0 now)),
          CellKey cell \<mapsto> RSet (insert i (set_or_empty (view R (srv w) (CellKey cell)))))
        in if geo_ok lng lat
           then v(GeoKey \<mapsto> RGeo ((geo_or_empty (view R (srv w) GeoKey))(i \<mapsto> (lng, lat)))) else v)"
    "pttl R (srv w1) = (pttl R (srv w))(DriverLocKey i \<mapsto> 120000)"
    using redis_service.InitDriver_run [OF assms(1-4), of now name st rating] by metis
  have "w' = w1" and e: "e = None \<longleftrightarrow> geo_ok lng lat" using w1(1) assms(5) by auto
  note v = w1(2) [folded \<open>w' = w1\<close>]
  have "driver_available R (srv w') i \<longleftrightarrow> st = ''AVAILABLE''"
    using pl by (auto simp: v driver_available_def init_profile_def Let_def)
  moreover have "driver_at R (srv w') i lat lng"
    using pl by (simp add: v driver_at_def loc_fields_def ParseFloat_def Let_def)
  moreover have "listed R (srv w') [cell] i" by (simp add: v listed_def Let_def)
  moreover have "view R (srv w') (DriverLeaseKey j) = view R (srv w) (DriverLeaseKey j)"
    using pl by (simp add: v Let_def)
  ultimately show ?thesis using e w1(3) \<open>w' = w1\<close> by simp
qed

section \<open>Completeness of the search\<close>

text \<open>The index invariant: a driver with a position is in the set of the cell of that position.\<close>

definition indexed :: "'s redis \<Rightarrow> 'c h3 \<Rightarrow> 's \<Rightarrow> string \<Rightarrow> bool" where
  "indexed R H st i \<longleftrightarrow> (\<forall>a b. driver_at R st i a b \<longrightarrow>
     (\<exists>c. LatLngToCell H a b DefaultResolution = Some c
        \<and> i \<in> set_or_empty (view R st (CellKey (cell_String H c)))))"

definition search_typed :: "'s redis \<Rightarrow> 's \<Rightarrow> string list \<Rightarrow> bool" where
  "search_typed R st cells \<longleftrightarrow> (\<forall>cell \<in> set cells. is_set (view R st (CellKey cell)))
     \<and> (\<forall>i. listed R st cells i \<longrightarrow> driver_typed R st i)"

lemma SearchNearby_listed:
  assumes "redis_service R" and "fates w = []"
    and "PlanSearch H lat lng r DefaultResolution = Inr plan" and "search_typed R (srv w) (Cells plan)"
  obtains out where "run_state (SearchNearby R H lat lng r) w = (Ret (out, length (Cells plan)), w)"
    "\<And>i d. listed R (srv w) (Cells plan) i \<Longrightarrow> candidate R (srv w) lat lng r i d \<Longrightarrow> i \<in> pos_ID ` set out"
proof -
  obtain seen' out' where
    "run_state (search_cells R lat lng r (Cells plan) ({}, [])) w = (Ret (seen', out'), w)"
    "\<forall>i. listed R (srv w) (Cells plan) i \<longrightarrow> (\<exists>d. candidate R (srv w) lat lng r i d) \<longrightarrow> i \<in> pos_ID ` set out'"
    using redis_service.search_cells_complete [OF assms(1,2), of "Cells plan" "{}" lat lng r "[]"] assms(4)
    by (auto simp: search_typed_def)
  with assms(3) show thesis
    by (intro that [of "dist_sort out'"]) (auto simp: SearchNearby_def)
qed


text \<open>A fleet of one driver on the reference server.\<close>

definition demo :: ref where
  "demo = [DriverKey ''d1'' \<mapsto> (VHash [(''state'', BStr ''AVAILABLE''), (''rating'', BFloat (Fin 4))], None),
     DriverLocKey ''d1'' \<mapsto> (VHash [(''lat'', BFloat (Fin 0)), (''lng'', BFloat (Fin 0)),
        (''cell'', BStr ''87''), (''seq'', BInt 4), (''ts'', BInt 0)], Some 120000),
     DriverSeqKey ''d1'' \<mapsto> (VStr (BInt 4), Some 3600000),
     CellKey ''87'' \<mapsto> (VSet [''d1''], None)]"

definition demo_world :: "ref world" where
  "demo_world = \<lparr> srv = demo, fates = [] \<rparr>"

lemma demo_world_simps [simp]: "srv demo_world = demo" "fates demo_world = []"
  by (simp_all add: demo_world_def)

lemma plain_d1 [simp]: "plain ''d1''"
  by (simp add: plain_def)

lemma demo_view [simp]:
  "ref_view demo (DriverKey ''d1'') =
     Some (RHash [''state'' \<mapsto> BStr ''AVAILABLE'', ''rating'' \<mapsto> BFloat (Fin 4)])"
  "ref_view demo (DriverLocKey ''d1'') =
     Some (RHash [''lat'' \<mapsto> BFloat (Fin 0), ''lng'' \<mapsto> BFloat (Fin 0), ''cell'' \<mapsto> BStr ''87'',
        ''seq'' \<mapsto> BInt 4, ''ts'' \<mapsto> BInt 0])"
  "ref_view demo (DriverSeqKey ''d1'') = Some (RStr (BInt 4))"
  "ref_view demo (DriverLeaseKey i) = None"
  "ref_view demo (CellKey ''87'') = Some (RSet {''d1''})"
  "ref_view demo GeoKey = None"
  "ref_view demo (RideKey i) = None"
  "ref_view demo (RateLimitKey s i) = None"
  "ref_pttl demo (DriverLocKey ''d1'') = Some 120000"
  "ref_pttl demo (DriverKey ''d1'') = None" "ref_pttl demo (CellKey ''87'') = None"
  by (simp_all add: demo_def ref_view_def ref_pttl_def ref_live_def fun_upd_twist)

lemma demo_driver [simp]:
  "driver_available ref_redis demo ''d1''" "driver_at ref_redis demo ''d1'' (Fin 0) (Fin 0)"
  "listed ref_redis demo [''87''] i \<longleftrightarrow> i = ''d1''"
  "indexed ref_redis one_cell demo ''d1''" "search_typed ref_redis demo [''87'']"
  by (simp_all add: driver_available_def driver_at_def listed_def indexed_def search_typed_def
      driver_typed_def ParseFloat_def) (simp_all add: one_cell_def)







theorem SearchNearby_sound_witness:
  "\<exists>out n w'. run_state (SearchNearby ref_redis one_cell (Fin 0) (Fin 0) (Fin 500)) demo_world = (Ret (out, n), w')
     \<and> srv w' = demo \<and> n = 1 \<and> distinct (map pos_ID out)"
proof -
  obtain out where "run_state (SearchNearby ref_redis one_cell (Fin 0) (Fin 0) (Fin 500)) demo_world
      = (Ret (out, 1), demo_world)"
    by (rule SearchNearby_listed [OF ref.redis_service_axioms demo_world_simps(2) one_cell_plan,
          of "Fin 500" "Fin 0" "Fin 0"]) auto
  from SearchNearby_sound [OF ref.redis_service_axioms this] this show ?thesis by auto
qed

theorem InitDriver_registers_witness:
  "\<exists>e w'. run_state (InitDriver ref_redis one_cell 0 ''d1'' ''Ann'' ''AVAILABLE'' (Fin 5) (Fin 10) (Fin 20)) demo_world
     = (e, w') \<and> e = None \<and> driver_available ref_redis (srv w') ''d1''
     \<and> driver_at ref_redis (srv w') ''d1'' (Fin 10) (Fin 20)"
proof -
  obtain e w' where run: "run_state (InitDriver ref_redis one_cell 0 ''d1'' ''Ann'' ''AVAILABLE''
      (Fin 5) (Fin 10) (Fin 20)) demo_world = (e, w')"
    by fastforce
  have "init_typed ref_redis (srv demo_world) ''d1'' ''87''" by (simp add: init_typed_def)
  from InitDriver_registers [OF ref.redis_service_axioms _ _ this run] run show ?thesis
    by (simp add: geo_ok_def)
qed

section \<open>Expired positions\<close>

context redis_service
begin

text \<open>A search whose calls are answered either returns or panics, and it panics when a listed
  driver is \<^verbatim>\<open>AVAILABLE\<close> without a position hash.\<close>

lemma search_driver_total:
  assumes "fates w = []" and "is_hash (view R (srv w) (DriverLocKey i))"
  shows "\<exists>x. run_state (search_driver R lat lng r i) w = (x, w) \<and> (\<forall>e. x \<noteq> Err e)"
  using assms
  by (auto simp: search_driver_def redis_laws Let_def split: option.splits)

lemma search_ids_total:
  assumes "fates w = []" and "\<forall>i \<in> set ids. is_hash (view R (srv w) (DriverLocKey i))"
  shows "(\<exists>out'. run_state (search_ids R lat lng r ids (seen, out)) w = (Ret (seen \<union> set ids, out'), w)
      \<and> (\<forall>i \<in> set ids - seen. run_state (search_driver R lat lng r i) w \<noteq> (Panic, w)))
    \<or> run_state (search_ids R lat lng r ids (seen, out)) w = (Panic, w)"
  using assms(2)
proof (induction ids arbitrary: seen out)
  case (Cons i ids)
  show ?case
  proof (cases "i \<in> seen")
    case True
    then have "insert i (seen \<union> set ids) = seen \<union> set ids" by auto
    with Cons True show ?thesis by (simp add: insert_Diff_if)
  next
    case False
    obtain x where x: "run_state (search_driver R lat lng r i) w = (x, w)" "\<forall>e. x \<noteq> Err e"
      using search_driver_total [OF assms(1), of i] Cons.prems by fastforce
    have ih: "(\<exists>out''. run_state (search_ids R lat lng r ids (insert i seen, out')) w
          = (Ret (insert i seen \<union> set ids, out''), w)
        \<and> (\<forall>j \<in> set ids - insert i seen. run_state (search_driver R lat lng r j) w \<noteq> (Panic, w)))
      \<or> run_state (search_ids R lat lng r ids (insert i seen, out')) w = (Panic, w)" for out'
      using Cons.IH [of "insert i seen" out'] Cons.prems by simp
    consider "x = Panic" | "x = Ret None" | p where "x = Ret (Some p)"
      using x(2) by (cases x) auto
    then show ?thesis
    proof cases
      case 1
      with x False show ?thesis by simp
    next
      case 2
      with x ih [of out] False show ?thesis by auto
    next
      case (3 p)
      with x ih [of "out @ [p]"] False show ?thesis by auto
    qed
  qed
qed simp

lemma search_cells_total:
  assumes "fates w = []" and "\<forall>cell \<in> set cells. is_set (view R (srv w) (CellKey cell))"
    and "\<forall>i. listed R (srv w) cells i \<longrightarrow> is_hash (view R (srv w) (DriverLocKey i))"
  shows "(\<exists>seen' out'. run_state (search_cells R lat lng r cells (seen, out)) w = (Ret (seen', out'), w)
      \<and> (\<forall>i. listed R (srv w) cells i \<longrightarrow> i \<notin> seen \<longrightarrow> run_state (search_driver R lat lng r i) w \<noteq> (Panic, w)))
    \<or> run_state (search_cells R lat lng r cells (seen, out)) w = (Panic, w)"
  using assms(2,3)
proof (induction cells arbitrary: seen out)
  case (Cons cell cells)
  obtain ids where ids: "rSMEMBERS R (srv w) (CellKey cell) = Inr ids"
    "set ids = set_or_empty (view R (srv w) (CellKey cell))"
    using Cons.prems(1) SMEMBERS_set by auto
  then have listed: "listed R (srv w) (cell # cells) i \<longleftrightarrow> i \<in> set ids \<or> listed R (srv w) cells i" for i
    by (auto simp: listed_def)
  with Cons.prems(2) have "\<forall>i \<in> set ids. is_hash (view R (srv w) (DriverLocKey i))" by blast
  from search_ids_total [OF assms(1) this, of lat lng r seen out] show ?case
  proof (elim disjE exE conjE)
    fix out1
    assume o1: "run_state (search_ids R lat lng r ids (seen, out)) w = (Ret (seen \<union> set ids, out1), w)"
      "\<forall>i \<in> set ids - seen. run_state (search_driver R lat lng r i) w \<noteq> (Panic, w)"
    from Cons.IH [of "seen \<union> set ids" out1] Cons.prems listed show ?thesis
      using o1 ids(1) assms(1) by auto
  next
    assume "run_state (search_ids R lat lng r ids (seen, out)) w = (Panic, w)"
    then show ?thesis using ids(1) assms(1) by simp
  qed
qed (simp add: listed_def)

end

text \<open>
  C37. The position of a driver expires 120 seconds after its last update, but its membership
  of the cell set and its \<^verbatim>\<open>AVAILABLE\<close> state do not. One such driver in the cells of a search makes
  the search panic: \<^verbatim>\<open>HMGET\<close> answers with three nil entries, the check \<^verbatim>\<open>len(m) < 3\<close> never fires,
  and the type assertion on the nil latitude fails.
\<close>

theorem SearchNearby_expired_position_panics:
  assumes "redis_service R" and "fates w = []"
    and "PlanSearch H lat lng r DefaultResolution = Inr plan"
    and "\<forall>cell \<in> set (Cells plan). is_set (view R (srv w) (CellKey cell))"
    and "\<forall>j. listed R (srv w) (Cells plan) j \<longrightarrow> is_hash (view R (srv w) (DriverLocKey j))"
    and "listed R (srv w) (Cells plan) i" and "driver_available R (srv w) i"
    and "view R (srv w) (DriverLocKey i) = None"
  shows "run_state (SearchNearby R H lat lng r) w = (Panic, w)"
  using redis_service.search_cells_total [OF assms(1,2,4,5), of lat lng r "{}" "[]"]
    redis_service.search_driver_panic [OF assms(1,2,7,8), of lat lng r] assms(3,6)
  by (auto simp: SearchNearby_def)

text \<open>The driver of the demonstration fleet, 120 seconds later.\<close>

definition stale_world :: "ref world" where
  "stale_world = \<lparr> srv = elapse ref_redis 120000 demo, fates = [] \<rparr>"

lemma demo_elapse [simp]:
  "ref_view (ref_elapse 120000 demo) (DriverLocKey ''d1'') = None"
  "ref_view (ref_elapse 120000 demo) (CellKey ''87'') = Some (RSet {''d1''})"
  "ref_view (ref_elapse 120000 demo) (DriverKey ''d1'') =
     Some (RHash [''state'' \<mapsto> BStr ''AVAILABLE'', ''rating'' \<mapsto> BFloat (Fin 4)])"
  using ref.elapse_view [of 120000 demo "DriverLocKey ''d1''"]
    ref.elapse_view [of 120000 demo "CellKey ''87''"] ref.elapse_view [of 120000 demo "DriverKey ''d1''"]
  by simp_all

theorem SearchNearby_expired_position_panics_witness:
  "run_state (SearchNearby ref_redis one_cell (Fin 0) (Fin 0) (Fin 500)) stale_world = (Panic, stale_world)"
  by (rule SearchNearby_expired_position_panics [OF ref.redis_service_axioms _ one_cell_plan,
        where i = "''d1''"])
    (auto simp: stale_world_def listed_def driver_available_def)

end
