(* ===== verification/Position.thy ===== *)
theory Position
  imports Nearby
begin

text \<open>
  Location updates: \<open>Store_ApplyLocation\<close> with its sequence guard, one update and any sequence
  of updates, and the index of drivers by cell that the updates maintain.
\<close>

section \<open>Applying location updates\<close>

text \<open>The hot state of a driver's position is well typed.\<close>

definition loc_ok :: "'s redis \<Rightarrow> 's \<Rightarrow> string \<Rightarrow> bool" where
  "loc_ok R st i \<longleftrightarrow>
     (case view R st (DriverSeqKey i) of None \<Rightarrow> True | Some (RStr (BInt _)) \<Rightarrow> True | _ \<Rightarrow> False)
     \<and> is_hash (view R st (DriverLocKey i)) \<and> (\<forall>cell. is_set (view R st (CellKey cell)))
     \<and> is_geo (view R st GeoKey)"

text \<open>The cell the driver's position hash records, as text; empty when there is none.\<close>

definition old_cell :: "'s redis \<Rightarrow> 's \<Rightarrow> string \<Rightarrow> string" where
  "old_cell R st i = hget_text R (rHGET R st (DriverLocKey i) ''cell'')"

definition from_cell :: "'s redis \<Rightarrow> 's \<Rightarrow> string \<Rightarrow> string \<Rightarrow> string" where
  "from_cell R st i newCell = (if old_cell R st i = [] then newCell else old_cell R st i)"

context redis_service
begin

lemma ApplyLocation_run:
  assumes "fates w = []" and "geo_CellKey H lat lng DefaultResolution = Inr cell"
  shows "run_state (Store_ApplyLocation R H i lat lng seq ts) w =
    (let p = applyLocationScript R (DriverSeqKey i) (DriverLocKey i)
           (CellKey (from_cell R (srv w) i cell)) (CellKey cell) GeoKey seq lat lng cell ts 120 i (srv w)
     in (case fst p of Inl e \<Rightarrow> Inl (ERedis e) | Inr res \<Rightarrow> Inr (res = 1), w\<lparr>srv := snd p\<rparr>))"
  using assms
  by (simp add: Store_ApplyLocation_def Let_def from_cell_def old_cell_def)

lemma loc_ok_typed:
  assumes "loc_ok R st i"
  shows "loc_typed R st (DriverSeqKey i) (DriverLocKey i) (CellKey a) (CellKey b) GeoKey"
  using assms by (auto simp: loc_ok_def loc_typed_def)

text \<open>A stale or duplicate update changes nothing and is reported as not applied.\<close>

lemma ApplyLocation_stale:
  assumes "fates w = []" and "geo_CellKey H lat lng DefaultResolution = Inr cell" and "loc_ok R (srv w) i"
    and "\<not> seq_fresh (view R (srv w) (DriverSeqKey i)) seq"
  shows "run_state (Store_ApplyLocation R H i lat lng seq ts) w = (Inr False, w)"
proof -
  obtain m where "view R (srv w) (DriverSeqKey i) = Some (RStr (BInt m))" "round53 seq \<le> round53 m"
    using assms(3,4)
    by (auto simp: seq_fresh_def loc_ok_def split: option.splits rvalue.splits bulk.splits)
  from apply_stale [OF this] show ?thesis
    by (simp add: ApplyLocation_run [OF assms(1,2)] Let_def)
qed

lemma ApplyLocation_fresh:
  fixes w :: "('s, 'm) world_scheme" and ts :: int
  assumes "fates w = []" and "geo_CellKey H lat lng DefaultResolution = Inr cell" and "loc_ok R (srv w) i"
    and "seq_fresh (view R (srv w) (DriverSeqKey i)) seq"
  obtains w' where
    "run_state (Store_ApplyLocation R H i lat lng seq ts) w =
       (if geo_ok lng lat then Inr True else Inl (ERedis InvalidCoords), w')"
    "fates w' = []"
    "view R (srv w') (DriverSeqKey i) = Some (RStr (BInt seq))"
    "view R (srv w') (DriverLocKey i) =
       Some (RHash (hset (hash_or_empty (view R (srv w) (DriverLocKey i))) (loc_fields lat lng cell seq ts)))"
    "pttl R (srv w') (DriverLocKey i) = Some 120000"
    "\<And>c. set_or_empty (view R (srv w') (CellKey c)) =
       (if c = cell then insert i (set_or_empty (view R (srv w) (CellKey c)))
        else if c = from_cell R (srv w) i cell then set_or_empty (view R (srv w) (CellKey c)) - {i}
        else set_or_empty (view R (srv w) (CellKey c)))"
    "\<And>c. is_set (view R (srv w') (CellKey c))"
    "is_geo (view R (srv w') GeoKey)"
    "\<And>k. k \<notin> {DriverSeqKey i, DriverLocKey i, GeoKey} \<union> range CellKey \<Longrightarrow> view R (srv w') k = view R (srv w) k"
proof -
  let ?old = "from_cell R (srv w) i cell"
  let ?p = "applyLocationScript R (DriverSeqKey i) (DriverLocKey i) (CellKey ?old) (CellKey cell)
      GeoKey seq lat lng cell ts 120 i (srv w)"
  note ty = loc_ok_typed [OF assms(3), of ?old cell]
  note eff = apply_effect [OF ty assms(4), of 120, simplified]
  have sets: "is_set (view R (srv w) (CellKey c))" "is_geo (view R (srv w) GeoKey)" for c
    using assms(3) by (simp_all add: loc_ok_def)
  show thesis
  proof (rule that [of "w\<lparr>srv := snd ?p\<rparr>"])
    show "run_state (Store_ApplyLocation R H i lat lng seq ts) w =
       (if geo_ok lng lat then Inr True else Inl (ERedis InvalidCoords), w\<lparr>srv := snd ?p\<rparr>)"
      by (simp add: ApplyLocation_run [OF assms(1,2)] Let_def eff(1))
  next
    show "pttl R (srv (w\<lparr>srv := snd ?p\<rparr>)) (DriverLocKey i) = Some 120000"
      using apply_ttl(1) [OF ty assms(4), of 120] by simp
  next
    fix c
    show "set_or_empty (view R (srv (w\<lparr>srv := snd ?p\<rparr>)) (CellKey c)) =
       (if c = cell then insert i (set_or_empty (view R (srv w) (CellKey c)))
        else if c = ?old then set_or_empty (view R (srv w) (CellKey c)) - {i}
        else set_or_empty (view R (srv w) (CellKey c)))"
      by (simp add: eff(2) Let_def)
    show "is_set (view R (srv (w\<lparr>srv := snd ?p\<rparr>)) (CellKey c))"
      by (simp add: eff(2) Let_def sets)
  qed (use assms(1) sets in \<open>simp_all add: eff(2) Let_def image_iff\<close>)
qed

end

lemma driver_at_fields:
  "view R st (DriverLocKey i) = Some (RHash (hset h (loc_fields lat lng cell seq ts)))
     \<Longrightarrow> driver_at R st i a b \<longleftrightarrow> a = lat \<and> b = lng"
  by (auto simp: driver_at_def loc_fields_def ParseFloat_def)

text \<open>
  C10. The sequence guard: an update is applied exactly when its sequence number is larger, as
  Lua's numbers compare, than the last one applied and Redis accepts the coordinates; a stale
  or duplicate one changes nothing. A fresh one stores the position for 120 seconds under the
  new sequence number and moves the driver from the cell of its old position to the new one,
  so that a driver that was in that one cell is now in exactly the new one.
\<close>

theorem ApplyLocation_guard:
  assumes "redis_service R" and "fates w = []"
    and "geo_CellKey H lat lng DefaultResolution = Inr cell" and "loc_ok R (srv w) i"
    and "run_state (Store_ApplyLocation R H i lat lng seq ts) w = (x, w')"
  shows "(x = Inr True \<longleftrightarrow> seq_fresh (view R (srv w) (DriverSeqKey i)) seq \<and> geo_ok lng lat)
    \<and> (\<not> seq_fresh (view R (srv w) (DriverSeqKey i)) seq \<longrightarrow> x = Inr False \<and> w' = w)
    \<and> (seq_fresh (view R (srv w) (DriverSeqKey i)) seq \<longrightarrow>
         view R (srv w') (DriverSeqKey i) = Some (RStr (BInt seq))
         \<and> driver_at R (srv w') i lat lng \<and> pttl R (srv w') (DriverLocKey i) = Some 120000
         \<and> ((\<forall>c. i \<in> set_or_empty (view R (srv w) (CellKey c)) \<longrightarrow> c = from_cell R (srv w) i cell) \<longrightarrow>
             (\<forall>c. i \<in> set_or_empty (view R (srv w') (CellKey c)) \<longleftrightarrow> c = cell)))"
proof (cases "seq_fresh (view R (srv w) (DriverSeqKey i)) seq")
  case True
  obtain w1 where w1:
    "run_state (Store_ApplyLocation R H i lat lng seq ts) w =
       (if geo_ok lng lat then Inr True else Inl (ERedis InvalidCoords), w1)"
    "view R (srv w1) (DriverSeqKey i) = Some (RStr (BInt seq))"
    "view R (srv w1) (DriverLocKey i) =
       Some (RHash (hset (hash_or_empty (view R (srv w) (DriverLocKey i))) (loc_fields lat lng cell seq ts)))"
    "pttl R (srv w1) (DriverLocKey i) = Some 120000"
    "\<And>c. set_or_empty (view R (srv w1) (CellKey c)) =
       (if c = cell then insert i (set_or_empty (view R (srv w) (CellKey c)))
        else if c = from_cell R (srv w) i cell then set_or_empty (view R (srv w) (CellKey c)) - {i}
        else set_or_empty (view R (srv w) (CellKey c)))"
    by (rule redis_service.ApplyLocation_fresh [OF assms(1-4) True, of ts]) (rule that)
  have "w' = w1" "x = (if geo_ok lng lat then Inr True else Inl (ERedis InvalidCoords))"
    using w1(1) assms(5) by auto
  moreover have "driver_at R (srv w1) i lat lng" by (simp add: driver_at_fields [OF w1(3)])
  ultimately show ?thesis using True w1(2,4,5) by auto
next
  case False
  from redis_service.ApplyLocation_stale [OF assms(1-4) this, of ts] assms(5) False show ?thesis by auto
qed

lemma demo_loc_ok [simp]: "loc_ok ref_redis demo ''d1''"
proof -
  have "ref_view demo (CellKey cell) = (if cell = ''87'' then Some (RSet {''d1''}) else None)" for cell
    by (simp add: demo_def ref_view_def ref_live_def)
  then show ?thesis by (simp add: loc_ok_def)
qed

theorem ApplyLocation_guard_witness:
  "fst (run_state (Store_ApplyLocation ref_redis one_cell ''d1'' (Fin 1) (Fin 2) 4 0) demo_world) = Inr False
   \<and> fst (run_state (Store_ApplyLocation ref_redis one_cell ''d1'' (Fin 1) (Fin 2) 5 0) demo_world) = Inr True"
proof -
  have "round53 4 = 4" "round53 5 = 5" by (simp_all add: round53_id)
  then have "\<not> seq_fresh (view ref_redis (srv demo_world) (DriverSeqKey ''d1'')) 4"
    "seq_fresh (view ref_redis (srv demo_world) (DriverSeqKey ''d1'')) 5" "geo_ok (Fin 2) (Fin 1)"
    by (simp_all add: seq_fresh_def geo_ok_def)
  then show ?thesis
    using ApplyLocation_guard [OF ref.redis_service_axioms demo_world_simps(2) one_cell_key, of "''d1''"]
    by (simp add: prod_eq_iff)
qed

section \<open>Updates in any order\<close>

type_synonym loc_update = "float64 \<times> float64 \<times> int \<times> int"

fun apply_updates ::
  "'s redis \<Rightarrow> 'c h3 \<Rightarrow> string \<Rightarrow> loc_update list \<Rightarrow> (('s, 'm) world_scheme, (go_err + bool) list) state"
where
  "apply_updates R H i [] = State_Monad.return []"
| "apply_updates R H i ((lat, lng, seq, ts) # us) = do {
     x \<leftarrow> Store_ApplyLocation R H i lat lng seq ts;
     xs \<leftarrow> apply_updates R H i us;
     State_Monad.return (x # xs) }"

definition upd_seq :: "loc_update \<Rightarrow> int" where "upd_seq u = fst (snd (snd u))"

definition upd_ok :: "'c h3 \<Rightarrow> loc_update \<Rightarrow> bool" where
  "upd_ok H u = (case u of (lat, lng, seq, ts) \<Rightarrow>
     (\<exists>cell. geo_CellKey H lat lng DefaultResolution = Inr cell) \<and> geo_ok lng lat \<and> \<bar>seq\<bar> \<le> 2 ^ 53)"

lemma upd_ok_seq: "upd_ok H u \<Longrightarrow> \<bar>upd_seq u\<bar> \<le> 2 ^ 53"
  by (auto simp: upd_ok_def upd_seq_def)

context redis_service
begin

lemma apply_updates_stale:
  assumes "fates w = []" and "loc_ok R (srv w) i" and "\<forall>u \<in> set us. upd_ok H u"
    and "\<forall>u \<in> set us. \<not> seq_fresh (view R (srv w) (DriverSeqKey i)) (upd_seq u)"
  shows "snd (run_state (apply_updates R H i us) w) = w"
  using assms(3,4)
proof (induction us)
  case (Cons u us)
  obtain lat lng seq ts where u: "u = (lat, lng, seq, ts)" by (cases u)
  with Cons.prems ApplyLocation_stale [OF assms(1) _ assms(2), of H lat lng _ seq ts]
  have "run_state (Store_ApplyLocation R H i lat lng seq ts) w = (Inr False, w)"
    by (auto simp: upd_ok_def upd_seq_def)
  with Cons u show ?case by (simp add: split_beta)
qed simp

lemma apply_update_fresh:
  assumes "fates w = []" and "loc_ok R (srv w) i" and "upd_ok H v" and "seq_fresh (view R (srv w) (DriverSeqKey i)) (upd_seq v)"
    and "w1 = snd (run_state (apply_updates R H i [v]) w)"
  shows "fates w1 = []" and "loc_ok R (srv w1) i"
    and "view R (srv w1) (DriverSeqKey i) = Some (RStr (BInt (upd_seq v)))" and "driver_at R (srv w1) i (fst v) (fst (snd v))"
    and "\<bar>n\<bar> \<le> 2 ^ 53 \<Longrightarrow> seq_fresh (view R (srv w1) (DriverSeqKey i)) n \<longleftrightarrow> upd_seq v < n"
proof -
  obtain lat lng seq ts where v: "v = (lat, lng, seq, ts)" by (cases v)
  obtain cell where cell: "geo_CellKey H lat lng DefaultResolution = Inr cell" and "geo_ok lng lat" and s: "\<bar>seq\<bar> \<le> 2 ^ 53"
    using assms(3) v by (auto simp: upd_ok_def)
  have fresh: "seq_fresh (view R (srv w) (DriverSeqKey i)) seq" using assms(4) by (simp add: v upd_seq_def)
  obtain w2 where w2: "run_state (Store_ApplyLocation R H i lat lng seq ts) w = (Inr True, w2)"
    "fates w2 = []" "view R (srv w2) (DriverSeqKey i) = Some (RStr (BInt seq))"
    "view R (srv w2) (DriverLocKey i) =
       Some (RHash (hset (hash_or_empty (view R (srv w) (DriverLocKey i))) (loc_fields lat lng cell seq ts)))"
    "\<And>c. is_set (view R (srv w2) (CellKey c))" "is_geo (view R (srv w2) GeoKey)"
    by (rule ApplyLocation_fresh [OF assms(1) cell assms(2) fresh, of ts]) (rule that, simp_all add: \<open>geo_ok lng lat\<close>)
  have w1: "w1 = w2" using assms(5) w2(1) by (simp add: v)
  show "fates w1 = []" "loc_ok R (srv w1) i" "view R (srv w1) (DriverSeqKey i) = Some (RStr (BInt (upd_seq v)))"
    "driver_at R (srv w1) i (fst v) (fst (snd v))"
    using w2 by (simp_all add: w1 v upd_seq_def loc_ok_def driver_at_fields [OF w2(4)])
  show "\<bar>n\<bar> \<le> 2 ^ 53 \<Longrightarrow> seq_fresh (view R (srv w1) (DriverSeqKey i)) n \<longleftrightarrow> upd_seq v < n"
    using s w2(3) by (simp add: w1 v upd_seq_def seq_fresh_def round53_id)
qed

lemma apply_updates_Cons:
  "snd (run_state (apply_updates R H i (v # us)) w)
     = snd (run_state (apply_updates R H i us) (snd (run_state (apply_updates R H i [v]) w)))"
  by (cases v) (simp add: split_beta)

lemma apply_updates_newest:
  assumes "fates w = []" and "loc_ok R (srv w) i" and "\<forall>v \<in> set us. upd_ok H v"
    and "distinct (map upd_seq us)" and "u \<in> set us" and "\<forall>v \<in> set us. upd_seq v \<le> upd_seq u"
    and "seq_fresh (view R (srv w) (DriverSeqKey i)) (upd_seq u)"
    and "snd (run_state (apply_updates R H i us) w) = w'"
  shows "view R (srv w') (DriverSeqKey i) = Some (RStr (BInt (upd_seq u)))
    \<and> driver_at R (srv w') i (fst u) (fst (snd u))"
  using assms
proof (induction us arbitrary: w)
  case (Cons v us)
  define w1 where "w1 = snd (run_state (apply_updates R H i [v]) w)"
  have w': "snd (run_state (apply_updates R H i us) w1) = w'"
    using Cons.prems(8) by (simp only: w1_def apply_updates_Cons [of H i v us w, symmetric])
  have ok: "upd_ok H v" "\<And>v'. v' \<in> set (v # us) \<Longrightarrow> \<bar>upd_seq v'\<bar> \<le> 2 ^ 53"
    using Cons.prems(3) by (auto intro: upd_ok_seq [of H, simplified])
  show ?case
  proof (cases "seq_fresh (view R (srv w) (DriverSeqKey i)) (upd_seq v)")
    case False
    then have "w1 = w" using apply_updates_stale [of w i "[v]" H] Cons.prems(1,2) ok(1) by (simp add: w1_def)
    moreover have "u \<in> set us" using False Cons.prems(5,7) by auto
    ultimately show ?thesis using Cons.IH [of w] Cons.prems w' by simp
  next
    case True
    note f = apply_update_fresh [OF Cons.prems(1,2) ok(1) True w1_def]
    show ?thesis
    proof (cases "u = v")
      case True
      then have "\<not> seq_fresh (view R (srv w1) (DriverSeqKey i)) (upd_seq v')" if "v' \<in> set us" for v'
        using f(5) [OF ok(2)] that Cons.prems(6) by fastforce
      then have "w' = w1" using apply_updates_stale [of w1 i us H] w' f(1,2) Cons.prems(3) by auto
      with True f(3,4) show ?thesis by simp
    next
      case False
      then have "u \<in> set us" using Cons.prems(5) by simp
      moreover from this have "upd_seq v < upd_seq u"
        using Cons.prems(4,6) by (metis distinct.simps(2) image_eqI list.set_intros(1)
            list.set_map list.simps(9) order_le_less)
      ultimately show ?thesis
        using Cons.IH [OF f(1,2) _ _ _ _ _ w'] Cons.prems f(5) [OF ok(2), of u] by simp
    qed
  qed
qed simp

end

text \<open>
  C11. Updates of one driver that arrive in any order leave the state of the newest: after a
  list of updates with distinct sequence numbers of at most 53 bits, one of them newer than
  what is stored, the stored position and sequence number are those of the largest one.
\<close>

theorem ApplyLocation_any_order:
  assumes "redis_service R" and "fates w = []" and "loc_ok R (srv w) i"
    and "\<forall>v \<in> set us. upd_ok H v" and "distinct (map upd_seq us)"
    and "u \<in> set us" and "\<forall>v \<in> set us. upd_seq v \<le> upd_seq u"
    and "seq_fresh (view R (srv w) (DriverSeqKey i)) (upd_seq u)"
    and "snd (run_state (apply_updates R H i us) w) = w'"
  shows "view R (srv w') (DriverSeqKey i) = Some (RStr (BInt (upd_seq u)))
    \<and> driver_at R (srv w') i (fst u) (fst (snd u))"
  by (rule redis_service.apply_updates_newest [OF assms])

theorem ApplyLocation_any_order_witness:
  "let w' = snd (run_state (apply_updates ref_redis one_cell ''d1''
       [(Fin 1, Fin 1, 7, 0), (Fin 2, Fin 2, 9, 0), (Fin 3, Fin 3, 8, 0)]) demo_world)
   in view ref_redis (srv w') (DriverSeqKey ''d1'') = Some (RStr (BInt 9))
      \<and> driver_at ref_redis (srv w') ''d1'' (Fin 2) (Fin 2)"
proof -
  have "seq_fresh (view ref_redis (srv demo_world) (DriverSeqKey ''d1'')) (upd_seq (Fin 2, Fin 2, 9, 0))"
    by (simp add: seq_fresh_def upd_seq_def round53_id)
  from ApplyLocation_any_order [OF ref.redis_service_axioms demo_world_simps(2) _ _ _ _ _ this,
      of "[(Fin 1, Fin 1, 7, 0), (Fin 2, Fin 2, 9, 0), (Fin 3, Fin 3, 8, 0)]" one_cell]
  show ?thesis by (simp add: upd_ok_def upd_seq_def geo_ok_def)
qed

text \<open>
  The guard compares 64-bit sequence numbers as 53-bit Lua numbers: after \<open>2 ^ 53\<close> the
  strictly newer \<open>2 ^ 53 + 1\<close> is rejected as a duplicate.
\<close>

theorem ApplyLocation_loses_precision:
  assumes "redis_service R" and "fates w = []"
    and "geo_CellKey H lat lng DefaultResolution = Inr cell" and "loc_ok R (srv w) i"
    and "view R (srv w) (DriverSeqKey i) = Some (RStr (BInt (2 ^ 53)))"
  shows "run_state (Store_ApplyLocation R H i lat lng (2 ^ 53 + 1) ts) w = (Inr False, w)"
proof -
  have "\<not> seq_fresh (view R (srv w) (DriverSeqKey i)) (2 ^ 53 + 1)"
    using round53_tie by (simp add: assms(5) seq_fresh_def)
  then show ?thesis by (rule redis_service.ApplyLocation_stale [OF assms(1-4)])
qed

definition big_world :: "ref world" where
  "big_world = \<lparr> srv = demo(DriverSeqKey ''d1'' \<mapsto> (VStr (BInt (2 ^ 53)), Some 3600000)), fates = [] \<rparr>"

lemma big_world_ok:
  "loc_ok ref_redis (srv big_world) ''d1''" "fates big_world = []"
  "view ref_redis (srv big_world) (DriverSeqKey ''d1'') = Some (RStr (BInt (2 ^ 53)))"
proof -
  have "ref_view (srv big_world) k = (if k = DriverSeqKey ''d1'' then Some (RStr (BInt (2 ^ 53)))
      else ref_view demo k)" for k
    by (simp add: big_world_def ref_view_def ref_live_def)
  then show "loc_ok ref_redis (srv big_world) ''d1''"
    "view ref_redis (srv big_world) (DriverSeqKey ''d1'') = Some (RStr (BInt (2 ^ 53)))"
    using demo_loc_ok by (simp_all add: loc_ok_def)
qed (simp add: big_world_def)

theorem ApplyLocation_loses_precision_witness:
  "run_state (Store_ApplyLocation ref_redis one_cell ''d1'' (Fin 1) (Fin 2) (2 ^ 53 + 1) 0) big_world
     = (Inr False, big_world)"
  by (rule ApplyLocation_loses_precision [OF ref.redis_service_axioms big_world_ok(2) one_cell_key
        big_world_ok(1,3)])

section \<open>The index and reading a position back\<close>

text \<open>
  C12. An update of one driver keeps the index invariant of every driver: each driver with a
  position stays in the set of the cell of that position, which is what the completeness of the
  search rests on.
\<close>

theorem ApplyLocation_keeps_index:
  assumes "redis_service R" and "fates w = []"
    and "LatLngToCell H lat lng DefaultResolution = Some c" and "loc_ok R (srv w) i"
    and "\<forall>j. indexed R H (srv w) j"
  shows "\<forall>j. indexed R H (srv (snd (run_state (Store_ApplyLocation R H i lat lng seq ts) w))) j"
proof (cases "seq_fresh (view R (srv w) (DriverSeqKey i)) seq")
  case False
  have cell: "geo_CellKey H lat lng DefaultResolution = Inr (cell_String H c)"
    by (simp add: geo_CellKey_def assms(3))
  from redis_service.ApplyLocation_stale [OF assms(1,2) cell assms(4) False] assms(5) show ?thesis
    by simp
next
  case True
  have cell: "geo_CellKey H lat lng DefaultResolution = Inr (cell_String H c)"
    by (simp add: geo_CellKey_def assms(3))
  obtain w1 where w1: "run_state (Store_ApplyLocation R H i lat lng seq ts) w =
      (if geo_ok lng lat then Inr True else Inl (ERedis InvalidCoords), w1)"
    "view R (srv w1) (DriverLocKey i) =
       Some (RHash (hset (hash_or_empty (view R (srv w) (DriverLocKey i)))
         (loc_fields lat lng (cell_String H c) seq ts)))"
    "\<And>c'. set_or_empty (view R (srv w1) (CellKey c')) =
       (if c' = cell_String H c then insert i (set_or_empty (view R (srv w) (CellKey c')))
        else if c' = from_cell R (srv w) i (cell_String H c) then set_or_empty (view R (srv w) (CellKey c')) - {i}
        else set_or_empty (view R (srv w) (CellKey c')))"
    "\<And>k. k \<notin> {DriverSeqKey i, DriverLocKey i, GeoKey} \<union> range CellKey \<Longrightarrow> view R (srv w1) k = view R (srv w) k"
    by (rule redis_service.ApplyLocation_fresh [OF assms(1,2) cell assms(4) True, of ts]) (rule that)
  have "indexed R H (srv w1) j" for j
  proof (cases "j = i")
    case True
    then show ?thesis using w1(3) by (simp add: indexed_def driver_at_fields [OF w1(2)] assms(3))
  next
    case False
    then have "driver_at R (srv w1) j a b \<longleftrightarrow> driver_at R (srv w) j a b" for a b
      using w1(4) [of "DriverLocKey j"] by (simp add: driver_at_def image_iff)
    moreover have "j \<in> set_or_empty (view R (srv w1) (CellKey c')) \<longleftrightarrow>
        j \<in> set_or_empty (view R (srv w) (CellKey c'))" for c'
      using False by (simp add: w1(3))
    ultimately show ?thesis using assms(5) by (simp add: indexed_def)
  qed
  then show ?thesis by (simp add: w1(1))
qed

lemma demo_indexed: "indexed ref_redis one_cell demo j"
proof (cases "j = ''d1''")
  case False
  then have "ref_view demo (DriverLocKey j) = None"
    by (simp add: demo_def ref_view_def ref_live_def)
  then show ?thesis by (simp add: indexed_def driver_at_def)
qed simp

theorem ApplyLocation_keeps_index_witness:
  "\<forall>j. indexed ref_redis one_cell
     (srv (snd (run_state (Store_ApplyLocation ref_redis one_cell ''d1'' (Fin 1) (Fin 2) 5 0) demo_world))) j"
  by (rule ApplyLocation_keeps_index [OF ref.redis_service_axioms, where c = "()"])
    (simp_all add: one_cell_def [THEN arg_cong [where f = LatLngToCell]] demo_indexed)

text \<open>
  C30. Reading back: after an applied update, \<^verbatim>\<open>GetLocation\<close> returns exactly the position, cell,
  sequence number and time of the update, with the driver's state.
\<close>

theorem GetLocation_after_ApplyLocation:
  assumes "redis_service R" and "fates w = []"
    and "geo_CellKey H lat lng DefaultResolution = Inr cell" and "loc_ok R (srv w) i"
    and "run_state (Store_ApplyLocation R H i lat lng seq ts) w = (Inr True, w')"
    and "\<bar>seq\<bar> < 2 ^ 63" and "\<bar>ts\<bar> < 2 ^ 63"
  shows "\<exists>p. run_state (Store_GetLocation R i) w' = (Inr (Some p), w')
    \<and> pos_ID p = i \<and> pos_Lat p = lat \<and> pos_Lng p = lng \<and> pos_Cell p = cell
    \<and> pos_Seq p = seq \<and> pos_Ts p = ts
    \<and> (pos_State p = ''AVAILABLE'' \<longleftrightarrow> driver_available R (srv w') i)"
proof (cases "seq_fresh (view R (srv w) (DriverSeqKey i)) seq")
  case False
  with redis_service.ApplyLocation_stale [OF assms(1-4) False, of ts] assms(5) show ?thesis by simp
next
  case True
  obtain w1 where w1: "run_state (Store_ApplyLocation R H i lat lng seq ts) w =
       (if geo_ok lng lat then Inr True else Inl (ERedis InvalidCoords), w1)" "fates w1 = []"
    "view R (srv w1) (DriverLocKey i) =
       Some (RHash (hset (hash_or_empty (view R (srv w) (DriverLocKey i))) (loc_fields lat lng cell seq ts)))"
    by (rule redis_service.ApplyLocation_fresh [OF assms(1-4) True, of ts]) (rule that)
  then have "w' = w1" using assms(5) by (simp split: if_splits)
  obtain fs where fs: "rHGETALL R (srv w1) (DriverLocKey i) = Inr fs" "fs \<noteq> []"
    "map_of fs = hset (hash_or_empty (view R (srv w) (DriverLocKey i))) (loc_fields lat lng cell seq ts)"
    using redis_service.HGETALL_hash [OF assms(1) w1(3)] by metis
  have run: "run_state (Store_GetLocation R i) w1 = (Inr (Some \<lparr> pos_ID = i,
       pos_Lat = ParseFloat (map_of fs ''lat''), pos_Lng = ParseFloat (map_of fs ''lng''),
       pos_Cell = hget_text R (Inr (map_of fs ''cell'')),
       pos_Seq = ParseInt (map_of fs ''seq''), pos_Ts = ParseInt (map_of fs ''ts''),
       pos_State = hget_text R (rHGET R (srv w1) (DriverKey i) ''state''),
       pos_Rating = ParseFloat (hget_val (rHGET R (srv w1) (DriverKey i) ''rating'')),
       pos_DistM = Fin 0 \<rparr>), w1)"
    using fs(1,2) w1(2) by (cases fs) (simp_all add: Store_GetLocation_def Let_def)
  have vals: "ParseFloat (map_of fs ''lat'') = lat" "ParseFloat (map_of fs ''lng'') = lng"
    "hget_text R (Inr (map_of fs ''cell'')) = cell"
    "ParseInt (map_of fs ''seq'') = seq" "ParseInt (map_of fs ''ts'') = ts"
    using assms(6,7) by (simp_all add: fs(3) loc_fields_def ParseFloat_def ParseInt_def
        hget_text_def bulk_text_def)
  show ?thesis
    using run redis_service.state_text [OF assms(1), of "srv w1" i]
    by (simp add: \<open>w' = w1\<close> vals)
qed

theorem GetLocation_after_ApplyLocation_witness:
  "\<exists>w' p. run_state (Store_ApplyLocation ref_redis one_cell ''d1'' (Fin 1) (Fin 2) 5 9) demo_world = (Inr True, w')
     \<and> run_state (Store_GetLocation ref_redis ''d1'') w' = (Inr (Some p), w')
     \<and> pos_Lat p = Fin 1 \<and> pos_Seq p = 5 \<and> pos_Ts p = 9"
proof -
  have fresh: "seq_fresh (view ref_redis (srv demo_world) (DriverSeqKey ''d1'')) 5"
    and "geo_ok (Fin 2) (Fin 1)" and "loc_ok ref_redis (srv demo_world) ''d1''"
    by (simp_all add: seq_fresh_def geo_ok_def round53_id)
  then have geo: "(if geo_ok (Fin 2) (Fin 1) then Inr True else Inl (ERedis InvalidCoords)) = Inr True"
    by simp
  obtain w' where run: "run_state (Store_ApplyLocation ref_redis one_cell ''d1'' (Fin 1) (Fin 2) 5 9) demo_world
      = (Inr True, w')"
    by (rule ref.ApplyLocation_fresh [OF demo_world_simps(2) one_cell_key _ fresh, of "Fin 1" "Fin 2" 9])
      (simp, rule that, simp only: geo)
  from GetLocation_after_ApplyLocation [OF ref.redis_service_axioms demo_world_simps(2) one_cell_key _ run] run
  show ?thesis by auto
qed

end
