(* ===== verification/Reservation.thy ===== *)
theory Reservation
  imports Nearby
begin

text \<open>
  \<^verbatim>\<open>internal/reservation\<close>: the no-double-booking primitive. \<open>Manager_Reserve\<close>, the renewal loop
  and \<open>Reservation_Release\<close> are the operations of one manager; a manager's version counter is
  passed explicitly, so that several managers can share one server. The cluster relation
  \<open>cl_step\<close> interleaves the atomic scripts of any number of managers, lost answers, the passage
  of time and the writes of the other components, and the lease is shown to exclude on every
  reachable state.
\<close>

record Manager =
  m_ttl :: int
  m_renew :: int
  m_version :: "64 word"

definition NewManager :: "int \<Rightarrow> int \<Rightarrow> Manager" where
  "NewManager ttl renew = \<lparr> m_ttl = ttl, m_renew = renew, m_version = 0 \<rparr>"

record Reservation =
  r_DriverID :: string
  r_RideID :: string
  r_Lease :: LeaseValue

datatype resv_err = ErrToken | ErrStore go_err | ErrConflict | ErrNotAvailable

text \<open>\<^verbatim>\<open>hex.EncodeToString\<close>, and the token of eight random bytes; \<open>None\<close> is a failing source.\<close>

definition hex_digit :: "nat \<Rightarrow> char" where
  "hex_digit n = (if n < 10 then char_of (48 + n) else char_of (87 + n))"

definition EncodeToString :: "8 word list \<Rightarrow> string" where
  "EncodeToString bs = concat (map (\<lambda>b. [hex_digit (unat b div 16), hex_digit (unat b mod 16)]) bs)"

definition randomToken :: "8 word list option \<Rightarrow> string option" where
  "randomToken rnd = map_option EncodeToString rnd"

definition Manager_Reserve ::
  "'s redis \<Rightarrow> 8 word list option \<Rightarrow> string \<Rightarrow> string \<Rightarrow> Manager
   \<Rightarrow> (('s, 'm) world_scheme, (resv_err + Reservation) \<times> Manager) state"
where
  "Manager_Reserve R rnd driverID rideID m =
     (case randomToken rnd of
        None \<Rightarrow> State_Monad.return (Inl ErrToken, m)
      | Some token \<Rightarrow>
          let v = m_version m + 1; m = m\<lparr>m_version := v\<rparr>;
              lv = \<lparr> RideID = rideID, Token = token, Version = v \<rparr>
          in do {
            (res, err) \<leftarrow> Store_Reserve R driverID rideID lv (m_ttl m);
            State_Monad.return (case err of
                Some e \<Rightarrow> (Inl (ErrStore e), m)
              | None \<Rightarrow> (case res of
                  Reserved \<Rightarrow> (Inr \<lparr> r_DriverID = driverID, r_RideID = rideID, r_Lease = lv \<rparr>, m)
                | Conflict \<Rightarrow> (Inl ErrConflict, m)
                | NotAvailable \<Rightarrow> (Inl ErrNotAvailable, m))) })"

text \<open>The renewal loop on the events its \<^verbatim>\<open>select\<close> receives; the result says whether it still runs.\<close>

datatype renew_event = CtxDone | Tick

fun renewLoop ::
  "'s redis \<Rightarrow> Manager \<Rightarrow> Reservation \<Rightarrow> renew_event list \<Rightarrow> (('s, 'm) world_scheme, bool) state"
where
  "renewLoop R m r [] = State_Monad.return True"
| "renewLoop R m r (CtxDone # evs) = State_Monad.return False"
| "renewLoop R m r (Tick # evs) = do {
     (_, err) \<leftarrow> Store_Reserve R (r_DriverID r) (r_RideID r) (r_Lease r) (m_ttl m);
     case err of
       Some _ \<Rightarrow> State_Monad.return False
     | None \<Rightarrow> renewLoop R m r evs }"

text \<open>\<^verbatim>\<open>Release\<close>: the loop has been cancelled and waited for before the script runs.\<close>

definition Reservation_Release ::
  "'s redis \<Rightarrow> Reservation \<Rightarrow> (('s, 'm) world_scheme, go_err option) state" where
  "Reservation_Release R r = do {
     x \<leftarrow> Store_Release R (r_DriverID r) (r_Lease r) ''AVAILABLE'';
     State_Monad.return (case x of Inl e \<Rightarrow> Some e | Inr ok \<Rightarrow> None) }"

section \<open>Lease values\<close>

lemma hex_digit_plain: "n < 16 \<Longrightarrow> hex_digit n \<noteq> CHR '':''"
proof
  assume n: "n < 16" and eq: "hex_digit n = CHR '':''"
  have "of_char (hex_digit n) = (if n < 10 then 48 + n else 87 + n)"
    using n by (simp add: hex_digit_def)
  moreover have "of_char (hex_digit n) = (58 :: nat)" by (simp add: eq)
  ultimately show False using n by (simp split: if_splits)
qed

lemma EncodeToString_plain: "plain (EncodeToString bs)"
proof -
  have "unat b div 16 < 16" for b :: "8 word"
  proof -
    have "unat b < 2 ^ LENGTH(8)" by (rule unsigned_less)
    then show ?thesis by (simp add: less_mult_imp_div_less)
  qed
  then have "hex_digit (unat b div 16) \<noteq> CHR '':''" "hex_digit (unat b mod 16) \<noteq> CHR '':''" for b :: "8 word"
    by (simp_all add: hex_digit_plain)
  then show ?thesis
    by (auto simp: plain_def EncodeToString_def dest: sym)
qed

text \<open>Everything the Go caller can see of one reservation attempt, in terms of the script.\<close>

lemma Store_Reserve_run:
  "fates w = [] \<Longrightarrow> run_state (Store_Reserve R d ride lv ttl) w =
     (let p = reserveScript R (DriverLeaseKey d) (DriverKey d) ride (LeaseValue_String lv) (ttl_seconds ttl) (srv w)
      in (case fst p of
            Inl e \<Rightarrow> (NotAvailable, Some (ERedis e))
          | Inr res \<Rightarrow> (if res = 1 then Reserved else if res = 0 then Conflict else NotAvailable, None),
          w\<lparr>srv := snd p\<rparr>))"
  by (simp add: Store_Reserve_def Let_def)

lemma Store_Release_run:
  "fates w = [] \<Longrightarrow> run_state (Store_Release R d lv target) w =
     (let p = releaseScript R (DriverLeaseKey d) (DriverKey d) (LeaseValue_String lv) target (srv w)
      in (case fst p of Inl e \<Rightarrow> Inl (ERedis e) | Inr res \<Rightarrow> Inr (res = 1), w\<lparr>srv := snd p\<rparr>))"
  by (simp add: Store_Release_def Let_def)

text \<open>The lease of a driver, as the server holds it.\<close>

definition holds :: "'s redis \<Rightarrow> 's \<Rightarrow> string \<Rightarrow> LeaseValue \<Rightarrow> bool" where
  "holds R st d lv \<longleftrightarrow> view R st (DriverLeaseKey d) = Some (RStr (BStr (LeaseValue_String lv)))"

text \<open>The lease on the server names the ride: its text parses to a lease of this ride.\<close>

definition leased_for :: "'s redis \<Rightarrow> 's \<Rightarrow> string \<Rightarrow> string \<Rightarrow> bool" where
  "leased_for R st d ride \<longleftrightarrow> (\<exists>s lv. view R st (DriverLeaseKey d) = Some (RStr (BStr s))
     \<and> ParseLeaseValue s = Inr lv \<and> RideID lv = ride)"

lemma holds_leased_for: "holds R st d lv \<Longrightarrow> plain_lease lv \<Longrightarrow> leased_for R st d (RideID lv)"
  using lease_parses by (auto simp: holds_def leased_for_def)

definition lease_free :: "'s redis \<Rightarrow> 's \<Rightarrow> string \<Rightarrow> bool" where
  "lease_free R st d \<longleftrightarrow> view R st (DriverLeaseKey d) = None"

text \<open>A free driver: no lease, and a profile whose state is \<^verbatim>\<open>AVAILABLE\<close>, or \<^verbatim>\<open>RESERVED\<close> left behind
  by a lease that expired.\<close>

definition reservable :: "'s redis \<Rightarrow> 's \<Rightarrow> string \<Rightarrow> bool" where
  "reservable R st d \<longleftrightarrow> lease_free R st d \<and> (\<exists>h. view R st (DriverKey d) = Some (RHash h)
     \<and> h ''state'' \<in> {Some (BStr ''AVAILABLE''), Some (BStr ''RESERVED'')})"

context redis_service
begin

lemma Reserve_free:
  assumes "fates w = []" and "reservable R (srv w) d" and "plain d" and "10 ^ 9 \<le> ttl"
  obtains w' h where "run_state (Store_Reserve R d ride lv ttl) w = ((Reserved, None), w')"
    "fates w' = []" "holds R (srv w') d lv" "pttl R (srv w') (DriverLeaseKey d) = Some (1000 * ttl_seconds ttl)"
    "view R (srv w') (DriverKey d) = Some (RHash (h(''state'' \<mapsto> BStr ''RESERVED'', ''reserved_ride'' \<mapsto> BStr ride)))"
    "view R (srv w) (DriverKey d) = Some (RHash h)"
    "\<And>k. k \<notin> {DriverLeaseKey d, DriverKey d} \<Longrightarrow> view R (srv w') k = view R (srv w) k"
proof -
  obtain h where h: "view R (srv w) (DriverLeaseKey d) = None" "view R (srv w) (DriverKey d) = Some (RHash h)"
    "h ''state'' \<in> {Some (BStr ''AVAILABLE''), Some (BStr ''RESERVED'')}"
    using assms(2) by (auto simp: reservable_def lease_free_def)
  have t: "0 < ttl_seconds ttl" using assms(4) by (auto simp: ttl_seconds_def)
  have ne: "DriverLeaseKey d \<noteq> DriverKey d" using assms(3) by simp
  note acq = reserve_acquire [OF h t ne, of ride "LeaseValue_String lv"]
  show thesis
    by (rule that [of "w\<lparr>srv := snd (reserveScript R (DriverLeaseKey d) (DriverKey d) ride
          (LeaseValue_String lv) (ttl_seconds ttl) (srv w))\<rparr>" h])
      (use assms(1) h(2) ne in \<open>simp_all add: Store_Reserve_run acq Let_def holds_def\<close>)
qed

lemma Reserve_taken:
  assumes "fates w = []" and "holds R (srv w) d a" and "LeaseValue_String b \<noteq> LeaseValue_String a"
  shows "run_state (Store_Reserve R d ride b ttl) w = ((Conflict, None), w)"
  using assms by (simp add: Store_Reserve_run holds_def reserve_conflict Let_def)

lemma Reserve_renew:
  assumes "fates w = []" and "holds R (srv w) d lv" and "10 ^ 9 \<le> ttl"
  obtains w' where "run_state (Store_Reserve R d ride lv ttl) w = ((Reserved, None), w')"
    "fates w' = []" "view R (srv w') = view R (srv w)"
    "pttl R (srv w') = (pttl R (srv w))(DriverLeaseKey d \<mapsto> 1000 * ttl_seconds ttl)"
proof -
  have t: "0 < ttl_seconds ttl" using assms(3) by (auto simp: ttl_seconds_def)
  note ren = reserve_renew [OF assms(2) [unfolded holds_def] t, of "DriverKey d" ride]
  show thesis
    by (rule that [of "w\<lparr>srv := snd (reserveScript R (DriverLeaseKey d) (DriverKey d) ride
          (LeaseValue_String lv) (ttl_seconds ttl) (srv w))\<rparr>"])
      (use assms(1) in \<open>simp_all add: Store_Reserve_run ren Let_def\<close>)
qed

end

section \<open>A race for one driver\<close>

text \<open>Any number of engines try to reserve the same driver, in the order the server runs them.\<close>

fun race ::
  "'s redis \<Rightarrow> string \<Rightarrow> int \<Rightarrow> (string \<times> LeaseValue) list
   \<Rightarrow> (('s, 'm) world_scheme, (ReserveResult \<times> go_err option) list) state"
where
  "race R d ttl [] = State_Monad.return []"
| "race R d ttl ((ride, lv) # rs) = do {
     x \<leftarrow> Store_Reserve R d ride lv ttl;
     xs \<leftarrow> race R d ttl rs;
     State_Monad.return (x # xs) }"

lemma race_losers:
  assumes "redis_service R" and "fates w = []" and "holds R (srv w) d lv"
    and "\<forall>(ride, b) \<in> set rs. LeaseValue_String b \<noteq> LeaseValue_String lv"
  shows "run_state (race R d ttl rs) w = (map (\<lambda>_. (Conflict, None)) rs, w)"
  using assms(4)
  by (induction rs) (auto simp: redis_service.Reserve_taken [OF assms(1-3)])

text \<open>
  C2. No double booking under a race: when any number of engines with pairwise different lease
  values try to reserve a free driver, exactly one wins, the one whose script runs first; every
  other attempt is a conflict, and the winner's lease is what the server holds.
\<close>

theorem reserve_race_one_winner:
  assumes "redis_service R" and "fates w = []" and "reservable R (srv w) d" and "plain d"
    and "10 ^ 9 \<le> ttl" and "\<forall>r \<in> set ((ride, lv) # rs). plain_lease (snd r)"
    and "distinct (map snd ((ride, lv) # rs))"
  shows "\<exists>w'. run_state (race R d ttl ((ride, lv) # rs)) w
      = ((Reserved, None) # map (\<lambda>_. (Conflict, None)) rs, w') \<and> holds R (srv w') d lv"
proof -
  obtain w1 where w1: "run_state (Store_Reserve R d ride lv ttl) w = ((Reserved, None), w1)"
    "fates w1 = []" "holds R (srv w1) d lv"
    by (rule redis_service.Reserve_free [OF assms(1-5)]) (rule that)
  have "LeaseValue_String b \<noteq> LeaseValue_String lv" if "(x, b) \<in> set rs" for x b
    using that assms(6,7) LeaseValue_String_inject [of b lv] by force
  then have "run_state (race R d ttl rs) w1 = (map (\<lambda>_. (Conflict, None)) rs, w1)"
    by (intro race_losers [OF assms(1) w1(2,3)]) auto
  with w1 show ?thesis by auto
qed

section \<open>Operations that leave the leases alone\<close>

definition leases_same :: "'s redis \<Rightarrow> 's \<Rightarrow> 's \<Rightarrow> bool" where
  "leases_same R st st' \<longleftrightarrow> (\<forall>d. view R st' (DriverLeaseKey d) = view R st (DriverLeaseKey d)
     \<and> pttl R st' (DriverLeaseKey d) = pttl R st (DriverLeaseKey d))"

definition keeps_leases :: "'s redis \<Rightarrow> (('s, 'm) world_scheme, 'a) state \<Rightarrow> bool" where
  "keeps_leases R m \<longleftrightarrow> (\<forall>w. leases_same R (srv w) (srv (snd (run_state m w))))"

named_theorems lease_frame \<open>commands and operations that leave every lease as it is\<close>

lemma leases_same_refl [simp]: "leases_same R st st"
  by (simp add: leases_same_def)

lemma leases_same_trans: "leases_same R a b \<Longrightarrow> leases_same R b c \<Longrightarrow> leases_same R a c"
  by (simp add: leases_same_def)

lemma leases_same_call:
  "leases_same R st (snd p) \<Longrightarrow> (\<And>s. leases_same R st s \<Longrightarrow> leases_same R st (snd (k s)))
     \<Longrightarrow> leases_same R st (snd (redis_call p k))"
  by (simp add: redis_call_def split: option.splits)

lemma leases_same_tx:
  "(\<And>c st. c \<in> set cs \<Longrightarrow> leases_same R st (snd (c st))) \<Longrightarrow> leases_same R st (snd (tx cs st))"
  by (induction cs arbitrary: st) (auto simp: split_beta Let_def intro: leases_same_trans)

lemma keeps_leases_return [lease_frame]: "keeps_leases R (State_Monad.return x)"
  by (simp add: keeps_leases_def)

lemma keeps_leases_bind [lease_frame]:
  "keeps_leases R m \<Longrightarrow> (\<And>x. keeps_leases R (f x)) \<Longrightarrow> keeps_leases R (m \<bind> f)"
  by (auto simp: keeps_leases_def split_beta intro: leases_same_trans)

lemma keeps_leases_reads: "reads_only m \<Longrightarrow> keeps_leases R m"
  by (simp add: keeps_leases_def reads_onlyD leases_same_def)

lemma keeps_leases_rread [lease_frame]: "keeps_leases R (rread c)"
  by (intro keeps_leases_reads reads_only_rread)

lemma keeps_leases_rdo [lease_frame]:
  assumes "\<And>st. leases_same R st (snd (c st))"
  shows "keeps_leases R (rdo c)"
  unfolding keeps_leases_def
proof
  fix w
  show "leases_same R (srv w) (srv (snd (run_state (rdo c) w)))"
    by (rule rdo_cases [of c w]) (use assms in auto)
qed

lemma keeps_leases_rwrite [lease_frame]:
  assumes "\<And>st. leases_same R st (snd (c st))"
  shows "keeps_leases R (rwrite c)"
proof -
  have "leases_same R st (snd (case c st of (Some e, st') \<Rightarrow> (Inl e, st') | (None, st') \<Rightarrow> (Inr (), st')))" for st
    using assms [of st] by (auto split: prod.splits option.splits)
  then show ?thesis
    unfolding rwrite_def by (intro keeps_leases_bind keeps_leases_rdo keeps_leases_return)
qed

context redis_service
begin

text \<open>Writes to a key that is no lease key.\<close>

lemma leases_same_writes:
  assumes "leases_same R st s" and "\<And>d. k \<noteq> DriverLeaseKey d"
  shows "fs \<noteq> [] \<Longrightarrow> leases_same R st (snd (rHSET R k fs s))"
    and "leases_same R st (snd (rSETEX R k v n s))"
    and "leases_same R st (rPEXPIRE R k n s)"
    and "leases_same R st (snd (rSADD R k x s))"
    and "leases_same R st (snd (rSREM R k x s))"
    and "leases_same R st (snd (rGEOADD R k lng lat x s))"
  using assms by (auto simp: leases_same_def redis_laws)

lemma leases_same_apply:
  "leases_same R st (snd (applyLocationScript R (DriverSeqKey i) (DriverLocKey i) (CellKey a) (CellKey b)
      GeoKey n lat lng cell ts ttl i st))"
proof -
  have "leases_same R st (snd (redis_call (rSETEX R (DriverSeqKey i) (BInt n) 3600 st) (\<lambda>st.
        redis_call (rHSET R (DriverLocKey i) [(''lat'', BFloat lat), (''lng'', BFloat lng), (''cell'', BStr cell),
                                  (''seq'', BInt n), (''ts'', BInt ts)] st) (\<lambda>st.
        redis_call (if CellKey a \<noteq> CellKey b then rSREM R (CellKey a) i (rPEXPIRE R (DriverLocKey i) (1000 * ttl) st)
                    else (None, rPEXPIRE R (DriverLocKey i) (1000 * ttl) st)) (\<lambda>st.
        redis_call (rSADD R (CellKey b) i st) (\<lambda>st.
        redis_call (rGEOADD R GeoKey lng lat i st) (\<lambda>st.
        (Inr 1, st))))))))"
    by (intro leases_same_call) (auto intro!: leases_same_writes)
  then show ?thesis
    by (auto simp: applyLocationScript_def redis_read_def Let_def split: sum.splits option.splits)
qed

lemma leases_same_bucket:
  "leases_same R st (snd (tokenBucketScript R (RateLimitKey scope i) cap refill now req ttl st))"
  unfolding tokenBucketScript_def redis_read_def Let_def
  by (auto intro!: leases_same_call leases_same_writes split: sum.splits option.splits prod.splits)

lemma keeps_leases_Store [lease_frame]:
  "keeps_leases R (Store_ApplyLocation R H i lat lng seq ts)"
  "plain i \<Longrightarrow> keeps_leases R (InitDriver R H now i name st rating lat lng)"
  "plain i \<Longrightarrow> keeps_leases R (SetState R i st)"
  "fs \<noteq> [] \<Longrightarrow> keeps_leases R (SetRide R i fs ttl)"
  "keeps_leases R (RateAllow R now scope i cap refill req)"
  unfolding Store_ApplyLocation_def InitDriver_def SetState_def SetRide_def RateAllow_def Let_def
  by (auto intro!: lease_frame leases_same_apply leases_same_bucket leases_same_tx
      leases_same_writes split: sum.splits)

end

section \<open>The cluster\<close>

text \<open>
  The server shared by all engines, and who believes to hold which driver: \<open>held d lv = Some t\<close>
  when the engine that was told \<^verbatim>\<open>Reserved\<close> for the lease value \<open>lv\<close> still counts \<open>t\<close> milliseconds
  of its term. An engine that got no answer does not count itself a holder, whatever the
  server did. All managers use the same term of \<open>T\<close> seconds.
\<close>

record 's cluster =
  cl_srv :: 's
  held :: "string \<Rightarrow> string \<rightharpoonup> int"

definition reserve_at :: "'s redis \<Rightarrow> int \<Rightarrow> string \<Rightarrow> string \<Rightarrow> string \<Rightarrow> 's \<Rightarrow> (rerr + int) \<times> 's" where
  "reserve_at R T d ride lv = reserveScript R (DriverLeaseKey d) (DriverKey d) ride lv T"

definition release_at :: "'s redis \<Rightarrow> string \<Rightarrow> string \<Rightarrow> string \<Rightarrow> 's \<Rightarrow> (rerr + int) \<times> 's" where
  "release_at R d lv target = releaseScript R (DriverLeaseKey d) (DriverKey d) lv target"

definition count_down :: "nat \<Rightarrow> (string \<Rightarrow> string \<rightharpoonup> int) \<Rightarrow> string \<Rightarrow> string \<rightharpoonup> int" where
  "count_down n h d lv = (case h d lv of
       Some t \<Rightarrow> if int n < t then Some (t - int n) else None
     | None \<Rightarrow> None)"

inductive cl_step :: "'s redis \<Rightarrow> int \<Rightarrow> 's cluster \<Rightarrow> 's cluster \<Rightarrow> bool" for R T where
  won: "\<lbrakk> plain d; fst (reserve_at R T d ride lv (cl_srv s)) = Inr 1 \<rbrakk> \<Longrightarrow>
    cl_step R T s (s\<lparr>cl_srv := snd (reserve_at R T d ride lv (cl_srv s)),
                    held := (held s)(d := (held s d)(lv \<mapsto> 1000 * T))\<rparr>)"
| refused_or_lost: "plain d \<Longrightarrow>
    cl_step R T s (s\<lparr>cl_srv := snd (reserve_at R T d ride lv (cl_srv s))\<rparr>)"
| release: "plain d \<Longrightarrow>
    cl_step R T s (s\<lparr>cl_srv := snd (release_at R d lv target (cl_srv s)),
                    held := (held s)(d := (held s d)(lv := None))\<rparr>)"
| pass: "cl_step R T s (s\<lparr>cl_srv := elapse R n (cl_srv s), held := count_down n (held s)\<rparr>)"
| other: "leases_same R (cl_srv s) st' \<Longrightarrow> cl_step R T s (s\<lparr>cl_srv := st'\<rparr>)"

inductive cl_reach :: "'s redis \<Rightarrow> int \<Rightarrow> 's cluster \<Rightarrow> bool" for R T where
  start: "cl_reach R T \<lparr> cl_srv = st, held = \<lambda>_. Map.empty \<rparr>"
| step: "cl_reach R T s \<Longrightarrow> cl_step R T s s' \<Longrightarrow> cl_reach R T s'"

text \<open>The server holds the lease for at least the term its holder counts.\<close>

definition lease_live :: "'s redis \<Rightarrow> int \<Rightarrow> 's \<Rightarrow> string \<Rightarrow> string \<Rightarrow> int \<Rightarrow> bool" where
  "lease_live R T st d lv t \<longleftrightarrow> 0 < t \<and> t \<le> 1000 * T
     \<and> view R st (DriverLeaseKey d) = Some (RStr (BStr lv))
     \<and> (\<exists>p. pttl R st (DriverLeaseKey d) = Some p \<and> t \<le> p)"

definition cl_inv :: "'s redis \<Rightarrow> int \<Rightarrow> 's cluster \<Rightarrow> bool" where
  "cl_inv R T s \<longleftrightarrow> (\<forall>d lv t. held s d lv = Some t \<longrightarrow> lease_live R T (cl_srv s) d lv t)"

context redis_service
begin

text \<open>What an attempt of any engine leaves of a lease that is held: the value, and at least the
  term that was left.\<close>

lemma reserve_at_keeps:
  assumes "plain d'" and "0 < T" and "lease_live R T st d lv t"
  shows "lease_live R T (snd (reserve_at R T d' ride lv' st)) d lv t"
proof (cases "d' = d")
  case False
  then show ?thesis
    using assms reserve_frame [of "DriverLeaseKey d" "DriverLeaseKey d'" "DriverKey d'"]
    by (simp add: reserve_at_def lease_live_def)
next
  case True
  have v: "view R st (DriverLeaseKey d) = Some (RStr (BStr lv))"
    using assms(3) by (simp add: lease_live_def)
  show ?thesis
    using assms True reserve_renew [OF v, of T] reserve_conflict [OF v, of lv' _ ride T]
    by (cases "lv' = lv") (simp_all add: reserve_at_def lease_live_def)
qed

lemma release_at_keeps:
  assumes "plain d'" and "d' \<noteq> d \<or> lv' \<noteq> lv" and "lease_live R T st d lv t"
  shows "lease_live R T (snd (release_at R d' lv' target st)) d lv t"
proof (cases "d' = d")
  case False
  then show ?thesis
    using assms release_frame [of "DriverLeaseKey d" "DriverLeaseKey d'" "DriverKey d'"]
    by (simp add: release_at_def lease_live_def)
next
  case True
  then show ?thesis
    using assms release_foreign [of st "DriverLeaseKey d" lv']
    by (simp add: release_at_def lease_live_def)
qed

lemma elapse_keeps:
  assumes "lease_live R T st d lv t" and "int n < t"
  shows "lease_live R T (elapse R n st) d lv (t - int n)"
  using assms by (auto simp: lease_live_def redis_laws)

lemma reserve_at_won:
  assumes "plain d" and "0 < T" and "fst (reserve_at R T d ride lv st) = Inr 1"
  shows "lease_live R T (snd (reserve_at R T d ride lv st)) d lv (1000 * T)"
  using assms reserve_won [of "DriverLeaseKey d" "DriverKey d" ride lv T st]
  by (simp add: reserve_at_def lease_live_def)

lemma cl_step_inv:
  assumes "cl_step R T s s'" and "cl_inv R T s" and "0 < T"
  shows "cl_inv R T s'"
  unfolding cl_inv_def
proof (intro allI impI)
  fix d lv t
  assume h: "held s' d lv = Some t"
  have inv: "lease_live R T (cl_srv s) d lv u" if "held s d lv = Some u" for u
    using that assms(2) by (simp add: cl_inv_def)
  from assms(1) show "lease_live R T (cl_srv s') d lv t"
  proof cases
    case (won d' ride lv')
    show ?thesis
    proof (cases "d' = d \<and> lv' = lv")
      case True
      then show ?thesis using h won reserve_at_won [OF won(2) assms(3) won(3)] by simp
    next
      case False
      then have "held s d lv = Some t" using h won(1) by (auto split: if_splits)
      then show ?thesis using reserve_at_keeps [OF won(2) assms(3) inv] won(1) by simp
    qed
  next
    case (refused_or_lost d' ride lv')
    then show ?thesis using reserve_at_keeps [OF refused_or_lost(2) assms(3) inv] h by simp
  next
    case (release d' lv' target)
    then have "held s d lv = Some t" "d' \<noteq> d \<or> lv' \<noteq> lv" using h by (auto split: if_splits)
    then show ?thesis using release_at_keeps [OF release(2) _ inv] release(1) by simp
  next
    case (pass n)
    then obtain u where "held s d lv = Some u" "int n < u" "t = u - int n"
      using h by (auto simp: count_down_def split: option.splits if_splits)
    then show ?thesis using elapse_keeps [OF inv] pass by simp
  next
    case (other st')
    then show ?thesis using inv h by (simp add: lease_live_def leases_same_def)
  qed
qed

lemma cl_reach_inv: "cl_reach R T s \<Longrightarrow> 0 < T \<Longrightarrow> cl_inv R T s"
proof (induction rule: cl_reach.induct)
  case (start st)
  then show ?case by (simp add: cl_inv_def)
next
  case (step s s')
  then show ?case using cl_step_inv by blast
qed

end

text \<open>
  C1. No double booking, under any interleaving: in every state that reservations, renewals,
  releases, lost answers, the passage of time and the writes of other components can lead to,
  at most one engine counts itself the holder of a driver; and as long as its term runs, every
  other reservation of that driver is a conflict that changes nothing, and a release with any
  other lease value does nothing.
\<close>

theorem no_double_booking:
  assumes "redis_service R" and "0 < T" and "cl_reach R T s" and "held s d a = Some t"
  shows "(\<forall>b u. held s d b = Some u \<longrightarrow> b = a)
    \<and> (\<forall>b ride. b \<noteq> a \<longrightarrow> reserve_at R T d ride b (cl_srv s) = (Inr 0, cl_srv s))
    \<and> (\<forall>b target. b \<noteq> a \<longrightarrow> release_at R d b target (cl_srv s) = (Inr 0, cl_srv s))"
proof -
  have inv: "cl_inv R T s" by (rule redis_service.cl_reach_inv [OF assms(1,3,2)])
  have v: "view R (cl_srv s) (DriverLeaseKey d) = Some (RStr (BStr a))"
    using inv assms(4) by (simp add: cl_inv_def lease_live_def)
  moreover have "b = a" if "held s d b = Some u" for b u
    using inv that v unfolding cl_inv_def lease_live_def by fastforce
  ultimately show ?thesis
    using redis_service.reserve_conflict [OF assms(1) v]
      redis_service.release_foreign [OF assms(1), of "cl_srv s" "DriverLeaseKey d"]
    by (auto simp: reserve_at_def release_at_def)
qed

lemma demo_reservable: "reservable ref_redis (srv demo_world) ''d1''"
  by (simp add: reservable_def lease_free_def)

theorem reserve_race_one_winner_witness:
  "\<exists>w'. run_state (race ref_redis ''d1'' (30 * 10 ^ 9)
       [(''r1'', \<lparr> RideID = ''r1'', Token = ''aa'', Version = 1 \<rparr>),
        (''r2'', \<lparr> RideID = ''r2'', Token = ''bb'', Version = 1 \<rparr>)]) demo_world
     = ([(Reserved, None), (Conflict, None)], w')"
  using reserve_race_one_winner [OF ref.redis_service_axioms demo_world_simps(2) demo_reservable plain_d1,
      of "30 * 10 ^ 9" "''r1''" "\<lparr> RideID = ''r1'', Token = ''aa'', Version = 1 \<rparr>"
      "[(''r2'', \<lparr> RideID = ''r2'', Token = ''bb'', Version = 1 \<rparr>)]"]
  by (auto simp: plain_lease_def plain_def)

theorem no_double_booking_witness:
  "\<exists>s. cl_reach ref_redis 30 s \<and> held s ''d1'' ''r1:aa:1'' = Some 30000
     \<and> reserve_at ref_redis 30 ''d1'' ''r2'' ''r2:bb:1'' (cl_srv s) = (Inr 0, cl_srv s)"
proof -
  let ?s0 = "\<lparr> cl_srv = demo, held = \<lambda>_. Map.empty \<rparr>"
  let ?s1 = "?s0\<lparr>cl_srv := snd (reserve_at ref_redis 30 ''d1'' ''r1'' ''r1:aa:1'' (cl_srv ?s0)),
      held := (held ?s0)(''d1'' := (held ?s0 ''d1'')(''r1:aa:1'' \<mapsto> 1000 * 30))\<rparr>"
  have "fst (reserve_at ref_redis 30 ''d1'' ''r1'' ''r1:aa:1'' demo) = Inr 1"
    unfolding reserve_at_def by (rule redis_service.reserve_acquire [OF ref.redis_service_axioms]) (simp_all, simp)
  then have "cl_step ref_redis 30 ?s0 ?s1" by (intro cl_step.won) simp_all
  then have reach: "cl_reach ref_redis 30 ?s1" by (intro cl_reach.step [OF cl_reach.start])
  from no_double_booking [OF ref.redis_service_axioms _ reach, of "''d1''" "''r1:aa:1''" 30000] reach
  show ?thesis by (intro exI [of _ ?s1]) simp
qed

section \<open>Release, expiry and renewal\<close>

context redis_service
begin

lemma Release_held:
  assumes "fates w = []" and "holds R (srv w) d lv" and "view R (srv w) (DriverKey d) = Some (RHash h)"
  obtains w' where "run_state (Store_Release R d lv target) w = (Inr True, w')" "fates w' = []"
    "lease_free R (srv w') d" "view R (srv w') (DriverKey d) = Some (RHash (h(''state'' \<mapsto> BStr target)))"
    "\<And>k. k \<notin> {DriverLeaseKey d, DriverKey d} \<Longrightarrow> view R (srv w') k = view R (srv w) k"
proof -
  have ne: "DriverLeaseKey d \<noteq> DriverKey d" using assms(2,3) by (auto simp: holds_def)
  note rel = release_held [OF assms(2) [unfolded holds_def] assms(3), of target]
  show thesis
    by (rule that [of "w\<lparr>srv := snd (releaseScript R (DriverLeaseKey d) (DriverKey d)
          (LeaseValue_String lv) target (srv w))\<rparr>"])
      (use assms(1) ne in \<open>simp_all add: Store_Release_run rel Let_def lease_free_def\<close>)
qed

lemma Release_foreign:
  assumes "fates w = []" and "lease_free R (srv w) d \<or> holds R (srv w) d a \<and> LeaseValue_String lv \<noteq> LeaseValue_String a"
  shows "run_state (Store_Release R d lv target) w = (Inr False, w)"
proof -
  have "is_str (view R (srv w) (DriverLeaseKey d))"
    "view R (srv w) (DriverLeaseKey d) \<noteq> Some (RStr (BStr (LeaseValue_String lv)))"
    using assms(2) by (auto simp: lease_free_def holds_def)
  from release_foreign [OF this] assms(1) show ?thesis by (simp add: Store_Release_run Let_def)
qed

end

text \<open>
  C4. Release is compare-and-delete. The holder's release removes the lease and returns the
  driver to \<^verbatim>\<open>AVAILABLE\<close>, after which any other ride can reserve it; a second release, and the
  release of a holder whose lease expired or passed to another ride, reports no error and
  leaves the server as it is.
\<close>

theorem Release_compare_and_delete:
  assumes "redis_service R" and "fates w = []" and "plain (r_DriverID r)" and "plain_lease (r_Lease r)"
  shows "(holds R (srv w) (r_DriverID r) (r_Lease r) \<and> is_hash (view R (srv w) (DriverKey (r_DriverID r)))
           \<and> view R (srv w) (DriverKey (r_DriverID r)) \<noteq> None \<longrightarrow>
         (\<exists>w'. run_state (Reservation_Release R r) w = (None, w')
            \<and> driver_available R (srv w') (r_DriverID r) \<and> reservable R (srv w') (r_DriverID r)
            \<and> run_state (Reservation_Release R r) w' = (None, w')))
    \<and> (\<forall>a. lease_free R (srv w) (r_DriverID r)
           \<or> holds R (srv w) (r_DriverID r) a \<and> plain_lease a \<and> a \<noteq> r_Lease r \<longrightarrow>
         run_state (Reservation_Release R r) w = (None, w))"
proof (intro conjI allI impI)
  assume h: "holds R (srv w) (r_DriverID r) (r_Lease r) \<and> is_hash (view R (srv w) (DriverKey (r_DriverID r)))
           \<and> view R (srv w) (DriverKey (r_DriverID r)) \<noteq> None"
  then obtain p where p: "view R (srv w) (DriverKey (r_DriverID r)) = Some (RHash p)"
    by (auto simp: is_hash_def split: option.splits rvalue.splits)
  obtain w' where w': "run_state (Store_Release R (r_DriverID r) (r_Lease r) ''AVAILABLE'') w = (Inr True, w')"
    "fates w' = []" "lease_free R (srv w') (r_DriverID r)"
    "view R (srv w') (DriverKey (r_DriverID r)) = Some (RHash (p(''state'' \<mapsto> BStr ''AVAILABLE'')))"
    by (rule redis_service.Release_held [OF assms(1,2) _ p]) (use h in blast, rule that)
  moreover have "run_state (Store_Release R (r_DriverID r) (r_Lease r) ''AVAILABLE'') w' = (Inr False, w')"
    using w' by (intro redis_service.Release_foreign [OF assms(1)]) simp_all
  ultimately show "\<exists>w'. run_state (Reservation_Release R r) w = (None, w')
      \<and> driver_available R (srv w') (r_DriverID r) \<and> reservable R (srv w') (r_DriverID r)
      \<and> run_state (Reservation_Release R r) w' = (None, w')"
    by (intro exI [of _ w']) (simp add: Reservation_Release_def driver_available_def reservable_def)
next
  fix a
  assume "lease_free R (srv w) (r_DriverID r)
      \<or> holds R (srv w) (r_DriverID r) a \<and> plain_lease a \<and> a \<noteq> r_Lease r"
  then have "run_state (Store_Release R (r_DriverID r) (r_Lease r) ''AVAILABLE'') w = (Inr False, w)"
    using LeaseValue_String_inject [OF assms(4), of a]
    by (intro redis_service.Release_foreign [OF assms(1,2), of _ a]) auto
  then show "run_state (Reservation_Release R r) w = (None, w)"
    by (simp add: Reservation_Release_def)
qed

text \<open>
  C26. Crash recovery: when the holder dies, its lease is gone once the term has passed, and
  although the profile still says \<^verbatim>\<open>RESERVED\<close>, the next reservation by any ride succeeds.
\<close>

theorem expired_lease_self_heals:
  assumes "redis_service R" and "fates w = []" and "plain d"
    and "holds R (srv w) d a" and "pttl R (srv w) (DriverLeaseKey d) = Some t" and "t \<le> int n"
    and "view R (srv w) (DriverKey d) = Some (RHash h)" and "h ''state'' = Some (BStr ''RESERVED'')"
    and "pttl R (srv w) (DriverKey d) = None" and "10 ^ 9 \<le> ttl"
  shows "\<exists>w'. run_state (Store_Reserve R d ride b ttl) (w\<lparr>srv := elapse R n (srv w)\<rparr>) = ((Reserved, None), w')
    \<and> holds R (srv w') d b"
proof -
  let ?w = "w\<lparr>srv := elapse R n (srv w)\<rparr>"
  have r: "reservable R (srv ?w) d"
    using assms(5-9) redis_service.elapse_view [OF assms(1), of n "srv w"]
    by (simp add: reservable_def lease_free_def)
  have f: "fates ?w = []" using assms(2) by simp
  obtain w' where "run_state (Store_Reserve R d ride b ttl) ?w = ((Reserved, None), w')" "holds R (srv w') d b"
    by (rule redis_service.Reserve_free [OF assms(1) f r assms(3,10)]) (rule that)
  then show ?thesis by blast
qed

text \<open>The demonstration driver, reserved for ride \<^verbatim>\<open>r1\<close>.\<close>

definition lease1 :: LeaseValue where
  "lease1 = \<lparr> RideID = ''r1'', Token = ''aa'', Version = 1 \<rparr>"

definition lease2 :: LeaseValue where
  "lease2 = \<lparr> RideID = ''r2'', Token = ''bb'', Version = 1 \<rparr>"

definition reserved_demo :: ref where
  "reserved_demo = demo(
     DriverKey ''d1'' \<mapsto> (VHash [(''state'', BStr ''RESERVED''), (''reserved_ride'', BStr ''r1'')], None),
     DriverLeaseKey ''d1'' \<mapsto> (VStr (BStr (LeaseValue_String lease1)), Some 30000))"

definition reserved_world :: "ref world" where
  "reserved_world = \<lparr> srv = reserved_demo, fates = [] \<rparr>"

lemma leases_plain [simp]: "plain_lease lease1" "plain_lease lease2" "lease1 \<noteq> lease2" "lease2 \<noteq> lease1"
  by (simp_all add: plain_lease_def lease1_def lease2_def plain_def)

lemma reserved_world_simps [simp]:
  "fates reserved_world = []" "srv reserved_world = reserved_demo"
  "ref_view reserved_demo (DriverKey ''d1'') =
     Some (RHash [''reserved_ride'' \<mapsto> BStr ''r1'', ''state'' \<mapsto> BStr ''RESERVED''])"
  "ref_view reserved_demo (DriverLeaseKey ''d1'') = Some (RStr (BStr (LeaseValue_String lease1)))"
  "ref_pttl reserved_demo (DriverKey ''d1'') = None"
  "ref_pttl reserved_demo (DriverLeaseKey ''d1'') = Some 30000"
  by (simp_all add: reserved_world_def reserved_demo_def ref_view_def ref_pttl_def ref_live_def)

lemma reserved_holds [simp]: "holds ref_redis reserved_demo ''d1'' lease1"
  by (simp add: holds_def)

theorem Release_compare_and_delete_witness:
  "(\<exists>w'. run_state (Reservation_Release ref_redis \<lparr> r_DriverID = ''d1'', r_RideID = ''r1'', r_Lease = lease1 \<rparr>)
       reserved_world = (None, w') \<and> driver_available ref_redis (srv w') ''d1'')
   \<and> run_state (Reservation_Release ref_redis \<lparr> r_DriverID = ''d1'', r_RideID = ''r2'', r_Lease = lease2 \<rparr>)
       reserved_world = (None, reserved_world)"
proof
  show "\<exists>w'. run_state (Reservation_Release ref_redis \<lparr> r_DriverID = ''d1'', r_RideID = ''r1'', r_Lease = lease1 \<rparr>)
       reserved_world = (None, w') \<and> driver_available ref_redis (srv w') ''d1''"
    using Release_compare_and_delete [OF ref.redis_service_axioms reserved_world_simps(1),
      of "\<lparr> r_DriverID = ''d1'', r_RideID = ''r1'', r_Lease = lease1 \<rparr>"]
    by auto
  show "run_state (Reservation_Release ref_redis \<lparr> r_DriverID = ''d1'', r_RideID = ''r2'', r_Lease = lease2 \<rparr>)
       reserved_world = (None, reserved_world)"
    using Release_compare_and_delete [OF ref.redis_service_axioms reserved_world_simps(1),
        of "\<lparr> r_DriverID = ''d1'', r_RideID = ''r2'', r_Lease = lease2 \<rparr>", THEN conjunct2, THEN spec, of lease1]
    by simp
qed

theorem expired_lease_self_heals_witness:
  "\<exists>w'. run_state (Store_Reserve ref_redis ''d1'' ''r2'' lease2 (30 * 10 ^ 9))
      (reserved_world\<lparr>srv := elapse ref_redis 30000 (srv reserved_world)\<rparr>) = ((Reserved, None), w')
    \<and> holds ref_redis (srv w') ''d1'' lease2"
  by (rule expired_lease_self_heals [OF ref.redis_service_axioms, where a = lease1 and t = 30000
        and h = "[''reserved_ride'' \<mapsto> BStr ''r1'', ''state'' \<mapsto> BStr ''RESERVED'']"]) simp_all

text \<open>The holder at work: the time to the next tick, then one round of the renewal loop.\<close>

fun renew_cycles :: "'s redis \<Rightarrow> Manager \<Rightarrow> Reservation \<Rightarrow> nat list \<Rightarrow> (('s, 'm) world_scheme, bool) state" where
  "renew_cycles R m r [] = State_Monad.return True"
| "renew_cycles R m r (n # ns) = do {
     State (\<lambda>w. ((), w\<lparr>srv := elapse R n (srv w)\<rparr>));
     go \<leftarrow> renewLoop R m r [Tick];
     if go then renew_cycles R m r ns else State_Monad.return False }"

text \<open>
  C27. Renewal: a holder that renews within every term keeps its lease for ever. After each
  tick of the renewal loop the lease has its full term again, and the loop goes on.
\<close>

theorem renewal_keeps_lease:
  assumes "redis_service R" and "fates w = []" and "holds R (srv w) (r_DriverID r) (r_Lease r)"
    and "pttl R (srv w) (DriverLeaseKey (r_DriverID r)) = Some (1000 * ttl_seconds (m_ttl m))"
    and "10 ^ 9 \<le> m_ttl m" and "\<forall>n \<in> set ns. int n < 1000 * ttl_seconds (m_ttl m)"
  shows "\<exists>w'. run_state (renew_cycles R m r ns) w = (True, w')
    \<and> holds R (srv w') (r_DriverID r) (r_Lease r)
    \<and> pttl R (srv w') (DriverLeaseKey (r_DriverID r)) = Some (1000 * ttl_seconds (m_ttl m))"
  using assms(2-4,6)
proof (induction ns arbitrary: w)
  case (Cons n ns)
  let ?w = "w\<lparr>srv := elapse R n (srv w)\<rparr>"
  have f: "fates ?w = []" using Cons.prems(1) by simp
  have h: "holds R (srv ?w) (r_DriverID r) (r_Lease r)"
    using Cons.prems(2-4) redis_service.elapse_view [OF assms(1), of n "srv w"]
    by (simp add: holds_def)
  obtain w1 where w1: "run_state (Store_Reserve R (r_DriverID r) (r_RideID r) (r_Lease r) (m_ttl m)) ?w
      = ((Reserved, None), w1)" "fates w1 = []" "view R (srv w1) = view R (srv ?w)"
    "pttl R (srv w1) = (pttl R (srv ?w))(DriverLeaseKey (r_DriverID r) \<mapsto> 1000 * ttl_seconds (m_ttl m))"
    by (rule redis_service.Reserve_renew [OF assms(1) f h assms(5)]) (rule that)
  have "run_state (renew_cycles R m r (n # ns)) w = run_state (renew_cycles R m r ns) w1"
    using w1(1) by simp
  with Cons.IH [of w1] Cons.prems(4) w1 h show ?case by (simp add: holds_def)
qed simp

theorem renewal_keeps_lease_witness:
  "\<exists>w'. run_state (renew_cycles ref_redis \<lparr> m_ttl = 30 * 10 ^ 9, m_renew = 10 ^ 10, m_version = 1 \<rparr>
       \<lparr> r_DriverID = ''d1'', r_RideID = ''r1'', r_Lease = lease1 \<rparr> [10000, 10000, 10000, 10000]) reserved_world = (True, w')
     \<and> holds ref_redis (srv w') ''d1'' lease1"
  using renewal_keeps_lease [OF ref.redis_service_axioms reserved_world_simps(1),
      of "\<lparr> r_DriverID = ''d1'', r_RideID = ''r1'', r_Lease = lease1 \<rparr>"
      "\<lparr> m_ttl = 30 * 10 ^ 9, m_renew = 10 ^ 10, m_version = 1 \<rparr>" "[10000, 10000, 10000, 10000]"]
  by (auto simp: ttl_seconds_def)

text \<open>
  The comment on \<^verbatim>\<open>renewLoop\<close> says that the loop exits when the lease was lost to another ride.
  It does not: a conflict is not an error of \<^verbatim>\<open>Store.Reserve\<close>, so the loop keeps ticking (and keeps
  leaving the other ride's lease alone) until its context ends.
\<close>

theorem renewLoop_survives_conflict:
  assumes "redis_service R" and "fates w = []" and "holds R (srv w) (r_DriverID r) a"
    and "plain_lease a" and "plain_lease (r_Lease r)" and "a \<noteq> r_Lease r"
  shows "run_state (renewLoop R m r (replicate k Tick)) w = (True, w)
    \<and> run_state (renewLoop R m r (replicate k Tick @ [CtxDone])) w = (False, w)"
proof -
  have "LeaseValue_String (r_Lease r) \<noteq> LeaseValue_String a"
    using assms(4-6) LeaseValue_String_inject by blast
  note lost = redis_service.Reserve_taken [OF assms(1-3) this]
  show ?thesis by (induction k) (simp_all add: lost)
qed

theorem renewLoop_survives_conflict_witness:
  "run_state (renewLoop ref_redis (NewManager (30 * 10 ^ 9) (10 ^ 10))
      \<lparr> r_DriverID = ''d1'', r_RideID = ''r2'', r_Lease = lease2 \<rparr> (replicate 3 Tick)) reserved_world
    = (True, reserved_world)"
  using renewLoop_survives_conflict [OF ref.redis_service_axioms reserved_world_simps(1),
      of "\<lparr> r_DriverID = ''d1'', r_RideID = ''r2'', r_Lease = lease2 \<rparr>" lease1]
  by simp

section \<open>The manager\<close>

context redis_service
begin

lemma Store_Reserve_won:
  assumes "run_state (Store_Reserve R d ride lv ttl) w = ((Reserved, None), w')" and "plain d"
  shows "holds R (srv w') d lv" "pttl R (srv w') (DriverLeaseKey d) = Some (1000 * ttl_seconds ttl)"
proof -
  let ?c = "reserveScript R (DriverLeaseKey d) (DriverKey d) ride (LeaseValue_String lv) (ttl_seconds ttl)"
  have "holds R (srv w') d lv \<and> pttl R (srv w') (DriverLeaseKey d) = Some (1000 * ttl_seconds ttl)"
  proof (rule rdo_cases [of ?c w])
    fix w1
    assume r: "run_state (rdo ?c) w = (fst (?c (srv w)), w1)" "srv w1 = snd (?c (srv w))"
    then have "fst (?c (srv w)) = Inr 1" "w' = w1"
      using assms(1) by (auto simp: Store_Reserve_def split: sum.splits if_splits)
    then show ?thesis using r reserve_won [of "DriverLeaseKey d"] assms(2) by (simp add: holds_def)
  next
    fix w1
    assume "run_state (rdo ?c) w = (Inl Unreachable, w1)"
    then show ?thesis using assms(1) by (simp add: Store_Reserve_def)
  qed
  then show "holds R (srv w') d lv" "pttl R (srv w') (DriverLeaseKey d) = Some (1000 * ttl_seconds ttl)"
    by simp_all
qed

lemma Reserve_unavailable:
  assumes "fates w = []" and "lease_free R (srv w) d" and "is_hash (view R (srv w) (DriverKey d))"
    and "\<not> reservable R (srv w) d"
  shows "run_state (Store_Reserve R d ride lv ttl) w = ((NotAvailable, None), w)"
proof -
  have "hash_or_empty (view R (srv w) (DriverKey d)) ''state''
      \<notin> {Some (BStr ''AVAILABLE''), Some (BStr ''RESERVED'')}"
    using assms(2-4)
    by (auto simp: reservable_def hash_or_empty_def is_hash_def split: option.splits rvalue.splits)
  from reserve_unavailable [OF assms(2) [unfolded lease_free_def] assms(3) this] assms(1) show ?thesis
    by (simp add: Store_Reserve_run Let_def)
qed

end

definition next_lease :: "Manager \<Rightarrow> string \<Rightarrow> 8 word list \<Rightarrow> LeaseValue" where
  "next_lease m ride b = \<lparr> RideID = ride, Token = EncodeToString b, Version = m_version m + 1 \<rparr>"

lemma Manager_Reserve_unfold:
  "Manager_Reserve R (Some b) d ride m = do {
     (res, err) \<leftarrow> Store_Reserve R d ride (next_lease m ride b) (m_ttl m);
     State_Monad.return (case err of
         Some e \<Rightarrow> (Inl (ErrStore e), m\<lparr>m_version := m_version m + 1\<rparr>)
       | None \<Rightarrow> (case res of
           Reserved \<Rightarrow> (Inr \<lparr> r_DriverID = d, r_RideID = ride, r_Lease = next_lease m ride b \<rparr>,
                        m\<lparr>m_version := m_version m + 1\<rparr>)
         | Conflict \<Rightarrow> (Inl ErrConflict, m\<lparr>m_version := m_version m + 1\<rparr>)
         | NotAvailable \<Rightarrow> (Inl ErrNotAvailable, m\<lparr>m_version := m_version m + 1\<rparr>))) }"
  unfolding Manager_Reserve_def randomToken_def next_lease_def Let_def by simp

lemma Manager_Reserve_granted:
  assumes "redis_service R" and "plain d" and "run_state (Manager_Reserve R rnd d ride m) w = ((Inr r, m'), w')"
  shows "r_DriverID r = d" "r_RideID r = ride" "holds R (srv w') d (r_Lease r)"
    "RideID (r_Lease r) = ride" "plain (Token (r_Lease r))"
proof -
  obtain b where b: "rnd = Some b"
    using assms(3) by (cases rnd) (auto simp: Manager_Reserve_def randomToken_def)
  obtain res err where sr: "run_state (Store_Reserve R d ride (next_lease m ride b) (m_ttl m)) w = ((res, err), w')"
    using assms(3) by (cases "run_state (Store_Reserve R d ride (next_lease m ride b) (m_ttl m)) w")
      (auto simp: b Manager_Reserve_unfold)
  then have r: "res = Reserved" "err = None"
    "r = \<lparr> r_DriverID = d, r_RideID = ride, r_Lease = next_lease m ride b \<rparr>"
    using assms(3) by (auto simp: b Manager_Reserve_unfold split: option.splits ReserveResult.splits)
  then show "r_DriverID r = d" "r_RideID r = ride" "holds R (srv w') d (r_Lease r)"
    "RideID (r_Lease r) = ride" "plain (Token (r_Lease r))"
    using redis_service.Store_Reserve_won [OF assms(1) _ assms(2)] sr EncodeToString_plain by (auto simp: next_lease_def)
qed

lemma Manager_Reserve_free:
  assumes "redis_service R" and "fates w = []" and "reservable R (srv w) d" and "plain d" and "10 ^ 9 \<le> m_ttl m"
  obtains r m' w' where "run_state (Manager_Reserve R (Some b) d ride m) w = ((Inr r, m'), w')" "fates w' = []"
    "\<And>k. k \<notin> {DriverLeaseKey d, DriverKey d} \<Longrightarrow> view R (srv w') k = view R (srv w) k"
proof -
  obtain w1 where "run_state (Store_Reserve R d ride (next_lease m ride b) (m_ttl m)) w = ((Reserved, None), w1)"
    "fates w1 = []" "\<And>k. k \<notin> {DriverLeaseKey d, DriverKey d} \<Longrightarrow> view R (srv w1) k = view R (srv w) k"
    by (rule redis_service.Reserve_free [OF assms, of ride "next_lease m ride b"]) (rule that)
  then show thesis
    by (intro that [of "\<lparr> r_DriverID = d, r_RideID = ride, r_Lease = next_lease m ride b \<rparr>"
          "m\<lparr>m_version := m_version m + 1\<rparr>" w1]) (simp_all add: Manager_Reserve_unfold)
qed

text \<open>
  C6. What a manager's \<^verbatim>\<open>Reserve\<close> returns. Whatever happens to the call, a reservation is returned
  only when the server holds its lease for the full term. When the call is answered, a free
  driver is reserved, a driver leased to another ride gives \<^verbatim>\<open>ErrConflict\<close>, a driver in any other
  state \<^verbatim>\<open>ErrNotAvailable\<close>, and the last two change nothing.
\<close>

theorem Manager_Reserve_outcome:
  assumes "redis_service R" and "plain d" and "10 ^ 9 \<le> m_ttl m"
    and "run_state (Manager_Reserve R (Some b) d ride m) w = ((x, m'), w')"
  shows "m_version m' = m_version m + 1
    \<and> (\<forall>r. x = Inr r \<longrightarrow> r = \<lparr> r_DriverID = d, r_RideID = ride, r_Lease = next_lease m ride b \<rparr>
         \<and> holds R (srv w') d (r_Lease r)
         \<and> pttl R (srv w') (DriverLeaseKey d) = Some (1000 * ttl_seconds (m_ttl m)))
    \<and> (fates w = [] \<longrightarrow>
         (reservable R (srv w) d \<longrightarrow> (\<exists>r. x = Inr r))
         \<and> (\<forall>a. holds R (srv w) d a \<and> LeaseValue_String a \<noteq> LeaseValue_String (next_lease m ride b)
              \<longrightarrow> x = Inl ErrConflict \<and> w' = w)
         \<and> (lease_free R (srv w) d \<and> is_hash (view R (srv w) (DriverKey d)) \<and> \<not> reservable R (srv w) d
              \<longrightarrow> x = Inl ErrNotAvailable \<and> w' = w))"
proof -
  obtain res err where sr: "run_state (Store_Reserve R d ride (next_lease m ride b) (m_ttl m)) w = ((res, err), w')"
    and x: "(x, m') = (case err of
         Some e \<Rightarrow> (Inl (ErrStore e), m\<lparr>m_version := m_version m + 1\<rparr>)
       | None \<Rightarrow> (case res of
           Reserved \<Rightarrow> (Inr \<lparr> r_DriverID = d, r_RideID = ride, r_Lease = next_lease m ride b \<rparr>,
                        m\<lparr>m_version := m_version m + 1\<rparr>)
         | Conflict \<Rightarrow> (Inl ErrConflict, m\<lparr>m_version := m_version m + 1\<rparr>)
         | NotAvailable \<Rightarrow> (Inl ErrNotAvailable, m\<lparr>m_version := m_version m + 1\<rparr>)))"
    using assms(4)
    by (cases "run_state (Store_Reserve R d ride (next_lease m ride b) (m_ttl m)) w")
      (auto simp: Manager_Reserve_unfold)
  have "\<exists>r. x = Inr r" if "fates w = []" "reservable R (srv w) d"
  proof -
    have "res = Reserved" "err = None"
      by (rule redis_service.Reserve_free [OF assms(1) that assms(2,3), of ride "next_lease m ride b"];
          use sr in simp)+
    with x show ?thesis by simp
  qed
  moreover have "x = Inl ErrConflict \<and> w' = w"
    if "fates w = []" "holds R (srv w) d a" "LeaseValue_String a \<noteq> LeaseValue_String (next_lease m ride b)" for a
    using redis_service.Reserve_taken [OF assms(1) that(1,2), of "next_lease m ride b" ride "m_ttl m"] that sr x
    by auto
  moreover have "x = Inl ErrNotAvailable \<and> w' = w"
    if "fates w = []" "lease_free R (srv w) d" "is_hash (view R (srv w) (DriverKey d))" "\<not> reservable R (srv w) d"
    using redis_service.Reserve_unavailable [OF assms(1) that, of ride "next_lease m ride b" "m_ttl m"] sr x
    by auto
  moreover have "r = \<lparr> r_DriverID = d, r_RideID = ride, r_Lease = next_lease m ride b \<rparr>
      \<and> res = Reserved \<and> err = None" if "x = Inr r" for r
    using that x by (auto split: option.splits ReserveResult.splits)
  moreover have "m_version m' = m_version m + 1"
    using x by (auto split: option.splits ReserveResult.splits)
  ultimately show ?thesis
    using redis_service.Store_Reserve_won [OF assms(1) _ assms(2)] sr by auto
qed

theorem Manager_Reserve_outcome_witness:
  "\<exists>r m' w'. run_state (Manager_Reserve ref_redis (Some (replicate 8 0)) ''d1'' ''r9''
       (NewManager (30 * 10 ^ 9) (10 ^ 10))) demo_world = ((Inr r, m'), w')
     \<and> m_version m' = 1 \<and> holds ref_redis (srv w') ''d1'' (r_Lease r)"
proof -
  obtain x m' w' where run: "run_state (Manager_Reserve ref_redis (Some (replicate 8 0)) ''d1'' ''r9''
       (NewManager (30 * 10 ^ 9) (10 ^ 10))) demo_world = ((x, m'), w')"
    by (metis prod.collapse)
  have "(10::int) ^ 9 \<le> m_ttl (NewManager (30 * 10 ^ 9) (10 ^ 10))" by (simp add: NewManager_def)
  from Manager_Reserve_outcome [OF ref.redis_service_axioms plain_d1 this run] demo_reservable run
  show ?thesis by (auto simp: NewManager_def)
qed

text \<open>Any sequence of calls of one manager.\<close>

fun Manager_calls ::
  "'s redis \<Rightarrow> (8 word list option \<times> string \<times> string) list \<Rightarrow> Manager
   \<Rightarrow> (('s, 'm) world_scheme, (resv_err + Reservation) list \<times> Manager) state"
where
  "Manager_calls R [] m = State_Monad.return ([], m)"
| "Manager_calls R ((rnd, d, ride) # cs) m = do {
     (x, m) \<leftarrow> Manager_Reserve R rnd d ride m;
     (xs, m) \<leftarrow> Manager_calls R cs m;
     State_Monad.return (x # xs, m) }"

definition grants :: "(resv_err + Reservation) list \<Rightarrow> Reservation list" where
  "grants xs = List.map_filter (\<lambda>x. case x of Inr r \<Rightarrow> Some r | Inl _ \<Rightarrow> None) xs"

lemma grants_simps [simp]:
  "grants [] = []" "grants (Inl e # xs) = grants xs" "grants (Inr r # xs) = r # grants xs"
  by (simp_all add: grants_def)

lemma Manager_Reserve_version:
  obtains "fst (fst (run_state (Manager_Reserve R rnd d ride m) w)) = Inl ErrToken"
    "m_version (snd (fst (run_state (Manager_Reserve R rnd d ride m) w))) = m_version m"
  | e where "fst (fst (run_state (Manager_Reserve R rnd d ride m) w)) = Inl e"
    "m_version (snd (fst (run_state (Manager_Reserve R rnd d ride m) w))) = m_version m + 1"
  | r where "fst (fst (run_state (Manager_Reserve R rnd d ride m) w)) = Inr r"
    "Version (r_Lease r) = m_version m + 1"
    "m_version (snd (fst (run_state (Manager_Reserve R rnd d ride m) w))) = m_version m + 1"
proof (cases rnd)
  case None
  then show ?thesis using that(1) by (simp add: Manager_Reserve_def randomToken_def)
next
  case (Some b)
  obtain res err w1 where "run_state (Store_Reserve R d ride (next_lease m ride b) (m_ttl m)) w = ((res, err), w1)"
    by (metis prod.collapse)
  then show ?thesis
    using that(2,3) Some
    by (cases err; cases res) (auto simp: Manager_Reserve_unfold next_lease_def)
qed

lemma grants_versions:
  "r \<in> set (grants (fst (fst (run_state (Manager_calls R cs m) w)))) \<Longrightarrow>
     \<exists>k. 1 \<le> k \<and> k \<le> length cs \<and> Version (r_Lease r) = m_version m + of_nat k"
proof (induction cs arbitrary: m w)
  case (Cons c cs)
  obtain rnd d ride where c: "c = (rnd, d, ride)" by (cases c)
  define m1 where "m1 = snd (fst (run_state (Manager_Reserve R rnd d ride m) w))"
  define w1 where "w1 = snd (run_state (Manager_Reserve R rnd d ride m) w)"
  have split: "grants (fst (fst (run_state (Manager_calls R (c # cs) m) w))) =
      grants [fst (fst (run_state (Manager_Reserve R rnd d ride m) w))]
      @ grants (fst (fst (run_state (Manager_calls R cs m1) w1)))"
    by (cases "fst (fst (run_state (Manager_Reserve R rnd d ride m) w))")
      (simp_all add: c m1_def w1_def split_beta)
  have late: "\<exists>k. 1 \<le> k \<and> k \<le> length (c # cs) \<and> Version (r_Lease r) = m_version m + of_nat k"
    if "r \<in> set (grants (fst (fst (run_state (Manager_calls R cs m1) w1))))"
      "m_version m1 = m_version m \<or> m_version m1 = m_version m + 1"
  proof -
    from Cons.IH [OF that(1)] obtain k where k: "1 \<le> k" "k \<le> length cs"
      "Version (r_Lease r) = m_version m1 + of_nat k" by blast
    from that(2) show ?thesis
      by (elim disjE) (use k in \<open>auto intro: exI [of _ k] exI [of _ "Suc k"]\<close>)
  qed
  show ?case
    by (rule Manager_Reserve_version [of R rnd d ride m w])
      (use Cons.prems late in \<open>auto simp: split m1_def intro: exI [of _ 1]\<close>)
qed simp

text \<open>
  C34. The lease values of one manager are pairwise different for up to \<open>2 ^ 64 - 1\<close> calls, even
  when the random source repeats itself: the version counter alone tells them apart until it
  wraps around.
\<close>

theorem Manager_leases_distinct:
  assumes "length cs < 2 ^ 64"
  shows "distinct (map r_Lease (grants (fst (fst (run_state (Manager_calls R cs m) w)))))"
  using assms
proof (induction cs arbitrary: m w)
  case (Cons c cs)
  obtain rnd d ride where c: "c = (rnd, d, ride)" by (cases c)
  define m1 where "m1 = snd (fst (run_state (Manager_Reserve R rnd d ride m) w))"
  define w1 where "w1 = snd (run_state (Manager_Reserve R rnd d ride m) w)"
  have ih: "distinct (map r_Lease (grants (fst (fst (run_state (Manager_calls R cs m1) w1)))))"
    using Cons by simp
  show ?case
  proof (rule Manager_Reserve_version [of R rnd d ride m w])
    fix r
    assume r: "fst (fst (run_state (Manager_Reserve R rnd d ride m) w)) = Inr r"
      "Version (r_Lease r) = m_version m + 1"
      "m_version (snd (fst (run_state (Manager_Reserve R rnd d ride m) w))) = m_version m + 1"
    have "r_Lease r \<noteq> r_Lease r'" if "r' \<in> set (grants (fst (fst (run_state (Manager_calls R cs m1) w1))))" for r'
    proof -
      from grants_versions [OF that] obtain k where k: "1 \<le> k" "k \<le> length cs"
        "Version (r_Lease r') = m_version m1 + of_nat k" by blast
      have "of_nat k \<noteq> (0 :: 64 word)"
      proof
        assume "of_nat k = (0 :: 64 word)"
        then have "k mod 2 ^ LENGTH(64) = 0" by (metis unat_of_nat unat_0)
        moreover have "k < 2 ^ LENGTH(64)" using k(2) Cons.prems by simp
        ultimately show False using k(1) by simp
      qed
      then show ?thesis using k r(2,3) by (auto simp: m1_def)
    qed
    with r ih show ?thesis by (force simp: c m1_def w1_def split_beta)
  qed (use ih in \<open>simp_all add: c m1_def w1_def split_beta\<close>)
qed simp

theorem Manager_leases_distinct_witness:
  "distinct (map r_Lease (grants (fst (fst (run_state (Manager_calls ref_redis
     [(Some [], ''d1'', ''r1''), (Some [], ''d1'', ''r1'')] (NewManager (10 ^ 10) 1)) demo_world)))))"
  by (rule Manager_leases_distinct) simp

end
