(* ===== verification/Utf8.thy ===== *)
theory Utf8
  imports Prelude
begin

text \<open>
  Strings in JSON. A Go string is any list of bytes; a JSON text is UTF-8. \<^verbatim>\<open>encoding/json\<close> replaces
  every byte that does not start a valid character by U+FFFD, when it writes a string and when it
  reads one, so a string survives exactly when it is valid UTF-8.
\<close>

definition byte :: "char \<Rightarrow> nat" where
  "byte c = of_char c"

definition is_cont :: "char \<Rightarrow> bool" where
  "is_cont c = (128 \<le> byte c \<and> byte c \<le> 191)"

text \<open>No overlong forms, no surrogates, nothing above U+10FFFF: the bounds on the second byte.\<close>

definition second_ok :: "nat \<Rightarrow> char \<Rightarrow> bool" where
  "second_ok b c = (is_cont c \<and> (b = 224 \<longrightarrow> 160 \<le> byte c) \<and> (b = 237 \<longrightarrow> byte c \<le> 159)
     \<and> (b = 240 \<longrightarrow> 144 \<le> byte c) \<and> (b = 244 \<longrightarrow> byte c \<le> 143))"

text \<open>\<^verbatim>\<open>utf8.DecodeRuneInString\<close>: the number of bytes of the first character, zero if it is not valid.\<close>

definition rune_len :: "string \<Rightarrow> nat" where
  "rune_len s =
     (if s = [] then 0
      else let b = byte (s ! 0); n = length s
      in if b < 128 then 1
         else if 194 \<le> b \<and> b \<le> 223 \<and> 2 \<le> n \<and> is_cont (s ! 1) then 2
         else if 224 \<le> b \<and> b \<le> 239 \<and> 3 \<le> n \<and> second_ok b (s ! 1) \<and> is_cont (s ! 2) then 3
         else if 240 \<le> b \<and> b \<le> 244 \<and> 4 \<le> n \<and> second_ok b (s ! 1) \<and> is_cont (s ! 2) \<and> is_cont (s ! 3) then 4
         else 0)"

definition RuneError :: string where
  "RuneError = map char_of [239 :: nat, 191, 189]"

function valid_utf8 :: "string \<Rightarrow> bool" where
  "valid_utf8 s = (if s = [] then True else if rune_len s = 0 then False else valid_utf8 (drop (rune_len s) s))"
  by pat_completeness auto
termination
  by (relation "measure length") auto

function json_string :: "string \<Rightarrow> string" where
  "json_string s =
     (if s = [] then []
      else if rune_len s = 0 then RuneError @ json_string (tl s)
      else take (rune_len s) s @ json_string (drop (rune_len s) s))"
  by pat_completeness auto
termination
  by (relation "measure length") auto

declare valid_utf8.simps [simp del] json_string.simps [simp del]

section \<open>What survives\<close>

lemma valid_utf8_Nil [simp]: "valid_utf8 []"
  by (simp add: valid_utf8.simps)

lemma json_string_Nil [simp]: "json_string [] = []"
  by (simp add: json_string.simps)

text \<open>A character is known by its own bytes.\<close>

lemma rune_len_le: "rune_len s \<le> length s"
  by (auto simp: rune_len_def Let_def Suc_le_eq)

lemma rune_len_cong:
  assumes "rune_len s \<noteq> 0" and "rune_len s \<le> length t" and "\<And>i. i < rune_len s \<Longrightarrow> t ! i = s ! i"
  shows "rune_len t = rune_len s"
proof -
  have ne: "s \<noteq> []" "t \<noteq> []" and t0: "t ! 0 = s ! 0"
    using assms by (auto simp: rune_len_def)
  consider "rune_len s = 1" "byte (s ! 0) < 128"
    | "rune_len s = 2" "194 \<le> byte (s ! 0)" "byte (s ! 0) \<le> 223" "is_cont (s ! 1)"
    | "rune_len s = 3" "224 \<le> byte (s ! 0)" "byte (s ! 0) \<le> 239" "second_ok (byte (s ! 0)) (s ! 1)" "is_cont (s ! 2)"
    | "rune_len s = 4" "240 \<le> byte (s ! 0)" "byte (s ! 0) \<le> 244" "second_ok (byte (s ! 0)) (s ! 1)" "is_cont (s ! 2)" "is_cont (s ! 3)"
    using assms(1) unfolding rune_len_def Let_def by (simp split: if_splits)
  then show ?thesis
    by cases (use ne t0 assms(2) assms(3) [of 1] assms(3) [of 2] assms(3) [of 3] in \<open>simp_all add: rune_len_def [of t]\<close>)
qed

lemma rune_len_take: "rune_len s \<noteq> 0 \<Longrightarrow> rune_len (take (rune_len s) s @ t) = rune_len s"
  using rune_len_le [of s] by (intro rune_len_cong) (auto simp: nth_append)

lemma rune_len_RuneError [simp]: "rune_len (RuneError @ t) = 3"
  by (simp add: RuneError_def rune_len_def byte_def is_cont_def second_ok_def)

lemma valid_utf8_rune:
  assumes "rune_len s \<noteq> 0"
  shows "valid_utf8 (take (rune_len s) s @ t) = valid_utf8 t"
proof -
  have "length (take (rune_len s) s) = rune_len s" using rune_len_le [of s] by simp
  moreover have "s \<noteq> []" using assms by (auto simp: rune_len_def)
  ultimately show ?thesis
    using assms rune_len_take [OF assms, of t] by (simp add: valid_utf8.simps [of "take (rune_len s) s @ t"])
qed

lemma valid_utf8_RuneError: "valid_utf8 (RuneError @ t) = valid_utf8 t"
  using valid_utf8_rune [of RuneError t] rune_len_RuneError [of "[]"] by (simp add: RuneError_def)

lemma valid_json_string [simp]: "valid_utf8 (json_string s)"
proof (induction s rule: json_string.induct)
  case (1 s)
  then show ?case
    by (cases "s = []"; cases "rune_len s = 0")
      (simp_all add: json_string.simps [of s] valid_utf8_RuneError valid_utf8_rune)
qed

lemma json_string_valid [simp]: "valid_utf8 s \<Longrightarrow> json_string s = s"
proof (induction s rule: json_string.induct)
  case (1 s)
  then show ?case
    by (cases "s = []") (auto simp: json_string.simps [of s] valid_utf8.simps [of s] split: if_splits)
qed

lemma json_string_id_iff: "json_string s = s \<longleftrightarrow> valid_utf8 s"
  by (metis valid_json_string json_string_valid)

lemma json_string_eq_Nil [simp]: "json_string s = [] \<longleftrightarrow> s = []"
proof -
  have "rune_len s \<noteq> 0 \<Longrightarrow> take (rune_len s) s \<noteq> []" by (auto simp: rune_len_def)
  then show ?thesis by (auto simp: json_string.simps [of s] RuneError_def)
qed

text \<open>ASCII is valid, and a valid string can be continued.\<close>

lemma valid_utf8_ascii [simp]: "\<not> digit7 c \<Longrightarrow> valid_utf8 (c # s) = valid_utf8 s"
proof -
  assume "\<not> digit7 c"
  then have "byte c < 128" by (cases c) (simp add: byte_def of_char_Char)
  then show ?thesis by (simp add: valid_utf8.simps [of "c # s"] rune_len_def)
qed

lemma valid_utf8_append [simp]: "valid_utf8 s \<Longrightarrow> valid_utf8 (s @ t) = valid_utf8 t"
proof (induction s rule: valid_utf8.induct)
  case (1 s)
  show ?case
  proof (cases "s = []")
    case False
    with 1(2) have s: "rune_len s \<noteq> 0" "valid_utf8 (drop (rune_len s) s)" by (auto simp: valid_utf8.simps [of s] split: if_splits)
    have "valid_utf8 (s @ t) = valid_utf8 (drop (rune_len s) s @ t)"
      using valid_utf8_rune [OF s(1), of "drop (rune_len s) s @ t"] by (simp flip: append_assoc)
    then show ?thesis using 1(1) False s by simp
  qed simp
qed

lemma valid_utf8_digits: "(\<And>c. c \<in> set s \<Longrightarrow> is_digit c) \<Longrightarrow> valid_utf8 s"
proof (induction s)
  case (Cons c s)
  have "is_digit c" using Cons.prems by simp
  then have "\<not> digit7 c" by (cases c) (auto simp: is_digit_def of_char_Char)
  then show ?case using Cons by simp
qed simp

lemma valid_utf8_show_int [simp]: "valid_utf8 (show_int n)"
proof -
  have "valid_utf8 (show_nat m)" for m by (rule valid_utf8_digits) (rule show_nat_digits)
  then show ?thesis by (simp add: show_int_def)
qed

end
