(* ===== verification/Events.thy ===== *)
theory Events
  imports Redis_Service Utf8
begin

text \<open>
  \<^verbatim>\<open>internal/events/events.go\<close> and \<^verbatim>\<open>internal/kafka/kafka.go\<close>: the events, their JSON form and the
  producer. JSON is modelled at the level of objects: a message
  body is an object of named values or bytes that do not parse. Encoding fails on a number
  JSON cannot hold (an infinity or NaN); decoding ignores unknown fields, gives missing ones
  their zero value and fails on a value of the wrong type. Strings that are not valid UTF-8 are
  coerced, in both directions (\<open>json_string\<close>). A timestamp is a number of nanoseconds, within the
  years RFC 3339 can write. The brokers are not part of the repository: whether a publish or commit is
  acknowledged is taken from lists in the world.
\<close>

section \<open>Events\<close>

record Envelope =
  EventID :: string
  ev_Type :: string
  Timestamp :: int
  TraceID :: string
  RequestID :: string

record LocationUpdate =
  lu_Env :: Envelope
  lu_DriverID :: string
  lu_Latitude :: float64
  lu_Longitude :: float64
  lu_Sequence :: int
  lu_H3Cell :: string

record RideRequested =
  rq_Env :: Envelope
  rq_RideID :: string
  rq_UserID :: string
  rq_PickupLat :: float64
  rq_PickupLng :: float64
  rq_DropoffLat :: float64
  rq_DropoffLng :: float64
  rq_RadiusM :: int

record DriverReserved =
  dr_Env :: Envelope
  dr_DriverID :: string
  dr_RideID :: string
  dr_LeaseVersion :: int

record DispatchCreated =
  dc_Env :: Envelope
  dc_DispatchID :: string
  dc_RideID :: string
  dc_DriverID :: string
  dc_DistanceM :: float64
  dc_Score :: float64

record RideStatus =
  rs_Env :: Envelope
  rs_RideID :: string
  rs_State :: string
  rs_DriverID :: string
  rs_Reason :: string

record DriverStatus =
  ds_Env :: Envelope
  ds_DriverID :: string
  ds_State :: string
  ds_Reason :: string

section \<open>JSON\<close>

datatype json = JStr string | JNum real | JTime int | JBool bool | JArr "json list" | JSub "(string \<times> json) list"

datatype payload = JObj "(string \<times> json) list" | JBad

datatype event =
    EvLocation LocationUpdate
  | EvRideRequested RideRequested
  | EvDriverReserved DriverReserved
  | EvDispatchCreated DispatchCreated
  | EvRideStatus RideStatus
  | EvDriverStatus DriverStatus

definition j_str :: "string \<Rightarrow> string \<Rightarrow> (string \<times> json) list option" where
  "j_str f s = Some [(f, JStr (json_string s))]"

definition j_omit :: "string \<Rightarrow> string \<Rightarrow> (string \<times> json) list option" where
  "j_omit f s = Some (if s = [] then [] else [(f, JStr (json_string s))])"

definition j_float :: "string \<Rightarrow> float64 \<Rightarrow> (string \<times> json) list option" where
  "j_float f x = (case x of Fin r \<Rightarrow> Some [(f, JNum r)] | _ \<Rightarrow> None)"

definition j_int :: "string \<Rightarrow> int \<Rightarrow> (string \<times> json) list option" where
  "j_int f n = Some [(f, JNum (of_int n))]"

definition j_time :: "string \<Rightarrow> int \<Rightarrow> (string \<times> json) list option" where
  "j_time f t = Some [(f, JTime t)]"

text \<open>The fields of an object in order, if all of them can be encoded.\<close>

fun j_all :: "(string \<times> json) list option list \<Rightarrow> (string \<times> json) list option" where
  "j_all [] = Some []"
| "j_all (x # xs) = (case (x, j_all xs) of (Some a, Some b) \<Rightarrow> Some (a @ b) | _ \<Rightarrow> None)"

definition env_fields :: "Envelope \<Rightarrow> (string \<times> json) list option list" where
  "env_fields e = [j_str ''event_id'' (EventID e), j_str ''type'' (ev_Type e),
     j_time ''timestamp'' (Timestamp e), j_omit ''trace_id'' (TraceID e),
     j_omit ''request_id'' (RequestID e)]"

fun event_fields :: "event \<Rightarrow> (string \<times> json) list option list" where
  "event_fields (EvLocation e) = env_fields (lu_Env e) @
     [j_str ''driver_id'' (lu_DriverID e), j_float ''latitude'' (lu_Latitude e),
      j_float ''longitude'' (lu_Longitude e), j_int ''sequence'' (lu_Sequence e),
      j_str ''h3_cell'' (lu_H3Cell e)]"
| "event_fields (EvRideRequested e) = env_fields (rq_Env e) @
     [j_str ''ride_id'' (rq_RideID e), j_str ''user_id'' (rq_UserID e),
      j_float ''pickup_lat'' (rq_PickupLat e), j_float ''pickup_lng'' (rq_PickupLng e),
      j_float ''dropoff_lat'' (rq_DropoffLat e), j_float ''dropoff_lng'' (rq_DropoffLng e),
      j_int ''radius_m'' (rq_RadiusM e)]"
| "event_fields (EvDriverReserved e) = env_fields (dr_Env e) @
     [j_str ''driver_id'' (dr_DriverID e), j_str ''ride_id'' (dr_RideID e),
      j_int ''lease_version'' (dr_LeaseVersion e)]"
| "event_fields (EvDispatchCreated e) = env_fields (dc_Env e) @
     [j_str ''dispatch_id'' (dc_DispatchID e), j_str ''ride_id'' (dc_RideID e),
      j_str ''driver_id'' (dc_DriverID e), j_float ''distance_m'' (dc_DistanceM e),
      j_float ''score'' (dc_Score e)]"
| "event_fields (EvRideStatus e) = env_fields (rs_Env e) @
     [j_str ''ride_id'' (rs_RideID e), j_str ''state'' (rs_State e),
      j_omit ''driver_id'' (rs_DriverID e), j_omit ''reason'' (rs_Reason e)]"
| "event_fields (EvDriverStatus e) = env_fields (ds_Env e) @
     [j_str ''driver_id'' (ds_DriverID e), j_str ''state'' (ds_State e),
      j_omit ''reason'' (ds_Reason e)]"

definition Encode :: "event \<Rightarrow> payload option" where
  "Encode e = map_option JObj (j_all (event_fields e))"

text \<open>
  Reading a field: \<open>None\<close> is a value of the wrong type. An integer field accepts integer numbers
  of its width only.
\<close>

definition d_str :: "(string \<times> json) list \<Rightarrow> string \<Rightarrow> string option" where
  "d_str ob f = (case map_of ob f of None \<Rightarrow> Some [] | Some (JStr s) \<Rightarrow> Some (json_string s) | _ \<Rightarrow> None)"

definition d_float :: "(string \<times> json) list \<Rightarrow> string \<Rightarrow> float64 option" where
  "d_float ob f = (case map_of ob f of
     None \<Rightarrow> Some (Fin 0) | Some (JNum r) \<Rightarrow> Some (Fin r) | _ \<Rightarrow> None)"

definition d_int :: "nat \<Rightarrow> (string \<times> json) list \<Rightarrow> string \<Rightarrow> int option" where
  "d_int bits ob f = (case map_of ob f of
     None \<Rightarrow> Some 0
   | Some (JNum r) \<Rightarrow> if r = of_int \<lfloor>r\<rfloor> \<and> - (2 ^ (bits - 1)) \<le> \<lfloor>r\<rfloor> \<and> \<lfloor>r\<rfloor> < 2 ^ (bits - 1)
                      then Some \<lfloor>r\<rfloor> else None
   | _ \<Rightarrow> None)"

definition d_time :: "(string \<times> json) list \<Rightarrow> string \<Rightarrow> int option" where
  "d_time ob f = (case map_of ob f of None \<Rightarrow> Some 0 | Some (JTime t) \<Rightarrow> Some t | _ \<Rightarrow> None)"

definition d_env :: "(string \<times> json) list \<Rightarrow> Envelope option" where
  "d_env ob = do {
     i \<leftarrow> d_str ob ''event_id''; ty \<leftarrow> d_str ob ''type''; ts \<leftarrow> d_time ob ''timestamp'';
     tr \<leftarrow> d_str ob ''trace_id''; rq \<leftarrow> d_str ob ''request_id'';
     Some \<lparr> EventID = i, ev_Type = ty, Timestamp = ts, TraceID = tr, RequestID = rq \<rparr> }"

definition DecodeLocationUpdate :: "payload \<Rightarrow> LocationUpdate option" where
  "DecodeLocationUpdate b = (case b of JBad \<Rightarrow> None | JObj ob \<Rightarrow> do {
     e \<leftarrow> d_env ob; d \<leftarrow> d_str ob ''driver_id''; la \<leftarrow> d_float ob ''latitude'';
     ln \<leftarrow> d_float ob ''longitude''; s \<leftarrow> d_int 64 ob ''sequence''; c \<leftarrow> d_str ob ''h3_cell'';
     Some \<lparr> lu_Env = e, lu_DriverID = d, lu_Latitude = la, lu_Longitude = ln,
            lu_Sequence = s, lu_H3Cell = c \<rparr> })"

definition DecodeRideRequested :: "payload \<Rightarrow> RideRequested option" where
  "DecodeRideRequested b = (case b of JBad \<Rightarrow> None | JObj ob \<Rightarrow> do {
     e \<leftarrow> d_env ob; r \<leftarrow> d_str ob ''ride_id''; u \<leftarrow> d_str ob ''user_id'';
     pa \<leftarrow> d_float ob ''pickup_lat''; pn \<leftarrow> d_float ob ''pickup_lng'';
     da \<leftarrow> d_float ob ''dropoff_lat''; dn \<leftarrow> d_float ob ''dropoff_lng'';
     m \<leftarrow> d_int 32 ob ''radius_m'';
     Some \<lparr> rq_Env = e, rq_RideID = r, rq_UserID = u, rq_PickupLat = pa, rq_PickupLng = pn,
            rq_DropoffLat = da, rq_DropoffLng = dn, rq_RadiusM = m \<rparr> })"

definition DecodeDispatchCreated :: "payload \<Rightarrow> DispatchCreated option" where
  "DecodeDispatchCreated b = (case b of JBad \<Rightarrow> None | JObj ob \<Rightarrow> do {
     e \<leftarrow> d_env ob; i \<leftarrow> d_str ob ''dispatch_id''; r \<leftarrow> d_str ob ''ride_id'';
     d \<leftarrow> d_str ob ''driver_id''; m \<leftarrow> d_float ob ''distance_m''; s \<leftarrow> d_float ob ''score'';
     Some \<lparr> dc_Env = e, dc_DispatchID = i, dc_RideID = r, dc_DriverID = d,
            dc_DistanceM = m, dc_Score = s \<rparr> })"

definition DecodeRideStatus :: "payload \<Rightarrow> RideStatus option" where
  "DecodeRideStatus b = (case b of JBad \<Rightarrow> None | JObj ob \<Rightarrow> do {
     e \<leftarrow> d_env ob; r \<leftarrow> d_str ob ''ride_id''; s \<leftarrow> d_str ob ''state'';
     d \<leftarrow> d_str ob ''driver_id''; y \<leftarrow> d_str ob ''reason'';
     Some \<lparr> rs_Env = e, rs_RideID = r, rs_State = s, rs_DriverID = d, rs_Reason = y \<rparr> })"

definition DecodeDriverStatus :: "payload \<Rightarrow> DriverStatus option" where
  "DecodeDriverStatus b = (case b of JBad \<Rightarrow> None | JObj ob \<Rightarrow> do {
     e \<leftarrow> d_env ob; d \<leftarrow> d_str ob ''driver_id''; s \<leftarrow> d_str ob ''state'';
     y \<leftarrow> d_str ob ''reason'';
     Some \<lparr> ds_Env = e, ds_DriverID = d, ds_State = s, ds_Reason = y \<rparr> })"

section \<open>Topics and the producer\<close>

definition TopicDriverLocation :: string where "TopicDriverLocation = ''driver-location''"
definition TopicRideRequested :: string where "TopicRideRequested = ''ride-requested''"
definition TopicDriverReserved :: string where "TopicDriverReserved = ''driver-reserved''"
definition TopicDispatchCreated :: string where "TopicDispatchCreated = ''dispatch-created''"
definition TopicRideStatus :: string where "TopicRideStatus = ''ride-status''"
definition TopicDriverStatus :: string where "TopicDriverStatus = ''driver-status''"
definition TopicDeadLetter :: string where "TopicDeadLetter = ''nexus-dead-letter''"

lemmas topic_defs = TopicDriverLocation_def TopicRideRequested_def TopicDriverReserved_def
  TopicDispatchCreated_def TopicRideStatus_def TopicDriverStatus_def TopicDeadLetter_def

definition AllTopics :: "string list" where
  "AllTopics = [TopicDriverLocation, TopicRideRequested, TopicDriverReserved, TopicDispatchCreated,
     TopicRideStatus, TopicDriverStatus, TopicDeadLetter]"

text \<open>Retention in hours.\<close>

record TopicSpec =
  spec_Name :: string
  spec_Partitions :: nat
  spec_Retention :: nat
  spec_KeyHint :: string

definition TopicSpecs :: "TopicSpec list" where
  "TopicSpecs = [
     \<lparr> spec_Name = TopicDriverLocation, spec_Partitions = 12, spec_Retention = 1, spec_KeyHint = ''driver_id'' \<rparr>,
     \<lparr> spec_Name = TopicRideRequested, spec_Partitions = 8, spec_Retention = 1, spec_KeyHint = ''ride_id'' \<rparr>,
     \<lparr> spec_Name = TopicDriverReserved, spec_Partitions = 12, spec_Retention = 24, spec_KeyHint = ''driver_id'' \<rparr>,
     \<lparr> spec_Name = TopicDispatchCreated, spec_Partitions = 8, spec_Retention = 24, spec_KeyHint = ''ride_id'' \<rparr>,
     \<lparr> spec_Name = TopicRideStatus, spec_Partitions = 8, spec_Retention = 24, spec_KeyHint = ''ride_id'' \<rparr>,
     \<lparr> spec_Name = TopicDriverStatus, spec_Partitions = 12, spec_Retention = 24, spec_KeyHint = ''driver_id'' \<rparr>,
     \<lparr> spec_Name = TopicDeadLetter, spec_Partitions = 3, spec_Retention = 7 * 24, spec_KeyHint = ''original key'' \<rparr>]"

record message =
  msg_Topic :: string
  msg_Key :: string
  msg_Value :: payload
  msg_Headers :: "(string \<times> string) list"

text \<open>
  The world of a service: the Redis world, the messages on the bus in the order the brokers
  took them, and the brokers' answers to come; an exhausted list means acknowledged.
\<close>

record 's node = "'s world" +
  bus :: "message list"
  acks :: "bool list"

definition WriteMessages :: "message \<Rightarrow> (('s, 'm) node_scheme, bool) state" where
  "WriteMessages msg = State (\<lambda>w. case acks w of
       False # as \<Rightarrow> (False, w\<lparr>acks := as\<rparr>)
     | True # as \<Rightarrow> (True, w\<lparr>bus := bus w @ [msg], acks := as\<rparr>)
     | [] \<Rightarrow> (True, w\<lparr>bus := bus w @ [msg]\<rparr>))"

definition Publish :: "string \<Rightarrow> string \<Rightarrow> payload \<Rightarrow> (('s, 'm) node_scheme, bool) state" where
  "Publish topic key v = WriteMessages \<lparr> msg_Topic = topic, msg_Key = key, msg_Value = v, msg_Headers = [] \<rparr>"

text \<open>
  The sources pass the headers as a map, whose iteration order is not specified; \<open>hs\<close> lists the headers in
  the order of one such iteration. No consumer of the repository reads them.
\<close>

definition PublishWithHeaders ::
  "string \<Rightarrow> string \<Rightarrow> payload \<Rightarrow> (string \<times> string) list \<Rightarrow> (('s, 'm) node_scheme, bool) state" where
  "PublishWithHeaders topic key v hs =
     WriteMessages \<lparr> msg_Topic = topic, msg_Key = key, msg_Value = v, msg_Headers = hs \<rparr>"

section \<open>Properties\<close>

lemmas json_simps = Encode_def env_fields_def j_str_def j_float_def j_int_def j_time_def j_omit_def d_env_def
  d_str_def d_float_def d_int_def d_time_def

text \<open>An event as it arrives: its strings are valid UTF-8.\<close>

definition json_env :: "Envelope \<Rightarrow> Envelope" where
  "json_env e = \<lparr> EventID = json_string (EventID e), ev_Type = json_string (ev_Type e), Timestamp = Timestamp e,
     TraceID = json_string (TraceID e), RequestID = json_string (RequestID e) \<rparr>"

definition json_location :: "LocationUpdate \<Rightarrow> LocationUpdate" where
  "json_location l = l\<lparr>lu_Env := json_env (lu_Env l), lu_DriverID := json_string (lu_DriverID l),
     lu_H3Cell := json_string (lu_H3Cell l)\<rparr>"

definition json_ride :: "RideRequested \<Rightarrow> RideRequested" where
  "json_ride r = r\<lparr>rq_Env := json_env (rq_Env r), rq_RideID := json_string (rq_RideID r),
     rq_UserID := json_string (rq_UserID r)\<rparr>"

lemma DecodeLocationUpdate_Encode:
  "Encode (EvLocation l) = Some b \<Longrightarrow> \<bar>lu_Sequence l\<bar> < 2 ^ 63 \<Longrightarrow> DecodeLocationUpdate b = Some (json_location l)"
  by (cases l; cases "lu_Env l")
    (auto simp: DecodeLocationUpdate_def json_simps json_location_def json_env_def split: float64.splits if_splits)

lemma DecodeRideRequested_Encode:
  "Encode (EvRideRequested r) = Some b \<Longrightarrow> \<bar>rq_RadiusM r\<bar> < 2 ^ 31 \<Longrightarrow> DecodeRideRequested b = Some (json_ride r)"
  by (cases r; cases "rq_Env r")
    (auto simp: DecodeRideRequested_def json_simps json_ride_def json_env_def split: float64.splits if_splits)

lemma Publish_acked [simp]:
  "acks w = [] \<Longrightarrow> run_state (Publish topic key v) w =
     (True, w\<lparr>bus := bus w @ [\<lparr> msg_Topic = topic, msg_Key = key, msg_Value = v, msg_Headers = [] \<rparr>]\<rparr>)"
  by (simp add: Publish_def WriteMessages_def)

lemma srv_WriteMessages [simp]:
  "srv (snd (run_state (WriteMessages m) w)) = srv w" "fates (snd (run_state (WriteMessages m) w)) = fates w"
  by (simp_all add: WriteMessages_def split: list.splits bool.splits)

lemma srv_Publish [simp]:
  "srv (snd (run_state (Publish topic key v) w)) = srv w"
  "fates (snd (run_state (Publish topic key v) w)) = fates w"
  by (simp_all add: Publish_def)

text \<open>Calls to Redis leave the bus alone.\<close>

lemma rdo_bus [simp]:
  "bus (snd (run_state (rdo cmd) w)) = bus w" "acks (snd (run_state (rdo cmd) w)) = acks w"
  by (simp_all add: rdo_def split_beta Let_def split: list.splits fate.splits)

lemma rread_bus [simp]:
  "bus (snd (run_state (rread cmd) w)) = bus w" "acks (snd (run_state (rread cmd) w)) = acks w"
  by (simp_all add: rread_def)

lemma rwrite_bus [simp]:
  "bus (snd (run_state (rwrite cmd) w)) = bus w" "acks (snd (run_state (rwrite cmd) w)) = acks w"
  by (simp_all add: rwrite_def split_beta)

end
