(* ===== verification/Dispatch.thy ===== *)
theory Dispatch
  imports Reservation Events
begin

text \<open>
  \<^verbatim>\<open>internal/dispatch/engine.go\<close>: the dispatch pipeline. An engine is its configuration, its
  reservation manager, whether it has a producer, and its identifier counter; the operations
  return the updated engine. Clock readings are the fields of a \<open>dispatch_clock\<close> in the order
  the code takes them, \<open>rnds\<close> is the random source and \<open>srt\<close> the implementation of \<^verbatim>\<open>sort.Slice\<close>.
\<close>

record Config =
  DefaultRadiusM :: float64
  MaxCandidates :: int
  WDistance :: float64
  WRequestAge :: float64
  WRating :: float64

definition DefaultConfig :: Config where
  "DefaultConfig = \<lparr> DefaultRadiusM = Fin 1000, MaxCandidates = 10, WDistance = Fin 1,
     WRequestAge = Fin 5, WRating = Fin 50 \<rparr>"

record Candidate =
  c_DriverID :: string
  c_Lat :: float64
  c_Lng :: float64
  c_DistanceM :: float64
  c_Score :: float64
  c_Rating :: float64
  c_Cell :: string

record Result =
  Success :: bool
  res_DriverID :: string
  res_DispatchID :: string
  ReserveRes :: "Reservation option"
  ResultCode :: string
  CellsSearched :: nat
  CandidatesTotal :: nat
  TookNs :: int

record Engine =
  eng_resv :: Manager
  eng_prod :: bool
  eng_cfg :: Config
  eng_n :: "64 word"

definition NewEngine :: "Manager \<Rightarrow> bool \<Rightarrow> Config \<Rightarrow> Engine" where
  "NewEngine resv kprod cfg =
     \<lparr> eng_resv = resv, eng_prod = kprod,
       eng_cfg = (if MaxCandidates cfg \<le> 0 then DefaultConfig else cfg), eng_n = 0 \<rparr>"

record dispatch_clock =
  t_start :: int
  t_age :: int
  t_id :: int
  t_created :: int
  t_reserved :: int
  t_end :: int

definition score :: "Config \<Rightarrow> DriverPos list \<Rightarrow> float64 \<Rightarrow> Candidate list" where
  "score cfg cands ageSec = map (\<lambda>c.
     let rating = (if f_le (pos_Rating c) (Fin 0) then Fin 5 else pos_Rating c);
         s = f_add (f_add (f_mul (WDistance cfg) (pos_DistM c)) (f_mul (WRequestAge cfg) ageSec))
                   (f_mul (WRating cfg) (f_sub (Fin 5) rating))
     in \<lparr> c_DriverID = pos_ID c, c_Lat = pos_Lat c, c_Lng = pos_Lng c, c_DistanceM = pos_DistM c,
          c_Score = s, c_Rating = rating, c_Cell = pos_Cell c \<rparr>) cands"

definition by_score :: "Candidate \<Rightarrow> Candidate \<Rightarrow> bool" where
  "by_score a b = f_lt (c_Score a) (c_Score b)"

text \<open>\<^verbatim>\<open>newID\<close>: prefix, clock and a counter that wraps.\<close>

definition newID :: "string \<Rightarrow> int \<Rightarrow> 64 word \<Rightarrow> string" where
  "newID prefix now n = prefix @ ''-'' @ show_int now @ ''-'' @ show_nat (unat n)"

definition publishDispatchCreated ::
  "bool \<Rightarrow> dispatch_clock \<Rightarrow> RideRequested \<Rightarrow> Candidate \<Rightarrow> string \<Rightarrow> (('s, 'm) node_scheme, unit) state"
where
  "publishDispatchCreated kprod clk ev c dispatchID =
     (if \<not> kprod then State_Monad.return ()
      else case Encode (EvDispatchCreated
             \<lparr> dc_Env = \<lparr> EventID = dispatchID, ev_Type = ''dispatch.created'', Timestamp = t_created clk,
                          TraceID = [], RequestID = [] \<rparr>,
               dc_DispatchID = dispatchID, dc_RideID = rq_RideID ev, dc_DriverID = c_DriverID c,
               dc_DistanceM = c_DistanceM c, dc_Score = c_Score c \<rparr>) of
        None \<Rightarrow> State_Monad.return ()
      | Some b \<Rightarrow> do {
          _ \<leftarrow> Publish TopicDispatchCreated (rq_RideID ev) b;
          case Encode (EvDriverReserved
             \<lparr> dr_Env = \<lparr> EventID = dispatchID @ ''-res'', ev_Type = ''driver.reserved'',
                          Timestamp = t_reserved clk, TraceID = [], RequestID = [] \<rparr>,
               dr_DriverID = c_DriverID c, dr_RideID = rq_RideID ev, dr_LeaseVersion = 0 \<rparr>) of
            None \<Rightarrow> State_Monad.return ()
          | Some b2 \<Rightarrow> do {
              _ \<leftarrow> Publish TopicDriverReserved (c_DriverID c) b2;
              State_Monad.return () } })"

text \<open>The loop over the ranked candidates: the winner, or the last error.\<close>

fun try_reserve ::
  "'s redis \<Rightarrow> (nat \<Rightarrow> 8 word list option) \<Rightarrow> string \<Rightarrow> Candidate list \<Rightarrow> Manager \<Rightarrow> resv_err option
   \<Rightarrow> (('s, 'm) world_scheme, (resv_err option + Candidate \<times> Reservation) \<times> Manager) state"
where
  "try_reserve R rnds ride [] m lastErr = State_Monad.return (Inl lastErr, m)"
| "try_reserve R rnds ride (c # cs) m lastErr = do {
     (x, m) \<leftarrow> Manager_Reserve R (rnds 0) (c_DriverID c) ride m;
     case x of
       Inr res \<Rightarrow> State_Monad.return (Inr (c, res), m)
     | Inl e \<Rightarrow> if e \<noteq> ErrConflict then State_Monad.return (Inl (Some e), m)
                else try_reserve R (rnds \<circ> Suc) ride cs m (Some e) }"

definition age_seconds :: "int \<Rightarrow> int \<Rightarrow> float64" where
  "age_seconds now ts = (let a = of_int (now - ts) / 10 ^ 9 in Fin (if a < 0 then 0 else a))"

definition DispatchForRide ::
  "'s redis \<Rightarrow> 'c h3 \<Rightarrow> ((Candidate \<Rightarrow> Candidate \<Rightarrow> bool) \<Rightarrow> Candidate list \<Rightarrow> Candidate list)
   \<Rightarrow> (nat \<Rightarrow> 8 word list option) \<Rightarrow> dispatch_clock \<Rightarrow> Engine \<Rightarrow> RideRequested
   \<Rightarrow> (('s, 'm) node_scheme, (Result \<times> resv_err option option) go_out \<times> Engine) state"
where
  "DispatchForRide R H srt rnds clk e ev =
     (let radius = Fin (of_int (rq_RadiusM ev));
          radius = (if f_le radius (Fin 0) then DefaultRadiusM (eng_cfg e) else radius);
          ageSec = age_seconds (t_age clk) (Timestamp (rq_Env ev));
          none = \<lparr> Success = False, res_DriverID = [], res_DispatchID = [], ReserveRes = None,
                   ResultCode = ''redis_unavailable'', CellsSearched = 0, CandidatesTotal = 0,
                   TookNs = t_end clk - t_start clk \<rparr>
      in do {
        found \<leftarrow> SearchNearby R H (rq_PickupLat ev) (rq_PickupLng ev) radius;
        case found of
          Panic \<Rightarrow> State_Monad.return (Panic, e)
        | Err _ \<Rightarrow> State_Monad.return (Ret (none, None), e)
        | Ret (cands, cells) \<Rightarrow>
            if cands = [] then
              State_Monad.return (Ret (none\<lparr>ResultCode := ''no_candidates'', CellsSearched := cells\<rparr>, None), e)
            else do {
              let scored = srt by_score (score (eng_cfg e) cands ageSec);
              let scored = (if int (length scored) > MaxCandidates (eng_cfg e)
                            then take (nat (MaxCandidates (eng_cfg e))) scored else scored);
              (x, m) \<leftarrow> try_reserve R rnds (rq_RideID ev) scored (eng_resv e) None;
              let e = e\<lparr>eng_resv := m\<rparr>;
              case x of
                Inr (c, res) \<Rightarrow> do {
                  let e = e\<lparr>eng_n := eng_n e + 1\<rparr>;
                  let dispatchID = newID ''disp'' (t_id clk) (eng_n e);
                  publishDispatchCreated (eng_prod e) clk ev c dispatchID;
                  State_Monad.return (Ret (\<lparr> Success = True, res_DriverID = c_DriverID c,
                    res_DispatchID = dispatchID, ReserveRes = Some res, ResultCode = ''ok'',
                    CellsSearched = cells, CandidatesTotal = length cands,
                    TookNs = t_end clk - t_start clk \<rparr>, None), e) }
              | Inl lastErr \<Rightarrow>
                  State_Monad.return (Ret (none\<lparr>ResultCode := ''all_conflicts'', CellsSearched := cells,
                    CandidatesTotal := length cands\<rparr>, Some lastErr), e) } })"

definition FindCandidates ::
  "'s redis \<Rightarrow> 'c h3 \<Rightarrow> ((Candidate \<Rightarrow> Candidate \<Rightarrow> bool) \<Rightarrow> Candidate list \<Rightarrow> Candidate list)
   \<Rightarrow> int \<Rightarrow> int \<Rightarrow> Engine \<Rightarrow> float64 \<Rightarrow> float64 \<Rightarrow> float64 \<Rightarrow> int
   \<Rightarrow> (('s, 'm) world_scheme, (Candidate list \<times> nat \<times> int) go_out) state"
where
  "FindCandidates R H srt tStart tEnd e lat lng radiusM mx = do {
     found \<leftarrow> SearchNearby R H lat lng radiusM;
     State_Monad.return (case found of
         Panic \<Rightarrow> Panic
       | Err x \<Rightarrow> Err x
       | Ret (cands, cells) \<Rightarrow>
           let scored = srt by_score (score (eng_cfg e) cands (Fin 0));
               scored = (if mx > 0 \<and> int (length scored) > mx then take (nat mx) scored else scored)
           in Ret (scored, cells, tEnd - tStart)) }"

definition Engine_ReleaseDriver ::
  "'s redis \<Rightarrow> Reservation \<Rightarrow> (('s, 'm) world_scheme, go_err option) state" where
  "Engine_ReleaseDriver R res = Reservation_Release R res"

text \<open>A conversion to \<^verbatim>\<open>int32\<close> out of range is left to the platform by Go; it gives the smallest integer.\<close>

definition go_int32 :: "float64 \<Rightarrow> int" where
  "go_int32 x = (let n = go_int x in if - (2 ^ 31) \<le> n \<and> n < 2 ^ 31 then n else - (2 ^ 31))"

datatype by_id_err = EGetRide go_err | ERideNotFound | EConflicted "resv_err option"

definition DispatchByRideID ::
  "'s redis \<Rightarrow> 'c h3 \<Rightarrow> ((Candidate \<Rightarrow> Candidate \<Rightarrow> bool) \<Rightarrow> Candidate list \<Rightarrow> Candidate list)
   \<Rightarrow> (nat \<Rightarrow> 8 word list option) \<Rightarrow> dispatch_clock \<Rightarrow> Engine \<Rightarrow> string
   \<Rightarrow> (('s, 'm) node_scheme, (Result option \<times> by_id_err option) go_out \<times> Engine) state"
where
  "DispatchByRideID R H srt rnds clk e rideID = do {
     r \<leftarrow> Store_GetRide R rideID;
     case r of
       Inl x \<Rightarrow> State_Monad.return (Ret (None, Some (EGetRide x)), e)
     | Inr [] \<Rightarrow> State_Monad.return (Ret (None, Some ERideNotFound), e)
     | Inr fs \<Rightarrow> do {
         let m = map_of fs;
         let lat = ParseFloat (m ''pickup_lat''); let lng = ParseFloat (m ''pickup_lng'');
         let radius = ParseFloat (m ''radius_m'');
         let radius = (if f_le radius (Fin 0) then DefaultRadiusM (eng_cfg e) else radius);
         let createdMs = Sscanf_d (m ''created_at'');
         let ev = \<lparr> rq_Env = \<lparr> EventID = ''grpc-'' @ rideID, ev_Type = ''ride.requested'',
                       Timestamp = 10 ^ 6 * createdMs, TraceID = [], RequestID = [] \<rparr>,
                    rq_RideID = rideID, rq_UserID = hget_text R (Inr (m ''user_id'')),
                    rq_PickupLat = lat, rq_PickupLng = lng, rq_DropoffLat = Fin 0, rq_DropoffLng = Fin 0,
                    rq_RadiusM = go_int32 radius \<rparr>;
         (x, e) \<leftarrow> DispatchForRide R H srt rnds clk e ev;
         State_Monad.return (case x of
             Panic \<Rightarrow> Panic
           | Err y \<Rightarrow> Err y
           | Ret (res, err) \<Rightarrow> Ret (Some res, map_option EConflicted err), e) } }"

section \<open>The parts of the pipeline\<close>

lemma publish_frame [simp]:
  "srv (snd (run_state (publishDispatchCreated p clk ev c i) w)) = srv w"
  "fates (snd (run_state (publishDispatchCreated p clk ev c i) w)) = fates w"
  by (simp_all add: publishDispatchCreated_def split_beta split: option.splits)

lemma score_ids: "c \<in> set (score cfg cands age) \<Longrightarrow>
    \<exists>p \<in> set cands. c_DriverID c = pos_ID p \<and> c_DistanceM c = pos_DistM p"
  by (auto simp: score_def Let_def)

lemma score_length [simp]: "length (score cfg cands age) = length cands"
  by (simp add: score_def)

lemma score_distinct: "distinct (map c_DriverID (score cfg cands age)) = distinct (map pos_ID cands)"
  by (simp add: score_def Let_def comp_def)

lemma score_strict_weak:
  assumes "\<forall>c \<in> A. c_Score c \<noteq> NaN"
  shows "strict_weak by_score A"
proof -
  have "\<not> f_lt (c_Score b) (c_Score a) \<longleftrightarrow> f_le (c_Score a) (c_Score b)" if "a \<in> A" "b \<in> A" for a b
    using that assms f_not_lt by simp
  then show ?thesis
    unfolding strict_weak_def by_score_def by (auto dest: f_lt_asym intro: f_le_trans)
qed

lemma try_reserve_won:
  assumes "redis_service R" and "\<forall>c \<in> set cs. plain (c_DriverID c)"
    and "run_state (try_reserve R rnds ride cs m le) w = ((Inr (c, r), m'), w')"
  shows "c \<in> set cs \<and> r_DriverID r = c_DriverID c \<and> r_RideID r = ride \<and> holds R (srv w') (c_DriverID c) (r_Lease r)
    \<and> RideID (r_Lease r) = ride \<and> plain (Token (r_Lease r))"
  using assms(2,3)
proof (induction cs arbitrary: rnds m le w)
  case (Cons a cs)
  obtain x m1 w1 where x: "run_state (Manager_Reserve R (rnds 0) (c_DriverID a) ride m) w = ((x, m1), w1)"
    by (metis prod.collapse)
  show ?case
  proof (cases x)
    case (Inl e)
    then have "run_state (try_reserve R (rnds \<circ> Suc) ride cs m1 (Some e)) w1 = ((Inr (c, r), m'), w')"
      using Cons.prems(2) x by (auto split: if_splits)
    with Cons show ?thesis by auto
  next
    case (Inr r')
    then have "c = a" "r = r'" "w' = w1" using Cons.prems(2) x by auto
    with Manager_Reserve_granted [OF assms(1) _ x [unfolded Inr]] Cons.prems(1) show ?thesis by auto
  qed
qed simp

lemma try_reserve_first:
  assumes "redis_service R" and "fates w = []" and "reservable R (srv w) (c_DriverID c)"
    and "plain (c_DriverID c)" and "10 ^ 9 \<le> m_ttl m" and "rnds 0 = Some b"
  obtains r m' w' where "run_state (try_reserve R rnds ride (c # cs) m le) w = ((Inr (c, r), m'), w')" "fates w' = []"
    "\<And>k. k \<notin> {DriverLeaseKey (c_DriverID c), DriverKey (c_DriverID c)} \<Longrightarrow> view R (srv w') k = view R (srv w) k"
proof -
  obtain r m' w' where "run_state (Manager_Reserve R (Some b) (c_DriverID c) ride m) w = ((Inr r, m'), w')" "fates w' = []"
    "\<And>k. k \<notin> {DriverLeaseKey (c_DriverID c), DriverKey (c_DriverID c)} \<Longrightarrow> view R (srv w') k = view R (srv w) k"
    by (rule Manager_Reserve_free [OF assms(1-5), of b ride]) (rule that)
  with assms(6) show thesis by (intro that [of r m' w']) simp_all
qed

text \<open>The radius the search uses and the ranked candidates the loop tries.\<close>

definition eff_radius :: "Engine \<Rightarrow> RideRequested \<Rightarrow> float64" where
  "eff_radius e ev = (if rq_RadiusM ev \<le> 0 then DefaultRadiusM (eng_cfg e) else Fin (of_int (rq_RadiusM ev)))"

definition ranked :: "((Candidate \<Rightarrow> Candidate \<Rightarrow> bool) \<Rightarrow> Candidate list \<Rightarrow> Candidate list) \<Rightarrow> dispatch_clock \<Rightarrow> Engine
  \<Rightarrow> RideRequested \<Rightarrow> DriverPos list \<Rightarrow> Candidate list" where
  "ranked srt clk e ev cands =
     (let scored = srt by_score (score (eng_cfg e) cands (age_seconds (t_age clk) (Timestamp (rq_Env ev))))
      in if int (length scored) > MaxCandidates (eng_cfg e)
         then take (nat (MaxCandidates (eng_cfg e))) scored else scored)"

definition empty_result :: "dispatch_clock \<Rightarrow> string \<Rightarrow> nat \<Rightarrow> nat \<Rightarrow> Result" where
  "empty_result clk code cells n =
     \<lparr> Success = False, res_DriverID = [], res_DispatchID = [], ReserveRes = None, ResultCode = code,
       CellsSearched = cells, CandidatesTotal = n, TookNs = t_end clk - t_start clk \<rparr>"

lemma ranked_set:
  assumes "slice_sort srt" and "c \<in> set (ranked srt clk e ev cands)"
  shows "\<exists>p \<in> set cands. c_DriverID c = pos_ID p \<and> c_DistanceM c = pos_DistM p"
  using assms(2) slice_sort.srt_set [OF assms(1)]
  by (auto simp: ranked_def Let_def dest!: in_set_takeD score_ids split: if_splits)

lemma dispatch_run:
  assumes "run_state (SearchNearby R H (rq_PickupLat ev) (rq_PickupLng ev) (eff_radius e ev)) w = (found, w1)"
  shows "run_state (DispatchForRide R H srt rnds clk e ev) w = (case found of
      Panic \<Rightarrow> ((Panic, e), w1)
    | Err _ \<Rightarrow> ((Ret (empty_result clk ''redis_unavailable'' 0 0, None), e), w1)
    | Ret (cands, cells) \<Rightarrow>
        if cands = [] then ((Ret (empty_result clk ''no_candidates'' cells 0, None), e), w1)
        else case run_state (try_reserve R rnds (rq_RideID ev) (ranked srt clk e ev cands) (eng_resv e) None) w1 of
          ((Inl lastErr, m), w2) \<Rightarrow>
            ((Ret (empty_result clk ''all_conflicts'' cells (length cands), Some lastErr), e\<lparr>eng_resv := m\<rparr>), w2)
        | ((Inr (c, res), m), w2) \<Rightarrow>
            let i = newID ''disp'' (t_id clk) (eng_n e + 1)
            in ((Ret (\<lparr> Success = True, res_DriverID = c_DriverID c, res_DispatchID = i, ReserveRes = Some res,
                   ResultCode = ''ok'', CellsSearched = cells, CandidatesTotal = length cands,
                   TookNs = t_end clk - t_start clk \<rparr>, None), e\<lparr>eng_resv := m, eng_n := eng_n e + 1\<rparr>),
                snd (run_state (publishDispatchCreated (eng_prod e) clk ev c i) w2)))"
proof -
  have r: "(if f_le (Fin (of_int (rq_RadiusM ev))) (Fin 0) then DefaultRadiusM (eng_cfg e)
      else Fin (of_int (rq_RadiusM ev))) = eff_radius e ev"
    by (simp add: eff_radius_def)
  show ?thesis
    unfolding DispatchForRide_def Let_def r
    using assms
    by (auto simp: empty_result_def ranked_def Let_def split_beta split: go_out.splits sum.splits)
qed

section \<open>The pipeline\<close>

text \<open>
  C3. A dispatch that reports success is backed by a lease, whatever happens to its calls: the
  server holds the reservation's lease for the assigned driver, the reservation is for this
  ride, and the driver was an \<^verbatim>\<open>AVAILABLE\<close> driver of the searched cells within the radius.
\<close>

theorem dispatch_success_is_backed:
  assumes "redis_service R" and "slice_sort srt" and "\<forall>i. driver_available R (srv w) i \<longrightarrow> plain i"
    and "run_state (DispatchForRide R H srt rnds clk e ev) w = ((Ret (res, err), e'), w')" and "Success res"
  shows "err = None \<and> ResultCode res = ''ok''
    \<and> (\<exists>r plan d. ReserveRes res = Some r \<and> r_DriverID r = res_DriverID res \<and> r_RideID r = rq_RideID ev
        \<and> holds R (srv w') (res_DriverID res) (r_Lease r)
        \<and> PlanSearch H (rq_PickupLat ev) (rq_PickupLng ev) (eff_radius e ev) DefaultResolution = Inr plan
        \<and> listed R (srv w) (Cells plan) (res_DriverID res)
        \<and> candidate R (srv w) (rq_PickupLat ev) (rq_PickupLng ev) (eff_radius e ev) (res_DriverID res) d)"
proof -
  obtain found w1 where f: "run_state (SearchNearby R H (rq_PickupLat ev) (rq_PickupLng ev) (eff_radius e ev)) w
      = (found, w1)"
    by (metis prod.collapse)
  note run = dispatch_run [OF f, of srt rnds clk]
  obtain cands cells c r m w2 where s: "found = Ret (cands, cells)"
    and tr: "run_state (try_reserve R rnds (rq_RideID ev) (ranked srt clk e ev cands) (eng_resv e) None) w1
      = ((Inr (c, r), m), w2)"
    using assms(4,5) run
    by (auto simp: empty_result_def Let_def split: go_out.splits prod.splits sum.splits if_splits)
  then have res: "err = None" "ResultCode res = ''ok''" "ReserveRes res = Some r" "res_DriverID res = c_DriverID c"
    "srv w' = srv w2"
    using assms(4,5) run by (auto simp: empty_result_def Let_def split: if_splits)
  from SearchNearby_returns [OF assms(1) f [unfolded s]] obtain plan where
    plan: "PlanSearch H (rq_PickupLat ev) (rq_PickupLng ev) (eff_radius e ev) DefaultResolution = Inr plan"
    and p: "\<forall>p \<in> set cands. listed R (srv w) (Cells plan) (pos_ID p)
      \<and> candidate R (srv w) (rq_PickupLat ev) (rq_PickupLng ev) (eff_radius e ev) (pos_ID p) (pos_DistM p)"
    by blast
  have pl: "\<forall>c \<in> set (ranked srt clk e ev cands). plain (c_DriverID c)"
  proof
    fix c
    assume "c \<in> set (ranked srt clk e ev cands)"
    then obtain q where "q \<in> set cands" "c_DriverID c = pos_ID q" using ranked_set [OF assms(2)] by blast
    with p assms(3) show "plain (c_DriverID c)" by (auto simp: candidate_def)
  qed
  note won = try_reserve_won [OF assms(1) pl tr]
  then obtain q where "q \<in> set cands" "c_DriverID c = pos_ID q" using ranked_set [OF assms(2)] by blast
  with won res plan p show ?thesis by auto
qed

lemma dispatch_best_frame:
  assumes "redis_service R" and "slice_sort srt" and "fates w = []"
    and "run_state (SearchNearby R H (rq_PickupLat ev) (rq_PickupLng ev) (eff_radius e ev)) w = (Ret (cands, cells), w)"
    and "cands \<noteq> []" and "0 < MaxCandidates (eng_cfg e)" and "10 ^ 9 \<le> m_ttl (eng_resv e)" and "rnds 0 = Some b"
    and "\<forall>p \<in> set cands. plain (pos_ID p) \<and> lease_free R (srv w) (pos_ID p)"
    and "\<forall>c \<in> set (score (eng_cfg e) cands (age_seconds (t_age clk) (Timestamp (rq_Env ev)))). c_Score c \<noteq> NaN"
  obtains res e' w' c r where "run_state (DispatchForRide R H srt rnds clk e ev) w = ((Ret (res, None), e'), w')"
    "Success res" "res_DriverID res = c_DriverID c"
    "c \<in> set (score (eng_cfg e) cands (age_seconds (t_age clk) (Timestamp (rq_Env ev))))"
    "\<forall>c' \<in> set (score (eng_cfg e) cands (age_seconds (t_age clk) (Timestamp (rq_Env ev)))). f_le (c_Score c) (c_Score c')"
    "ReserveRes res = Some r" "r_RideID r = rq_RideID ev" "holds R (srv w') (c_DriverID c) (r_Lease r)"
    "RideID (r_Lease r) = rq_RideID ev" "plain (Token (r_Lease r))"
    "lease_free R (srv w) (c_DriverID c)" "plain (c_DriverID c)"
    "\<And>k. k \<notin> {DriverLeaseKey (c_DriverID c), DriverKey (c_DriverID c)} \<Longrightarrow> view R (srv w') k = view R (srv w) k"
proof -
  let ?sc = "score (eng_cfg e) cands (age_seconds (t_age clk) (Timestamp (rq_Env ev)))"
  have "srt by_score ?sc \<noteq> []"
    using assms(5) slice_sort.srt_length [OF assms(2), of by_score ?sc] by (metis length_0_conv score_length)
  then obtain c cs where cs: "srt by_score ?sc = c # cs" by (cases "srt by_score ?sc") auto
  obtain k where "nat (MaxCandidates (eng_cfg e)) = Suc k"
    using assms(6) by (metis gr0_conv_Suc zero_less_nat_eq)
  with cs have "ranked srt clk e ev cands = c # (if int (length (c # cs)) > MaxCandidates (eng_cfg e) then take k cs else cs)"
    by (simp add: ranked_def Let_def)
  then obtain cs' where rk: "ranked srt clk e ev cands = c # cs'" by blast
  have c: "c \<in> set ?sc" using slice_sort.srt_set [OF assms(2), of by_score ?sc] cs by auto
  then obtain p where p: "p \<in> set cands" "c_DriverID c = pos_ID p" using score_ids by blast
  have "driver_available R (srv w) (pos_ID p)"
    using SearchNearby_returns [OF assms(1,4)] p(1) by (auto simp: candidate_def)
  then have free: "reservable R (srv w) (c_DriverID c)" "plain (c_DriverID c)"
    using p assms(9) by (auto simp: reservable_def driver_available_def)
  obtain r m' w1 where tr: "run_state (try_reserve R rnds (rq_RideID ev) (c # cs') (eng_resv e) None) w = ((Inr (c, r), m'), w1)"
    "\<And>k. k \<notin> {DriverLeaseKey (c_DriverID c), DriverKey (c_DriverID c)} \<Longrightarrow> view R (srv w1) k = view R (srv w) k"
    by (rule try_reserve_first [where rnds = rnds and b = b, OF assms(1,3) free assms(7,8), of "rq_RideID ev" cs' None]) (rule that)
  have "\<forall>c \<in> set (c # cs'). plain (c_DriverID c)"
    using ranked_set [OF assms(2), of _ clk e ev cands] assms(9) by (metis rk)
  from try_reserve_won [OF assms(1) this tr(1)]
  have g: "r_RideID r = rq_RideID ev" "holds R (srv w1) (c_DriverID c) (r_Lease r)"
    "RideID (r_Lease r) = rq_RideID ev" "plain (Token (r_Lease r))" by auto
  have least: "f_le (c_Score c) (c_Score c')" if "c' \<in> set ?sc" for c'
    using slice_sort.srt_hd_least [OF assms(2) score_strict_weak [OF assms(10)] cs that] that c assms(10)
    by (simp add: by_score_def f_not_lt)
  have "lease_free R (srv w) (c_DriverID c)" using p assms(9) by auto
  moreover note run = dispatch_run [OF assms(4), of srt rnds clk, simplified go_out.case prod.case rk tr(1) sum.case Let_def,
    unfolded if_not_P [OF assms(5)]]
  ultimately show thesis by (intro that [OF run]) (use tr(2) g least c free(2) in simp_all)
qed

lemma dispatch_best:
  assumes "redis_service R" and "slice_sort srt" and "fates w = []"
    and "run_state (SearchNearby R H (rq_PickupLat ev) (rq_PickupLng ev) (eff_radius e ev)) w = (Ret (cands, cells), w)"
    and "cands \<noteq> []" and "0 < MaxCandidates (eng_cfg e)" and "10 ^ 9 \<le> m_ttl (eng_resv e)" and "rnds 0 = Some b"
    and "\<forall>p \<in> set cands. plain (pos_ID p) \<and> lease_free R (srv w) (pos_ID p)"
    and "\<forall>c \<in> set (score (eng_cfg e) cands (age_seconds (t_age clk) (Timestamp (rq_Env ev)))). c_Score c \<noteq> NaN"
  shows "\<exists>res e' w' c. run_state (DispatchForRide R H srt rnds clk e ev) w = ((Ret (res, None), e'), w')
    \<and> Success res \<and> res_DriverID res = c_DriverID c
    \<and> c \<in> set (score (eng_cfg e) cands (age_seconds (t_age clk) (Timestamp (rq_Env ev))))
    \<and> (\<forall>c' \<in> set (score (eng_cfg e) cands (age_seconds (t_age clk) (Timestamp (rq_Env ev)))). f_le (c_Score c) (c_Score c'))"
  by (rule dispatch_best_frame [where rnds = rnds and b = b, OF assms]) blast

text \<open>
  C7. The best driver wins: when the calls are answered and every candidate is free, the
  dispatch succeeds with a candidate whose score no other candidate of the search beats.
\<close>

theorem dispatch_assigns_best:
  assumes "redis_service R" and "slice_sort srt" and "fates w = []"
    and "run_state (SearchNearby R H (rq_PickupLat ev) (rq_PickupLng ev) (eff_radius e ev)) w = (Ret (cands, cells), w)"
    and "cands \<noteq> []" and "0 < MaxCandidates (eng_cfg e)" and "10 ^ 9 \<le> m_ttl (eng_resv e)" and "rnds 0 = Some b"
    and "\<forall>p \<in> set cands. plain (pos_ID p) \<and> lease_free R (srv w) (pos_ID p)"
    and "\<forall>c \<in> set (score (eng_cfg e) cands (age_seconds (t_age clk) (Timestamp (rq_Env ev)))). c_Score c \<noteq> NaN"
  shows "\<exists>res e' w' c. run_state (DispatchForRide R H srt rnds clk e ev) w = ((Ret (res, None), e'), w')
    \<and> Success res \<and> res_DriverID res = c_DriverID c
    \<and> c \<in> set (score (eng_cfg e) cands (age_seconds (t_age clk) (Timestamp (rq_Env ev))))
    \<and> (\<forall>c' \<in> set (score (eng_cfg e) cands (age_seconds (t_age clk) (Timestamp (rq_Env ev)))). f_le (c_Score c) (c_Score c'))"
  by (rule dispatch_best [where rnds = rnds and b = b, OF assms])

text \<open>
  C36. Failing closed, and for good: when the search cannot reach Redis, or finds nobody, nothing
  is reserved or published and the engine is unchanged. But the result carries no error, so the
  Kafka handler of \<^verbatim>\<open>internal/dispatchsvc\<close> commits the message; the retry that the comment in
  \<^verbatim>\<open>DispatchForRide\<close> speaks of does not take place.
\<close>

theorem dispatch_fails_closed:
  assumes "run_state (SearchNearby R H (rq_PickupLat ev) (rq_PickupLng ev) (eff_radius e ev)) w = (found, w1)"
    and "found = Err x \<or> found = Ret ([], n)"
  shows "\<exists>res. run_state (DispatchForRide R H srt rnds clk e ev) w = ((Ret (res, None), e), w1)
    \<and> \<not> Success res \<and> ReserveRes res = None \<and> srv w1 = srv w
    \<and> ResultCode res = (if found = Err x then ''redis_unavailable'' else ''no_candidates'')"
proof -
  have "srv w1 = srv w"
    using reads_onlyD [OF reads_only_SearchNearby, of R H "rq_PickupLat ev" "rq_PickupLng ev" "eff_radius e ev" w] assms(1)
    by simp
  with assms(2) dispatch_run [OF assms(1), of srt rnds clk] show ?thesis
    by (auto simp: empty_result_def)
qed

text \<open>A dispatch on the demonstration fleet.\<close>

definition demo_node :: "ref node" where
  "demo_node = \<lparr> srv = demo, fates = [], bus = [], acks = [] \<rparr>"

definition demo_engine :: Engine where
  "demo_engine = NewEngine (NewManager (30 * 10 ^ 9) (10 ^ 10)) True DefaultConfig"

definition demo_ride :: RideRequested where
  "demo_ride = \<lparr> rq_Env = \<lparr> EventID = ''req-r1'', ev_Type = ''ride.requested'', Timestamp = 0, TraceID = [], RequestID = [] \<rparr>,
     rq_RideID = ''r1'', rq_UserID = ''u1'', rq_PickupLat = Fin 0, rq_PickupLng = Fin 0,
     rq_DropoffLat = Fin 0, rq_DropoffLng = Fin 0, rq_RadiusM = 500 \<rparr>"

definition demo_clock :: dispatch_clock where
  "demo_clock = \<lparr> t_start = 1, t_age = 2, t_id = 3, t_created = 4, t_reserved = 5, t_end = 6 \<rparr>"

definition demo_pos :: DriverPos where
  "demo_pos = \<lparr> pos_ID = ''d1'', pos_Lat = Fin 0, pos_Lng = Fin 0, pos_Cell = ''87'', pos_Seq = 0, pos_Ts = 0,
     pos_State = ''AVAILABLE'', pos_Rating = Fin 4, pos_DistM = Fin 0 \<rparr>"

lemma demo_node_simps [simp]: "srv demo_node = demo" "fates demo_node = []" "bus demo_node = []" "acks demo_node = []"
  by (simp_all add: demo_node_def)

lemma demo_eff [simp]: "eff_radius demo_engine demo_ride = Fin 500" "rq_PickupLat demo_ride = Fin 0"
  "rq_PickupLng demo_ride = Fin 0" "rq_RideID demo_ride = ''r1''"
  by (simp_all add: eff_radius_def demo_ride_def)

lemma demo_search_run:
  "run_state (SearchNearby ref_redis one_cell (Fin 0) (Fin 0) (Fin 500)) demo_node = (Ret ([demo_pos], 1), demo_node)"
proof -
  have m: "ref_SMEMBERS demo (CellKey ''87'') = Inr [''d1'']"
    by (simp add: demo_def ref_SMEMBERS_def ref_live_def)
  have l: "ref_HMGET demo (DriverLocKey ''d1'') [''lat'', ''lng'', ''cell'']
      = Inr [Some (BFloat (Fin 0)), Some (BFloat (Fin 0)), Some (BStr ''87'')]"
    by (simp add: demo_def ref_HMGET_def ref_live_def)
  have s: "ref_HGET demo (DriverKey ''d1'') ''state'' = Inr (Some (BStr ''AVAILABLE''))"
    "ref_HGET demo (DriverKey ''d1'') ''rating'' = Inr (Some (BFloat (Fin 4)))"
    by (simp_all add: demo_def ref_HGET_def ref_live_def)
  show ?thesis
    by (simp add: SearchNearby_def search_driver_def m l s Let_def hget_text_def bulk_text_def ParseFloat_def
        hget_val_def dist_sort_def insertion_sort_def demo_pos_def)
qed

lemma demo_search:
  "run_state (SearchNearby ref_redis one_cell (rq_PickupLat demo_ride) (rq_PickupLng demo_ride)
     (eff_radius demo_engine demo_ride)) demo_node = (Ret ([demo_pos], 1), demo_node)"
  by (simp add: demo_search_run)

lemma demo_plain: "driver_available ref_redis demo i \<Longrightarrow> plain i"
proof (cases "i = ''d1''")
  case False
  then have "DriverKey i = DriverLocKey ''d1'' \<or> ref_view demo (DriverKey i) = None"
    by (simp add: demo_def ref_view_def ref_live_def)
  moreover assume "driver_available ref_redis demo i"
  ultimately show ?thesis by (auto simp: driver_available_def)
qed simp

lemma demo_dispatch:
  "\<exists>res e' w'. run_state (DispatchForRide ref_redis one_cell insertion_sort (\<lambda>_. Some (replicate 8 0)) demo_clock
       demo_engine demo_ride) demo_node = ((Ret (res, None), e'), w') \<and> Success res \<and> res_DriverID res = ''d1''"
proof -
  have "\<exists>res e' w' c. run_state (DispatchForRide ref_redis one_cell insertion_sort (\<lambda>_. Some (replicate 8 0)) demo_clock
       demo_engine demo_ride) demo_node = ((Ret (res, None), e'), w') \<and> Success res \<and> res_DriverID res = c_DriverID c
    \<and> c \<in> set (score (eng_cfg demo_engine) [demo_pos] (age_seconds (t_age demo_clock) (Timestamp (rq_Env demo_ride))))
    \<and> (\<forall>c' \<in> set (score (eng_cfg demo_engine) [demo_pos] (age_seconds (t_age demo_clock) (Timestamp (rq_Env demo_ride)))).
        f_le (c_Score c) (c_Score c'))"
    by (rule dispatch_best [where b = "replicate 8 0", OF ref.redis_service_axioms ins.slice_sort_axioms demo_node_simps(2)
          demo_search])
      (simp_all add: demo_engine_def NewEngine_def DefaultConfig_def NewManager_def demo_pos_def
        lease_free_def score_def Let_def age_seconds_def)
  then show ?thesis by (auto simp: score_def demo_pos_def Let_def)
qed

theorem dispatch_assigns_best_witness:
  "\<exists>res e' w'. run_state (DispatchForRide ref_redis one_cell insertion_sort (\<lambda>_. Some (replicate 8 0)) demo_clock
       demo_engine demo_ride) demo_node = ((Ret (res, None), e'), w') \<and> Success res"
proof -
  have "\<exists>res e' w' c. run_state (DispatchForRide ref_redis one_cell insertion_sort (\<lambda>_. Some (replicate 8 0)) demo_clock
       demo_engine demo_ride) demo_node = ((Ret (res, None), e'), w') \<and> Success res \<and> res_DriverID res = c_DriverID c
    \<and> c \<in> set (score (eng_cfg demo_engine) [demo_pos] (age_seconds (t_age demo_clock) (Timestamp (rq_Env demo_ride))))
    \<and> (\<forall>c' \<in> set (score (eng_cfg demo_engine) [demo_pos] (age_seconds (t_age demo_clock) (Timestamp (rq_Env demo_ride)))).
        f_le (c_Score c) (c_Score c'))"
    by (rule dispatch_assigns_best [where b = "replicate 8 0", OF ref.redis_service_axioms ins.slice_sort_axioms demo_node_simps(2)
          demo_search])
      (simp_all add: demo_engine_def NewEngine_def DefaultConfig_def NewManager_def demo_pos_def
        lease_free_def score_def Let_def age_seconds_def)
  then show ?thesis by blast
qed

theorem dispatch_success_is_backed_witness:
  "\<exists>res e' w' r. run_state (DispatchForRide ref_redis one_cell insertion_sort (\<lambda>_. Some (replicate 8 0))
      demo_clock demo_engine demo_ride) demo_node = ((Ret (res, None), e'), w')
    \<and> ReserveRes res = Some r \<and> r_RideID r = ''r1'' \<and> holds ref_redis (srv w') ''d1'' (r_Lease r)"
proof -
  obtain res e' w' where run: "run_state (DispatchForRide ref_redis one_cell insertion_sort (\<lambda>_. Some (replicate 8 0))
      demo_clock demo_engine demo_ride) demo_node = ((Ret (res, None), e'), w')"
    and ok: "Success res" "res_DriverID res = ''d1''"
    using demo_dispatch by blast
  have "\<forall>i. driver_available ref_redis (srv demo_node) i \<longrightarrow> plain i" using demo_plain by simp
  from dispatch_success_is_backed [OF ref.redis_service_axioms ins.slice_sort_axioms this run ok(1)] ok(2)
  obtain r where "ReserveRes res = Some r" "r_RideID r = ''r1''" "holds ref_redis (srv w') ''d1'' (r_Lease r)"
    by auto
  with run show ?thesis by blast
qed

theorem dispatch_fails_closed_witness:
  "\<exists>res. run_state (DispatchForRide ref_redis one_cell insertion_sort (\<lambda>_. None) demo_clock demo_engine demo_ride)
      (demo_node\<lparr>fates := [LostBefore]\<rparr>) = ((Ret (res, None), demo_engine), demo_node) \<and> \<not> Success res"
proof -
  have "run_state (SearchNearby ref_redis one_cell (rq_PickupLat demo_ride) (rq_PickupLng demo_ride)
      (eff_radius demo_engine demo_ride)) (demo_node\<lparr>fates := [LostBefore]\<rparr>) = (Err (ERedis Unreachable), demo_node)"
    by (simp add: SearchNearby_def demo_node_def)
  from dispatch_fails_closed [OF this, of "ERedis Unreachable" 0 insertion_sort "\<lambda>_. None" demo_clock]
  show ?thesis by auto
qed

end
