(* ===== verification/Postgres.thy ===== *)
theory Postgres
  imports Events
begin

text \<open>
  \<^verbatim>\<open>internal/postgres\<close>: the durable-state repository. Postgres is not part of the repository: its
  state (type \<open>'q\<close>) and what its statements do are the parameter \<open>'q pg\<close>. A statement is a value
  of \<open>sql\<close>, one constructor per SQL text of the sources with the values bound to it; the queries
  return rows in the shape the sources scan (\<open>None\<close> in the list of \<open>pgList\<close> is a row whose scan
  fails). The repository functions are what the Go code
  does around them: which statements run in which order with which arguments, and how their
  replies become results.
\<close>

record PgConfig =
  pg_Host :: string
  pg_Port :: int
  pg_User :: string
  pg_Password :: string
  pg_DB :: string
  pg_SSLMode :: string
  pg_MaxConns :: int
  pg_RawDSN :: string

definition DSN :: "PgConfig \<Rightarrow> string" where
  "DSN c = (if pg_RawDSN c \<noteq> [] then pg_RawDSN c
     else let host = (if pg_Host c = [] then ''localhost'' else pg_Host c);
              port = (if pg_Port c = 0 then 5432 else pg_Port c);
              ssl = (if pg_SSLMode c = [] then ''disable'' else pg_SSLMode c)
          in ''postgres://'' @ pg_User c @ '':'' @ pg_Password c @ ''@'' @ host @ '':'' @ show_int port
             @ ''/'' @ pg_DB c @ ''?sslmode='' @ ssl)"

record DriverRow =
  drow_ID :: string
  drow_Name :: string
  drow_Email :: string
  drow_State :: string
  drow_Rating :: float64
  drow_Trips :: int

record RideRow =
  rrow_ID :: string
  rrow_UserID :: string
  rrow_DriverID :: string
  rrow_State :: string
  rrow_PickupLat :: float64
  rrow_PickupLng :: float64
  rrow_DropLat :: float64
  rrow_DropLng :: float64
  rrow_CreatedAt :: int

text \<open>
  \<open>InsDriver\<close>, \<open>InsVehicle\<close>, \<open>InsRide\<close>, \<open>InsRideEvent\<close>, \<open>InsDispatch\<close> and \<open>InsHistory\<close> are the
  \<^verbatim>\<open>INSERT ... ON CONFLICT DO NOTHING\<close> statements, the others the updates.
\<close>

datatype sql =
    InsDriver string string string string float64 float64
  | InsVehicle string string string string int
  | UpdDriverState string string
  | InsRide string string float64 float64 float64 float64 int
  | UpdRideState string string string string
  | InsRideEvent string string string string string
  | InsDispatch string string string float64 float64 int int float64
  | UpdDispatchState string string
  | InsHistory string int float64 float64 int

record 'q pg =
  pgExec :: "sql \<Rightarrow> 'q \<Rightarrow> (string + nat) \<times> 'q"
  pgDriver :: "string \<Rightarrow> 'q \<Rightarrow> string + DriverRow option"
  pgRide :: "string \<Rightarrow> 'q \<Rightarrow> string + RideRow option"
  pgList :: "string \<Rightarrow> int \<Rightarrow> int \<Rightarrow> 'q \<Rightarrow> string + RideRow option list"
  pgActive :: "string \<Rightarrow> 'q \<Rightarrow> string + int"

record ('s, 'q) full = "'s node" +
  db :: 'q

definition pgx_Exec :: "'q pg \<Rightarrow> sql \<Rightarrow> (('s, 'q, 'm) full_scheme, string + nat) state" where
  "pgx_Exec Q st = State (\<lambda>w. let (r, q) = pgExec Q st (db w) in (r, w\<lparr>db := q\<rparr>))"

definition pgx_Query :: "('q \<Rightarrow> string + 'a) \<Rightarrow> (('s, 'q, 'm) full_scheme, string + 'a) state" where
  "pgx_Query f = State (\<lambda>w. (f (db w), w))"

definition err_of :: "string + 'a \<Rightarrow> string option" where
  "err_of r = (case r of Inl e \<Rightarrow> Some e | Inr _ \<Rightarrow> None)"

definition InsertDriver ::
  "'q pg \<Rightarrow> string \<Rightarrow> string \<Rightarrow> string \<Rightarrow> string \<Rightarrow> float64 \<Rightarrow> float64 \<Rightarrow> string \<Rightarrow> string \<Rightarrow> string \<Rightarrow> int
   \<Rightarrow> (('s, 'q, 'm) full_scheme, string + bool) state"
where
  "InsertDriver Q i name email st lat lng mk model plate seats = do {
     tag \<leftarrow> pgx_Exec Q (InsDriver i name email st lat lng);
     case tag of
       Inl e \<Rightarrow> State_Monad.return (Inl e)
     | Inr n \<Rightarrow> do {
         (if plate \<noteq> [] then do { _ \<leftarrow> pgx_Exec Q (InsVehicle i mk model plate seats); State_Monad.return () }
          else State_Monad.return ());
         State_Monad.return (Inr (n = 1)) } }"

definition UpdateDriverState ::
  "'q pg \<Rightarrow> string \<Rightarrow> string \<Rightarrow> (('s, 'q, 'm) full_scheme, string option) state" where
  "UpdateDriverState Q i st = do {
     r \<leftarrow> pgx_Exec Q (UpdDriverState i st);
     State_Monad.return (err_of r) }"

definition Repo_GetDriver ::
  "'q pg \<Rightarrow> string \<Rightarrow> (('s, 'q, 'm) full_scheme, string + DriverRow option) state" where
  "Repo_GetDriver Q i = pgx_Query (pgDriver Q i)"

definition InsertRide ::
  "'q pg \<Rightarrow> string \<Rightarrow> string \<Rightarrow> float64 \<Rightarrow> float64 \<Rightarrow> float64 \<Rightarrow> float64 \<Rightarrow> int
   \<Rightarrow> (('s, 'q, 'm) full_scheme, string + bool) state"
where
  "InsertRide Q i userID pickupLat pickupLng dropLat dropLng radiusM = do {
     tag \<leftarrow> pgx_Exec Q (InsRide i userID pickupLat pickupLng dropLat dropLng radiusM);
     State_Monad.return (case tag of Inl e \<Rightarrow> Inl e | Inr n \<Rightarrow> Inr (n = 1)) }"

definition UpdateRideState ::
  "'q pg \<Rightarrow> string \<Rightarrow> string \<Rightarrow> string \<Rightarrow> string \<Rightarrow> (('s, 'q, 'm) full_scheme, string option) state" where
  "UpdateRideState Q i st driverID reason = do {
     r \<leftarrow> pgx_Exec Q (UpdRideState i st driverID reason);
     State_Monad.return (err_of r) }"

definition Repo_GetRide ::
  "'q pg \<Rightarrow> string \<Rightarrow> (('s, 'q, 'm) full_scheme, string + RideRow option) state" where
  "Repo_GetRide Q i = pgx_Query (pgRide Q i)"

definition InsertRideEvent ::
  "'q pg \<Rightarrow> string \<Rightarrow> string \<Rightarrow> string \<Rightarrow> string \<Rightarrow> string \<Rightarrow> (('s, 'q, 'm) full_scheme, string + bool) state" where
  "InsertRideEvent Q rideID st driverID reason eventID = do {
     tag \<leftarrow> pgx_Exec Q (InsRideEvent rideID st driverID reason eventID);
     State_Monad.return (case tag of Inl e \<Rightarrow> Inl e | Inr n \<Rightarrow> Inr (n = 1)) }"

definition InsertDispatch ::
  "'q pg \<Rightarrow> string \<Rightarrow> string \<Rightarrow> string \<Rightarrow> float64 \<Rightarrow> float64 \<Rightarrow> int \<Rightarrow> int \<Rightarrow> float64
   \<Rightarrow> (('s, 'q, 'm) full_scheme, string option) state"
where
  "InsertDispatch Q i rideID driverID distanceM scr candidates cells latencyMs = do {
     r \<leftarrow> pgx_Exec Q (InsDispatch i rideID driverID distanceM scr candidates cells latencyMs);
     State_Monad.return (err_of r) }"

definition UpdateDispatchState ::
  "'q pg \<Rightarrow> string \<Rightarrow> string \<Rightarrow> (('s, 'q, 'm) full_scheme, string option) state" where
  "UpdateDispatchState Q i st = do {
     r \<leftarrow> pgx_Exec Q (UpdDispatchState i st);
     State_Monad.return (err_of r) }"

definition InsertDriverHistory ::
  "'q pg \<Rightarrow> string \<Rightarrow> int \<Rightarrow> float64 \<Rightarrow> float64 \<Rightarrow> int \<Rightarrow> (('s, 'q, 'm) full_scheme, string option) state" where
  "InsertDriverHistory Q driverID ts lat lng seq = do {
     r \<leftarrow> pgx_Exec Q (InsHistory driverID ts lat lng seq);
     State_Monad.return (err_of r) }"

definition ActiveDispatchCount ::
  "'q pg \<Rightarrow> string \<Rightarrow> (('s, 'q, 'm) full_scheme, string + int) state" where
  "ActiveDispatchCount Q driverID = pgx_Query (pgActive Q driverID)"

text \<open>The repository touches neither the hot state nor the bus.\<close>

lemma pgx_frame [simp]:
  "srv (snd (run_state (pgx_Exec Q st) w)) = srv w" "fates (snd (run_state (pgx_Exec Q st) w)) = fates w"
  "bus (snd (run_state (pgx_Exec Q st) w)) = bus w" "acks (snd (run_state (pgx_Exec Q st) w)) = acks w"
  by (simp_all add: pgx_Exec_def split_beta)

lemma repo_frame [simp]:
  "srv (snd (run_state (InsertDriver Q i n e st lat lng mk md pl se) w)) = srv w"
  "fates (snd (run_state (InsertDriver Q i n e st lat lng mk md pl se) w)) = fates w"
  "bus (snd (run_state (InsertDriver Q i n e st lat lng mk md pl se) w)) = bus w"
  "acks (snd (run_state (InsertDriver Q i n e st lat lng mk md pl se) w)) = acks w"
  "srv (snd (run_state (UpdateDriverState Q i st) w)) = srv w"
  "fates (snd (run_state (UpdateDriverState Q i st) w)) = fates w"
  "bus (snd (run_state (UpdateDriverState Q i st) w)) = bus w"
  "acks (snd (run_state (UpdateDriverState Q i st) w)) = acks w"
  "srv (snd (run_state (InsertRide Q i u a b c d k) w)) = srv w"
  "fates (snd (run_state (InsertRide Q i u a b c d k) w)) = fates w"
  "bus (snd (run_state (InsertRide Q i u a b c d k) w)) = bus w"
  "acks (snd (run_state (InsertRide Q i u a b c d k) w)) = acks w"
  "srv (snd (run_state (UpdateRideState Q i st x y) w)) = srv w"
  "fates (snd (run_state (UpdateRideState Q i st x y) w)) = fates w"
  "bus (snd (run_state (UpdateRideState Q i st x y) w)) = bus w"
  "acks (snd (run_state (UpdateRideState Q i st x y) w)) = acks w"
  "srv (snd (run_state (InsertRideEvent Q i st x y z) w)) = srv w"
  "fates (snd (run_state (InsertRideEvent Q i st x y z) w)) = fates w"
  "bus (snd (run_state (InsertRideEvent Q i st x y z) w)) = bus w"
  "acks (snd (run_state (InsertRideEvent Q i st x y z) w)) = acks w"
  "srv (snd (run_state (InsertDispatch Q i rd dv dm sc ca ce la) w)) = srv w"
  "fates (snd (run_state (InsertDispatch Q i rd dv dm sc ca ce la) w)) = fates w"
  "bus (snd (run_state (InsertDispatch Q i rd dv dm sc ca ce la) w)) = bus w"
  "acks (snd (run_state (InsertDispatch Q i rd dv dm sc ca ce la) w)) = acks w"
  "srv (snd (run_state (InsertDriverHistory Q i ts lat lng seq) w)) = srv w"
  "fates (snd (run_state (InsertDriverHistory Q i ts lat lng seq) w)) = fates w"
  "bus (snd (run_state (InsertDriverHistory Q i ts lat lng seq) w)) = bus w"
  "acks (snd (run_state (InsertDriverHistory Q i ts lat lng seq) w)) = acks w"
  by (simp_all add: InsertDriver_def UpdateDriverState_def InsertRide_def UpdateRideState_def
      InsertRideEvent_def InsertDispatch_def InsertDriverHistory_def split_beta split: sum.splits)

text \<open>A database that accepts every statement and records it, for the concrete instances.\<close>

definition log_pg :: "sql list pg" where
  "log_pg = \<lparr> pgExec = \<lambda>st q. (Inr 1, q @ [st]), pgDriver = \<lambda>_ _. Inr None, pgRide = \<lambda>_ _. Inr None,
     pgList = \<lambda>_ _ _ _. Inr [], pgActive = \<lambda>_ _. Inr 0 \<rparr>"

end
