(* ===== verification/Driver.thy ===== *)
theory Driver
  imports Reservation Postgres
begin

text \<open>
  \<^verbatim>\<open>internal/driver\<close>: the driver state machine and the Driver Service. The service's in-memory
  registry is passed explicitly; \<open>clk n\<close> is the \<open>n\<close>-th clock reading of a handler, in
  nanoseconds. A state is the string the sources use for it.
\<close>

section \<open>The state machine\<close>

definition StateOffline :: string where "StateOffline = ''OFFLINE''"
definition StateAvailable :: string where "StateAvailable = ''AVAILABLE''"
definition StateReserved :: string where "StateReserved = ''RESERVED''"
definition StateOnTrip :: string where "StateOnTrip = ''ON_TRIP''"
definition StatePaused :: string where "StatePaused = ''PAUSED''"

lemmas driver_state_defs = StateOffline_def StateAvailable_def StateReserved_def StateOnTrip_def StatePaused_def

lemma driver_states_distinct:
  "distinct [StateOffline, StateAvailable, StateReserved, StateOnTrip, StatePaused]"
  "distinct [StatePaused, StateOnTrip, StateReserved, StateAvailable, StateOffline]"
  by (simp_all add: driver_state_defs)

lemmas driver_states_neq [simp] = driver_states_distinct [simplified]

definition AllStates :: "string list" where
  "AllStates = [StateOffline, StateAvailable, StateReserved, StateOnTrip, StatePaused]"

definition validTransitions :: "(string \<times> string list) list" where
  "validTransitions =
     [(StateOffline, [StateAvailable, StatePaused]),
      (StateAvailable, [StateReserved, StateOffline, StatePaused]),
      (StateReserved, [StateOnTrip, StateAvailable, StateOffline, StatePaused]),
      (StateOnTrip, [StateAvailable, StateOffline]),
      (StatePaused, [StateAvailable, StateOffline])]"

definition driver_CanTransition :: "string \<Rightarrow> string \<Rightarrow> bool" where
  "driver_CanTransition from to =
     (from = to \<or> (case map_of validTransitions from of None \<Rightarrow> False | Some tos \<Rightarrow> to \<in> set tos))"

datatype state_err = UnknownState string | IllegalTransition string string

definition ValidateState :: "string \<Rightarrow> state_err option" where
  "ValidateState s = (if s \<in> set AllStates then None else Some (UnknownState s))"

definition AssertTransition :: "string \<Rightarrow> string \<Rightarrow> state_err option" where
  "AssertTransition from to = (case ValidateState to of
       Some e \<Rightarrow> Some e
     | None \<Rightarrow> if driver_CanTransition from to then None else Some (IllegalTransition from to))"

section \<open>The service\<close>

datatype DriverState =
    DRIVER_STATE_UNSPECIFIED | DS_OFFLINE | DS_AVAILABLE | DS_RESERVED | DS_ON_TRIP | DS_PAUSED

definition driver_stateToProto :: "string \<Rightarrow> DriverState" where
  "driver_stateToProto s =
     (if s = StateAvailable then DS_AVAILABLE else if s = StateReserved then DS_RESERVED
      else if s = StateOnTrip then DS_ON_TRIP else if s = StatePaused then DS_PAUSED else DS_OFFLINE)"

definition protoToState :: "DriverState \<Rightarrow> string" where
  "protoToState s = (case s of
       DS_AVAILABLE \<Rightarrow> StateAvailable | DS_RESERVED \<Rightarrow> StateReserved
     | DS_ON_TRIP \<Rightarrow> StateOnTrip | DS_PAUSED \<Rightarrow> StatePaused | _ \<Rightarrow> StateOffline)"

record Vehicle =
  v_Make :: string
  v_Model :: string
  v_Plate :: string
  v_Seats :: int

record Driver =
  d_Id :: string
  d_Name :: string
  d_Email :: string
  d_Vehicle :: "Vehicle option"
  d_State :: DriverState
  d_Rating :: float64
  d_Trips :: int
  d_CreatedAtMs :: int
  d_UpdatedAtMs :: int

record DriverSvc =
  dsvc_db :: bool
  dsvc_prod :: bool
  drivers :: "string \<rightharpoonup> Driver"

record RegisterDriverRequest =
  rdr_Name :: string
  rdr_Email :: string
  rdr_Vehicle :: "Vehicle option"
  rdr_Lat :: float64
  rdr_Lng :: float64

definition ms :: "int \<Rightarrow> int" where "ms ns = ns div 10 ^ 6"

definition emitDriverStatus ::
  "bool \<Rightarrow> int \<Rightarrow> int \<Rightarrow> string \<Rightarrow> string \<Rightarrow> string \<Rightarrow> (('s, 'm) node_scheme, unit) state" where
  "emitDriverStatus kprod t1 t2 driverID st reason =
     (if \<not> kprod then State_Monad.return ()
      else do {
        _ \<leftarrow> Publish TopicDriverStatus driverID (JObj
              [(''event_id'', JStr (''dst-'' @ show_int t1)), (''type'', JStr ''driver.status''),
               (''timestamp'', JTime t2), (''driver_id'', JStr driverID), (''state'', JStr st),
               (''reason'', JStr reason)]);
        State_Monad.return () })"

definition RegisterDriver ::
  "'s redis \<Rightarrow> 'c h3 \<Rightarrow> 'q pg \<Rightarrow> (nat \<Rightarrow> int) \<Rightarrow> DriverSvc \<Rightarrow> RegisterDriverRequest
   \<Rightarrow> (('s, 'q, 'm) full_scheme, Driver rpc \<times> DriverSvc) state"
where
  "RegisterDriver R H Q clk s req =
     (if rdr_Name req = [] \<or> rdr_Email req = [] then State_Monad.return (Status InvalidArgument, s)
      else
        let i = ''drv-'' @ rdr_Email req;
            st = (if f_eq (rdr_Lat req) (Fin 0) \<and> f_eq (rdr_Lng req) (Fin 0) then StateOffline else StateAvailable)
        in if dsvc_db s \<and> rdr_Vehicle req = None then State_Monad.return (Crash, s)
        else do {
          (if dsvc_db s then do {
             let v = the (rdr_Vehicle req);
             _ \<leftarrow> InsertDriver Q i (rdr_Name req) (rdr_Email req) st (rdr_Lat req) (rdr_Lng req)
                   (v_Make v) (v_Model v) (v_Plate v) (v_Seats v);
             State_Monad.return () }
           else State_Monad.return ());
          e \<leftarrow> InitDriver R H (ms (clk 0)) i (rdr_Name req) st (Fin 4.8) (rdr_Lat req) (rdr_Lng req);
          case e of
            Some _ \<Rightarrow> State_Monad.return (Status Internal, s)
          | None \<Rightarrow> do {
              let d = \<lparr> d_Id = i, d_Name = rdr_Name req, d_Email = rdr_Email req, d_Vehicle = rdr_Vehicle req,
                        d_State = DS_AVAILABLE, d_Rating = Fin 4.8, d_Trips = 0,
                        d_CreatedAtMs = ms (clk 1), d_UpdatedAtMs = ms (clk 2) \<rparr>;
              let s = s\<lparr>drivers := (drivers s)(i \<mapsto> d)\<rparr>;
              emitDriverStatus (dsvc_prod s) (clk 3) (clk 4) i st ''registered'';
              State_Monad.return (RpcOk (d\<lparr>d_CreatedAtMs := ms (clk 5), d_UpdatedAtMs := 0\<rparr>), s) } })"

definition GetDriver ::
  "'s redis \<Rightarrow> 'q pg \<Rightarrow> DriverSvc \<Rightarrow> string \<Rightarrow> (('s, 'q, 'm) full_scheme, Driver rpc) state"
where
  "GetDriver R Q s i = (case drivers s i of
       Some d \<Rightarrow> State_Monad.return (RpcOk d)
     | None \<Rightarrow> do {
         r \<leftarrow> GetState R i;
         if (case r of Inl _ \<Rightarrow> True | Inr st \<Rightarrow> st = []) then
           (if dsvc_db s then do {
              row \<leftarrow> Repo_GetDriver Q i;
              State_Monad.return (case row of
                  Inl _ \<Rightarrow> Status Internal
                | Inr None \<Rightarrow> Status NotFound
                | Inr (Some x) \<Rightarrow> RpcOk \<lparr> d_Id = drow_ID x, d_Name = drow_Name x, d_Email = drow_Email x,
                    d_Vehicle = None, d_State = driver_stateToProto (drow_State x),
                    d_Rating = drow_Rating x, d_Trips = drow_Trips x, d_CreatedAtMs = 0, d_UpdatedAtMs = 0 \<rparr>) }
            else State_Monad.return (Status NotFound))
         else State_Monad.return (case r of
             Inl _ \<Rightarrow> Status NotFound
           | Inr st \<Rightarrow> RpcOk \<lparr> d_Id = i, d_Name = [], d_Email = [], d_Vehicle = None,
               d_State = driver_stateToProto st, d_Rating = Fin 0, d_Trips = 0,
               d_CreatedAtMs = 0, d_UpdatedAtMs = 0 \<rparr>) })"

definition UpdateDriverStatus ::
  "'s redis \<Rightarrow> 'q pg \<Rightarrow> (nat \<Rightarrow> int) \<Rightarrow> DriverSvc \<Rightarrow> string \<Rightarrow> DriverState
   \<Rightarrow> (('s, 'q, 'm) full_scheme, (DriverState \<times> DriverState) rpc \<times> DriverSvc) state"
where
  "UpdateDriverStatus R Q clk s i reqState =
     (let to = protoToState reqState in
      case ValidateState to of
        Some _ \<Rightarrow> State_Monad.return (Status InvalidArgument, s)
      | None \<Rightarrow> do {
          r \<leftarrow> GetState R i;
          case r of
            Inl _ \<Rightarrow> State_Monad.return (Status Internal, s)
          | Inr from \<Rightarrow>
              if from = [] then State_Monad.return (Status NotFound, s)
              else case AssertTransition from to of
                Some _ \<Rightarrow> State_Monad.return (Status FailedPrecondition, s)
              | None \<Rightarrow> do {
                  e \<leftarrow> SetState R i to;
                  case e of
                    Some _ \<Rightarrow> State_Monad.return (Status Internal, s)
                  | None \<Rightarrow> do {
                      (if dsvc_db s then do { _ \<leftarrow> UpdateDriverState Q i to; State_Monad.return () }
                       else State_Monad.return ());
                      let s = (case drivers s i of
                          None \<Rightarrow> s
                        | Some d \<Rightarrow> s\<lparr>drivers := (drivers s)(i \<mapsto>
                            d\<lparr>d_State := reqState, d_UpdatedAtMs := ms (clk 0)\<rparr>)\<rparr>);
                      emitDriverStatus (dsvc_prod s) (clk 1) (clk 2) i to ''manual'';
                      State_Monad.return (RpcOk (driver_stateToProto from, driver_stateToProto to), s) } } })"

definition AssignDriver ::
  "'s redis \<Rightarrow> string \<Rightarrow> string \<Rightarrow> (('s, 'm) world_scheme, DriverState rpc) state"
where
  "AssignDriver R driverId rideId = do {
     r \<leftarrow> GetState R driverId;
     case r of
       Inl _ \<Rightarrow> State_Monad.return (Status Internal)
     | Inr st \<Rightarrow>
         if st \<noteq> StateReserved then State_Monad.return (Status FailedPrecondition)
         else do {
           _ \<leftarrow> rwrite (rHSET R (DriverKey driverId) [(''assigned_ride'', BStr rideId)]);
           State_Monad.return (RpcOk (driver_stateToProto st)) } }"

definition Svc_ReleaseDriver ::
  "'s redis \<Rightarrow> 'q pg \<Rightarrow> (nat \<Rightarrow> int) \<Rightarrow> DriverSvc \<Rightarrow> string \<Rightarrow> string
   \<Rightarrow> (('s, 'q, 'm) full_scheme, DriverState rpc) state"
where
  "Svc_ReleaseDriver R Q clk s i reason = do {
     r \<leftarrow> GetState R i;
     let st = (case r of Inl _ \<Rightarrow> [] | Inr st \<Rightarrow> st);
     if st \<noteq> StateReserved \<and> st \<noteq> StateOnTrip then State_Monad.return (Status FailedPrecondition)
     else do {
       e \<leftarrow> SetState R i StateAvailable;
       case e of
         Some _ \<Rightarrow> State_Monad.return (Status Internal)
       | None \<Rightarrow> do {
           (if dsvc_db s then do { _ \<leftarrow> UpdateDriverState Q i StateAvailable; State_Monad.return () }
            else State_Monad.return ());
           emitDriverStatus (dsvc_prod s) (clk 0) (clk 1) i StateAvailable reason;
           State_Monad.return (RpcOk (driver_stateToProto StateAvailable)) } } }"

section \<open>Properties of the state machine\<close>

lemma CanTransition_cases:
  "driver_CanTransition s t \<longleftrightarrow> s = t
     \<or> s = StateOffline \<and> t \<in> {StateAvailable, StatePaused}
     \<or> s = StateAvailable \<and> t \<in> {StateReserved, StateOffline, StatePaused}
     \<or> s = StateReserved \<and> t \<in> {StateOnTrip, StateAvailable, StateOffline, StatePaused}
     \<or> s = StateOnTrip \<and> t \<in> {StateAvailable, StateOffline}
     \<or> s = StatePaused \<and> t \<in> {StateAvailable, StateOffline}"
  by (auto simp: driver_CanTransition_def validTransitions_def)

text \<open>The histories of a driver: consecutive states joined by edges of the machine.\<close>

inductive driver_path :: "string list \<Rightarrow> bool" where
  one: "driver_path [s]"
| more: "driver_path (ss @ [s]) \<Longrightarrow> driver_CanTransition s t \<Longrightarrow> driver_path (ss @ [s, t])"

inductive_simps driver_path_nil [simp]: "driver_path []"

lemma driver_path_known:
  "driver_path p \<Longrightarrow> hd p \<in> set AllStates \<Longrightarrow> set p \<subseteq> set AllStates"
proof (induction rule: driver_path.induct)
  case (more ss s t)
  have "hd (ss @ [s]) = hd (ss @ [s, t])" by (cases ss) simp_all
  with more have "set (ss @ [s]) \<subseteq> set AllStates" by simp
  with more(2) show ?case by (auto simp: CanTransition_cases AllStates_def)
qed simp

text \<open>
  The driver state machine. Every history that starts \<^verbatim>\<open>OFFLINE\<close> stays within the five
  states; a driver that is \<^verbatim>\<open>ON_TRIP\<close> was \<^verbatim>\<open>RESERVED\<close> before, and one that is \<^verbatim>\<open>RESERVED\<close> was
  \<^verbatim>\<open>AVAILABLE\<close> before; and from every state the driver can go \<^verbatim>\<open>OFFLINE\<close> at once.
\<close>

theorem driver_histories:
  assumes "driver_path p" and "hd p = StateOffline"
  shows "set p \<subseteq> set AllStates
    \<and> (StateOnTrip \<in> set p \<longrightarrow> StateReserved \<in> set p)
    \<and> (StateReserved \<in> set p \<longrightarrow> StateAvailable \<in> set p)
    \<and> driver_path (p @ [StateOffline])"
proof -
  have known: "set p \<subseteq> set AllStates"
    using driver_path_known [OF assms(1)] assms(2) by (simp add: AllStates_def)
  have "(StateOnTrip \<in> set p \<longrightarrow> StateReserved \<in> set p) \<and> (StateReserved \<in> set p \<longrightarrow> StateAvailable \<in> set p)"
    using assms
  proof (induction rule: driver_path.induct)
    case (more ss s t)
    have "hd (ss @ [s]) = hd (ss @ [s, t])" by (cases ss) simp_all
    with more show ?case by (auto simp: CanTransition_cases)
  qed auto
  moreover have "driver_path (p @ [StateOffline])"
  proof -
    obtain ss s where p: "p = ss @ [s]"
      using assms(1) by (cases rule: driver_path.cases) (auto simp: append_eq_Cons_conv)
    then have "s \<in> set AllStates" using known by simp
    then have "driver_CanTransition s StateOffline" by (auto simp: AllStates_def CanTransition_cases)
    with driver_path.more [of ss s] assms(1) p show ?thesis by simp
  qed
  ultimately show ?thesis using known by blast
qed

theorem driver_histories_witness:
  "driver_path ([StateOffline, StateAvailable, StateReserved, StateOnTrip] @ [StateOffline])"
proof -
  have e: "driver_CanTransition StateOffline StateAvailable" "driver_CanTransition StateAvailable StateReserved"
    "driver_CanTransition StateReserved StateOnTrip"
    by (auto simp: CanTransition_cases)
  have p: "driver_path [StateOffline, StateAvailable, StateReserved, StateOnTrip]"
    using driver_path.more [of "[StateOffline, StateAvailable]", simplified]
      driver_path.more [of "[StateOffline]", simplified] driver_path.more [of "[]", simplified]
      driver_path.one e by metis
  from driver_histories [OF p] show ?thesis by simp
qed

section \<open>Properties of the service\<close>

text \<open>The state a driver's profile records, as text; empty when there is none.\<close>

definition hot_state :: "'s redis \<Rightarrow> 's \<Rightarrow> string \<Rightarrow> string" where
  "hot_state R st i = hget_text R (rHGET R st (DriverKey i) ''state'')"

lemma emit_frame [simp]:
  "srv (snd (run_state (emitDriverStatus p t1 t2 d st r) w)) = srv w"
  by (simp add: emitDriverStatus_def split_beta)

lemma GetState_srv [simp]: "srv (snd (run_state (GetState R i) w)) = srv w"
  by (simp add: GetState_def split_beta)

lemma GetState_fates: "fates w = [] \<Longrightarrow> snd (run_state (GetState R i) w) = w"
  by (simp add: GetState_def split_beta)

lemma GetState_Inr:
  assumes "fst (run_state (GetState R i) w) = Inr v"
  shows "v = hot_state R (srv w) i"
  using assms rread_fst [of "\<lambda>s. rHGET R s (DriverKey i) ''state''" w]
  by (auto simp: GetState_def hot_state_def hget_text_def split_beta split: sum.splits option.splits)

lemma GetState_answered:
  assumes "redis_service R" and "fates w = []" and "is_hash (view R (srv w) (DriverKey i))"
  shows "run_state (GetState R i) w = (Inr (hot_state R (srv w) i), w)"
  using assms by (auto simp: GetState_def hot_state_def hget_text_def redis_service.HGET_law [OF assms(1)]
      split: option.splits)

context redis_service
begin

lemma SetState_srv:
  "srv (snd (run_state (SetState R i st) w)) \<in> {srv w, snd (rHSET R (DriverKey i) [(''state'', BStr st)] (srv w))}"
  by (rule rdo_cases [of "\<lambda>s. case rHSET R (DriverKey i) [(''state'', BStr st)] s of
        (Some e, st') \<Rightarrow> (Inl e, st') | (None, st') \<Rightarrow> (Inr (), st')" w])
    (auto simp: SetState_def rwrite_def split_beta split: option.splits prod.splits)

lemma SetState_hot:
  assumes "is_hash (view R (srv w) (DriverKey i))"
  shows "hot_state R (srv (snd (run_state (SetState R i st) w))) i \<in> {hot_state R (srv w) i, st}"
proof -
  have "hot_state R (snd (rHSET R (DriverKey i) [(''state'', BStr st)] (srv w))) i = st"
    using assms by (simp add: hot_state_def redis_laws hget_text_def bulk_text_def)
  with SetState_srv [of i st w] show ?thesis by auto
qed

lemma SetState_answered:
  assumes "fates w = []" and "is_hash (view R (srv w) (DriverKey i))"
  shows "run_state (SetState R i st) w = (None, w\<lparr>srv := snd (rHSET R (DriverKey i) [(''state'', BStr st)] (srv w))\<rparr>)"
    and "hot_state R (snd (rHSET R (DriverKey i) [(''state'', BStr st)] (srv w))) i = st"
  using assms by (simp_all add: SetState_def redis_laws hot_state_def hget_text_def bulk_text_def)

end

text \<open>
  C16. \<^verbatim>\<open>UpdateDriverStatus\<close> enforces the machine. Whatever happens to its calls, the recorded state
  afterwards is the old one, or the requested one and then the edge is legal; no lease is
  touched. When its calls are answered, it succeeds exactly if the driver is known and the edge
  is legal, and then the requested state is recorded.
\<close>

theorem UpdateDriverStatus_enforces:
  assumes "redis_service R" and "plain i" and "is_hash (view R (srv w) (DriverKey i))"
    and "run_state (UpdateDriverStatus R Q clk s i req) w = ((x, s'), w')"
  defines "old \<equiv> hot_state R (srv w) i" and "new \<equiv> hot_state R (srv w') i"
  shows "(new = old \<or> new = protoToState req \<and> driver_CanTransition old new)
    \<and> leases_same R (srv w) (srv w')
    \<and> (fates w = [] \<longrightarrow>
        ((\<exists>p. x = RpcOk p) \<longleftrightarrow> old \<noteq> [] \<and> driver_CanTransition old (protoToState req))
        \<and> ((\<exists>p. x = RpcOk p) \<longrightarrow> new = protoToState req)
        \<and> ((\<nexists>p. x = RpcOk p) \<longrightarrow> srv w' = srv w))"
proof -
  let ?to = "protoToState req"
  have to: "ValidateState ?to = None"
    by (cases req) (simp_all add: ValidateState_def AllStates_def protoToState_def driver_state_defs)
  then have asr: "AssertTransition old ?to = None \<longleftrightarrow> driver_CanTransition old ?to"
    by (simp add: AssertTransition_def)
  define w1 where "w1 = snd (run_state (GetState R i) w)"
  define w2 where "w2 = snd (run_state (SetState R i ?to) w1)"
  have s1: "srv w1 = srv w" by (simp add: w1_def)
  have lk: "leases_same R (srv w) (srv w2)"
    using redis_service.keeps_leases_Store(3) [OF assms(1,2)] s1
    unfolding keeps_leases_def w2_def by metis
  have h2: "hot_state R (srv w2) i \<in> {old, ?to}"
    using redis_service.SetState_hot [OF assms(1), of w1 i ?to] assms(3) s1 by (auto simp: w2_def old_def)
  consider (quiet) "srv w' = srv w" "\<nexists>p. x = RpcOk p" "fates w = [] \<Longrightarrow> old = [] \<or> \<not> driver_CanTransition old ?to"
    | (acts) "srv w' = srv w2" "old \<noteq> []" "driver_CanTransition old ?to"
      "(\<exists>p. x = RpcOk p) \<longleftrightarrow> fst (run_state (SetState R i ?to) w1) = None"
  proof (cases "fst (run_state (GetState R i) w)")
    case (Inl e)
    then have "fates w \<noteq> []" using GetState_answered [OF assms(1) _ assms(3)] by auto
    with Inl show thesis
      using assms(4) to quiet s1 by (auto simp: UpdateDriverStatus_def Let_def split_beta w1_def)
  next
    case (Inr v)
    then have "v = old" using GetState_Inr by (simp add: old_def)
    with Inr show thesis
      using assms(4) to asr quiet acts s1
      by (cases "old = []"; cases "driver_CanTransition old ?to")
        (auto simp: UpdateDriverStatus_def Let_def split_beta w1_def w2_def split: option.splits)
  qed
  then show ?thesis
  proof cases
    case quiet
    then show ?thesis by (auto simp: new_def old_def)
  next
    case acts
    have "fst (run_state (SetState R i ?to) w1) = None \<and> hot_state R (srv w2) i = ?to" if "fates w = []"
      using redis_service.SetState_answered [OF assms(1), of w1 i ?to] GetState_fates [OF that, of R i] that assms(3)
      by (simp add: w2_def w1_def)
    with acts h2 lk show ?thesis by (auto simp: new_def)
  qed
qed

definition demo_full :: "(ref, sql list) full" where
  "demo_full = \<lparr> srv = demo, fates = [], bus = [], acks = [], db = [] \<rparr>"

definition reserved_full :: "(ref, sql list) full" where
  "reserved_full = \<lparr> srv = reserved_demo, fates = [], bus = [], acks = [], db = [] \<rparr>"

lemma full_simps [simp]:
  "srv demo_full = demo" "fates demo_full = []" "srv reserved_full = reserved_demo" "fates reserved_full = []"
  "acks demo_full = []" "acks reserved_full = []"
  by (simp_all add: demo_full_def reserved_full_def)

definition demo_svc :: DriverSvc where
  "demo_svc = \<lparr> dsvc_db = True, dsvc_prod = True, drivers = Map.empty \<rparr>"

lemma hot_demo [simp]: "hot_state ref_redis demo ''d1'' = ''AVAILABLE''"
  "hot_state ref_redis reserved_demo ''d1'' = ''RESERVED''"
  by (simp_all add: hot_state_def ref.HGET_law [simplified] hget_text_def bulk_text_def)

theorem UpdateDriverStatus_enforces_witness:
  "\<exists>p s' w'. run_state (UpdateDriverStatus ref_redis log_pg (\<lambda>_. 0) demo_svc ''d1'' DS_PAUSED) demo_full = ((RpcOk p, s'), w')
     \<and> hot_state ref_redis (srv w') ''d1'' = ''PAUSED''"
proof -
  obtain x s' w' where run: "run_state (UpdateDriverStatus ref_redis log_pg (\<lambda>_. 0) demo_svc ''d1'' DS_PAUSED) demo_full
      = ((x, s'), w')"
    by (metis prod.collapse)
  have h: "is_hash (view ref_redis (srv demo_full) (DriverKey ''d1''))" by simp
  have "driver_CanTransition ''AVAILABLE'' (protoToState DS_PAUSED)" "protoToState DS_PAUSED = ''PAUSED''"
    by (simp_all add: CanTransition_cases protoToState_def driver_state_defs)
  with UpdateDriverStatus_enforces [OF ref.redis_service_axioms plain_d1 h run] run show ?thesis by auto
qed

text \<open>
  C38. \<^verbatim>\<open>ReleaseDriver\<close> of the Driver Service returns a reserved driver to \<^verbatim>\<open>AVAILABLE\<close> without deleting
  its lease: the driver is offered by searches again, but until the lease expires every
  reservation by another ride is refused as a conflict.
\<close>

theorem ReleaseDriver_leaves_lease:
  assumes "redis_service R" and "fates w = []" and "plain i" and "holds R (srv w) i a"
    and "view R (srv w) (DriverKey i) = Some (RHash h)" and "h ''state'' = Some (BStr ''RESERVED'')"
    and "LeaseValue_String b \<noteq> LeaseValue_String a" and "dsvc_db s = False"
  shows "\<exists>w'. run_state (Svc_ReleaseDriver R Q clk s i reason) w = (RpcOk DS_AVAILABLE, w')
    \<and> driver_available R (srv w') i \<and> holds R (srv w') i a \<and> \<not> reservable R (srv w') i
    \<and> run_state (Store_Reserve R i ride b ttl) w' = ((Conflict, None), w')"
proof -
  have hh: "is_hash (view R (srv w) (DriverKey i))" using assms(5) by simp
  have hot: "hot_state R (srv w) i = StateReserved"
    using assms(5,6) by (simp add: hot_state_def redis_service.HGET_law [OF assms(1)] hget_text_def
        bulk_text_def StateReserved_def)
  let ?st = "snd (rHSET R (DriverKey i) [(''state'', BStr StateAvailable)] (srv w))"
  let ?w1 = "w\<lparr>srv := ?st\<rparr>"
  define w' where "w' = snd (run_state (emitDriverStatus (dsvc_prod s) (clk 0) (clk 1) i StateAvailable reason) ?w1)"
  have run: "run_state (Svc_ReleaseDriver R Q clk s i reason) w = (RpcOk DS_AVAILABLE, w')"
    using GetState_answered [OF assms(1,2) hh] redis_service.SetState_answered(1) [OF assms(1,2) hh] hot assms(8)
    by (simp add: Svc_ReleaseDriver_def Let_def w'_def split_beta driver_stateToProto_def)
  have srv: "srv w' = ?st" and f: "fates w' = []"
    using assms(2) by (simp_all add: w'_def emitDriverStatus_def split_beta)
  have v: "view R ?st = (view R (srv w))(DriverKey i \<mapsto> RHash (h(''state'' \<mapsto> BStr StateAvailable)))"
    using assms(5) by (simp add: redis_service.HSET_view [OF assms(1)])
  have "driver_available R (srv w') i"
    unfolding srv v driver_available_def by (simp add: StateAvailable_def)
  moreover have hold: "holds R (srv w') i a" using assms(3,4) by (simp add: srv v holds_def)
  moreover have "\<not> reservable R (srv w') i" using hold by (simp add: reservable_def lease_free_def holds_def)
  ultimately show ?thesis
    using run redis_service.Reserve_taken [OF assms(1) f hold assms(7)] by blast
qed

theorem ReleaseDriver_leaves_lease_witness:
  "\<exists>w'. run_state (Svc_ReleaseDriver ref_redis log_pg (\<lambda>_. 0) (demo_svc\<lparr>dsvc_db := False\<rparr>) ''d1'' ''x'') reserved_full
      = (RpcOk DS_AVAILABLE, w') \<and> driver_available ref_redis (srv w') ''d1''
    \<and> run_state (Store_Reserve ref_redis ''d1'' ''r2'' lease2 (30 * 10 ^ 9)) w' = ((Conflict, None), w')"
proof -
  have "LeaseValue_String lease2 \<noteq> LeaseValue_String lease1"
    using LeaseValue_String_inject [of lease2 lease1] by simp
  then show ?thesis
    using ReleaseDriver_leaves_lease [OF ref.redis_service_axioms full_simps(4) plain_d1, of lease1
      "[''reserved_ride'' \<mapsto> BStr ''r1'', ''state'' \<mapsto> BStr ''RESERVED'']" lease2
      "demo_svc\<lparr>dsvc_db := False\<rparr>" log_pg "\<lambda>_. 0" "''x''" "''r2''" "30 * 10 ^ 9"]
    by auto
qed

text \<open>
  Registration without coordinates: the stored state is \<^verbatim>\<open>OFFLINE\<close>, but the response and the
  registry say \<^verbatim>\<open>AVAILABLE\<close>. And with a database configured, a request without a vehicle panics.
\<close>

theorem RegisterDriver_reports_available:
  assumes "redis_service R" and "fates w = []" and "rdr_Name req \<noteq> []" and "rdr_Email req \<noteq> []"
    and "rdr_Lat req = Fin 0" and "rdr_Lng req = Fin 0"
    and "geo_CellKey H (Fin 0) (Fin 0) DefaultResolution = Inr cell"
    and "init_typed R (srv w) (''drv-'' @ rdr_Email req) cell"
  shows "(\<exists>d s' w'. run_state (RegisterDriver R H Q clk (s\<lparr>dsvc_db := False\<rparr>) req) w = ((RpcOk d, s'), w')
      \<and> d_State d = DS_AVAILABLE \<and> map_option d_State (drivers s' (d_Id d)) = Some DS_AVAILABLE
      \<and> hot_state R (srv w') (d_Id d) = StateOffline)
    \<and> (rdr_Vehicle req = None \<longrightarrow>
      run_state (RegisterDriver R H Q clk (s\<lparr>dsvc_db := True\<rparr>) req) w = ((Crash, s\<lparr>dsvc_db := True\<rparr>), w))"
proof -
  let ?i = "''drv-'' @ rdr_Email req"
  have ok: "geo_ok (Fin 0) (Fin 0)" by (simp add: geo_ok_def)
  obtain w1 where w1:
    "run_state (InitDriver R H (ms (clk 0)) ?i (rdr_Name req) StateOffline (Fin 4.8) (Fin 0) (Fin 0)) w =
       (if geo_ok (Fin 0) (Fin 0) then None else Some (ERedis InvalidCoords), w1)"
    "view R (srv w1) =
       (let v = (view R (srv w))(
          DriverKey ?i \<mapsto> RHash (init_profile (hash_or_empty (view R (srv w) (DriverKey ?i))) ?i (rdr_Name req) StateOffline (Fin 4.8)),
          DriverLocKey ?i \<mapsto> RHash (hset (hash_or_empty (view R (srv w) (DriverLocKey ?i)))
                                      (loc_fields (Fin 0) (Fin 0) cell 0 (ms (clk 0)))),
          CellKey cell \<mapsto> RSet (insert ?i (set_or_empty (view R (srv w) (CellKey cell)))))
        in if geo_ok (Fin 0) (Fin 0)
           then v(GeoKey \<mapsto> RGeo ((geo_or_empty (view R (srv w) GeoKey))(?i \<mapsto> (Fin 0, Fin 0)))) else v)"
    by (rule redis_service.InitDriver_run [OF assms(1,2,7,8), of "ms (clk 0)" "rdr_Name req" StateOffline "Fin 4.8"])
      (rule that)
  have pl: "plain ?i" using assms(8) by (simp add: init_typed_def)
  have hot: "hot_state R (srv w1) ?i = StateOffline"
    using pl by (simp add: hot_state_def redis_service.HGET_law [OF assms(1)] w1(2) Let_def ok init_profile_def
        hget_text_def bulk_text_def)
  show ?thesis
    using assms(3-6) w1(1) ok hot
    by (simp add: RegisterDriver_def Let_def split_beta)
qed

definition demo_register :: RegisterDriverRequest where
  "demo_register = \<lparr> rdr_Name = ''Ann'', rdr_Email = ''d1'', rdr_Vehicle = None, rdr_Lat = Fin 0, rdr_Lng = Fin 0 \<rparr>"

theorem RegisterDriver_reports_available_witness:
  "\<exists>d s' w'. run_state (RegisterDriver ref_redis one_cell log_pg (\<lambda>_. 0) (demo_svc\<lparr>dsvc_db := False\<rparr>) demo_register) demo_full
      = ((RpcOk d, s'), w') \<and> d_State d = DS_AVAILABLE \<and> hot_state ref_redis (srv w') (d_Id d) = StateOffline"
proof -
  have "ref_view demo (DriverKey ''drv-d1'') = None" "ref_view demo (DriverLocKey ''drv-d1'') = None"
    by (simp_all add: demo_def ref_view_def ref_live_def) (simp add: key_defs)
  then have "init_typed ref_redis (srv demo_full) (''drv-'' @ rdr_Email demo_register) ''87''"
    by (simp add: init_typed_def demo_register_def plain_def)
  from RegisterDriver_reports_available [OF ref.redis_service_axioms full_simps(2) _ _ _ _ _ this,
      of one_cell log_pg "\<lambda>_. 0" demo_svc]
  show ?thesis by (auto simp: demo_register_def)
qed

end
