(* ===== verification/Ride.thy ===== *)
theory Ride
  imports Driver
begin

text \<open>
  \<^verbatim>\<open>internal/ride/service.go\<close>: the ride state machine and the Ride Service. \<open>clk n\<close> is the \<open>n\<close>-th
  clock reading of a handler, in nanoseconds. The hot state of a ride is the Redis hash at its
  key; Postgres is written on the side.
\<close>

section \<open>The state machine\<close>

definition StateRequested :: string where "StateRequested = ''REQUESTED''"
definition StateMatched :: string where "StateMatched = ''MATCHED''"
definition StateDriverEnRoute :: string where "StateDriverEnRoute = ''DRIVER_EN_ROUTE''"
definition StateArrived :: string where "StateArrived = ''ARRIVED''"
definition StateInProgress :: string where "StateInProgress = ''IN_PROGRESS''"
definition StateCompleted :: string where "StateCompleted = ''COMPLETED''"
definition StateCancelled :: string where "StateCancelled = ''CANCELLED''"
definition StateExpired :: string where "StateExpired = ''EXPIRED''"

lemmas ride_state_defs = StateRequested_def StateMatched_def StateDriverEnRoute_def StateArrived_def
  StateInProgress_def StateCompleted_def StateCancelled_def StateExpired_def

lemma ride_states_distinct:
  "distinct [StateRequested, StateMatched, StateDriverEnRoute, StateArrived, StateInProgress,
     StateCompleted, StateCancelled, StateExpired]"
  "distinct [StateExpired, StateCancelled, StateCompleted, StateInProgress, StateArrived,
     StateDriverEnRoute, StateMatched, StateRequested]"
  by (simp_all add: ride_state_defs)

lemmas ride_states_neq [simp] = ride_states_distinct [simplified]

definition validRideTransitions :: "(string \<times> string list) list" where
  "validRideTransitions =
     [(StateRequested, [StateMatched, StateCancelled, StateExpired]),
      (StateMatched, [StateDriverEnRoute, StateCancelled, StateExpired]),
      (StateDriverEnRoute, [StateArrived, StateCancelled]),
      (StateArrived, [StateInProgress, StateCancelled]),
      (StateInProgress, [StateCompleted])]"

definition ride_CanTransition :: "string \<Rightarrow> string \<Rightarrow> bool" where
  "ride_CanTransition from to =
     (from = to \<or> (case map_of validRideTransitions from of None \<Rightarrow> False | Some tos \<Rightarrow> to \<in> set tos))"

section \<open>The service\<close>

datatype RideState =
    RIDE_STATE_UNSPECIFIED | RS_REQUESTED | RS_MATCHED | RS_DRIVER_EN_ROUTE | RS_ARRIVED
  | RS_IN_PROGRESS | RS_COMPLETED | RS_CANCELLED | RS_EXPIRED

definition ride_stateToProto :: "string \<Rightarrow> RideState" where
  "ride_stateToProto s =
     (if s = StateRequested then RS_REQUESTED else if s = StateMatched then RS_MATCHED
      else if s = StateDriverEnRoute then RS_DRIVER_EN_ROUTE else if s = StateArrived then RS_ARRIVED
      else if s = StateInProgress then RS_IN_PROGRESS else if s = StateCompleted then RS_COMPLETED
      else if s = StateCancelled then RS_CANCELLED else if s = StateExpired then RS_EXPIRED
      else RIDE_STATE_UNSPECIFIED)"

record Ride =
  rd_Id :: string
  rd_UserId :: string
  rd_DriverId :: string
  rd_State :: RideState
  rd_PickupLat :: float64
  rd_PickupLng :: float64
  rd_DropoffLat :: float64
  rd_DropoffLng :: float64
  rd_CreatedAtMs :: int

record RideSvc =
  rsvc_db :: bool
  rsvc_prod :: bool

record CreateRideRequest =
  cr_UserId :: string
  cr_PickupLat :: float64
  cr_PickupLng :: float64
  cr_DropoffLat :: float64
  cr_DropoffLng :: float64
  cr_RadiusM :: int

text \<open>The radius \<^verbatim>\<open>CreateRide\<close> stores, and the event it publishes.\<close>

definition ride_radius :: "CreateRideRequest \<Rightarrow> int" where
  "ride_radius req = (if cr_RadiusM req \<le> 0 then 1000 else cr_RadiusM req)"

definition ride_event :: "CreateRideRequest \<Rightarrow> string \<Rightarrow> int \<Rightarrow> RideRequested" where
  "ride_event req rideID now =
     \<lparr> rq_Env = \<lparr> EventID = ''req-'' @ rideID, ev_Type = ''ride.requested'', Timestamp = now,
                  TraceID = [], RequestID = [] \<rparr>,
       rq_RideID = rideID, rq_UserID = cr_UserId req, rq_PickupLat = cr_PickupLat req,
       rq_PickupLng = cr_PickupLng req, rq_DropoffLat = cr_DropoffLat req,
       rq_DropoffLng = cr_DropoffLng req, rq_RadiusM = ride_radius req \<rparr>"

definition CreateRide ::
  "'s redis \<Rightarrow> 'q pg \<Rightarrow> (nat \<Rightarrow> int) \<Rightarrow> RideSvc \<Rightarrow> CreateRideRequest \<Rightarrow> (('s, 'q, 'm) full_scheme, Ride rpc) state"
where
  "CreateRide R Q clk s req =
     (if cr_UserId req = [] then State_Monad.return (Status InvalidArgument)
      else if ValidateLatLng (cr_PickupLat req) (cr_PickupLng req) \<noteq> None
      then State_Monad.return (Status InvalidArgument)
      else if (\<not> f_eq (cr_DropoffLat req) (Fin 0) \<or> \<not> f_eq (cr_DropoffLng req) (Fin 0))
        \<and> ValidateLatLng (cr_DropoffLat req) (cr_DropoffLng req) \<noteq> None
      then State_Monad.return (Status InvalidArgument)
      else do {
        let radius = ride_radius req;
        let rideID = ''ride-'' @ show_int (clk 0);
        (if rsvc_db s then do {
           _ \<leftarrow> InsertRide Q rideID (cr_UserId req) (cr_PickupLat req) (cr_PickupLng req)
                 (cr_DropoffLat req) (cr_DropoffLng req) radius;
           State_Monad.return () }
         else State_Monad.return ());
        _ \<leftarrow> SetRide R rideID
              [(''id'', BStr rideID), (''user_id'', BStr (cr_UserId req)), (''state'', BStr StateRequested),
               (''pickup_lat'', BFloat (cr_PickupLat req)), (''pickup_lng'', BFloat (cr_PickupLng req)),
               (''dropoff_lat'', BFloat (cr_DropoffLat req)), (''dropoff_lng'', BFloat (cr_DropoffLng req)),
               (''radius_m'', BInt radius), (''created_at'', BInt (ms (clk 1)))]
              (30 * 60 * 10 ^ 9);
        (if rsvc_prod s then
           (case Encode (EvRideRequested (ride_event req rideID (clk 2))) of
              None \<Rightarrow> State_Monad.return ()
            | Some b \<Rightarrow> do { _ \<leftarrow> Publish TopicRideRequested rideID b; State_Monad.return () })
         else State_Monad.return ());
        State_Monad.return (RpcOk \<lparr> rd_Id = rideID, rd_UserId = cr_UserId req, rd_DriverId = [],
          rd_State = RS_REQUESTED, rd_PickupLat = cr_PickupLat req, rd_PickupLng = cr_PickupLng req,
          rd_DropoffLat = cr_DropoffLat req, rd_DropoffLng = cr_DropoffLng req,
          rd_CreatedAtMs = ms (clk 3) \<rparr>) })"

definition rideFromHot :: "'s redis \<Rightarrow> (string \<rightharpoonup> bulk) \<Rightarrow> Ride" where
  "rideFromHot R m =
     \<lparr> rd_Id = hget_text R (Inr (m ''id'')), rd_UserId = hget_text R (Inr (m ''user_id'')),
       rd_DriverId = hget_text R (Inr (m ''driver_id'')),
       rd_State = ride_stateToProto (hget_text R (Inr (m ''state''))),
       rd_PickupLat = ParseFloat (m ''pickup_lat''), rd_PickupLng = ParseFloat (m ''pickup_lng''),
       rd_DropoffLat = Fin 0, rd_DropoffLng = Fin 0, rd_CreatedAtMs = Sscanf_d (m ''created_at'') \<rparr>"

definition GetRide ::
  "'s redis \<Rightarrow> 'q pg \<Rightarrow> RideSvc \<Rightarrow> string \<Rightarrow> (('s, 'q, 'm) full_scheme, Ride rpc) state"
where
  "GetRide R Q s rideId = do {
     r \<leftarrow> Store_GetRide R rideId;
     case r of
       Inr (f # fs) \<Rightarrow> State_Monad.return (RpcOk (rideFromHot R (map_of (f # fs))))
     | _ \<Rightarrow>
       if rsvc_db s then do {
         row \<leftarrow> Repo_GetRide Q rideId;
         State_Monad.return (case row of
             Inl _ \<Rightarrow> Status Internal
           | Inr None \<Rightarrow> Status NotFound
           | Inr (Some x) \<Rightarrow> RpcOk \<lparr> rd_Id = rrow_ID x, rd_UserId = rrow_UserID x, rd_DriverId = rrow_DriverID x,
               rd_State = ride_stateToProto (rrow_State x), rd_PickupLat = rrow_PickupLat x,
               rd_PickupLng = rrow_PickupLng x, rd_DropoffLat = rrow_DropLat x,
               rd_DropoffLng = rrow_DropLng x, rd_CreatedAtMs = 0 \<rparr>) }
       else State_Monad.return (Status NotFound) }"

definition CancelRide ::
  "'s redis \<Rightarrow> 'q pg \<Rightarrow> RideSvc \<Rightarrow> string \<Rightarrow> string \<Rightarrow> (('s, 'q, 'm) full_scheme, Ride rpc) state"
where
  "CancelRide R Q s rideId reason = do {
     r \<leftarrow> Store_GetRide R rideId;
     case r of
       Inr (f # fs) \<Rightarrow>
         if \<not> ride_CanTransition (hget_text R (Inr (map_of (f # fs) ''state''))) StateCancelled
         then State_Monad.return (Status FailedPrecondition)
         else do {
           _ \<leftarrow> rwrite (rHSET R (RideKey rideId) [(''state'', BStr StateCancelled), (''cancel_reason'', BStr reason)]);
           (if rsvc_db s then do {
              _ \<leftarrow> UpdateRideState Q rideId StateCancelled [] reason;
              _ \<leftarrow> InsertRideEvent Q rideId StateCancelled [] reason (''cancel-'' @ rideId);
              State_Monad.return () }
            else State_Monad.return ());
           State_Monad.return (RpcOk (rideFromHot R [''id'' \<mapsto> BStr rideId, ''state'' \<mapsto> BStr StateCancelled,
             ''cancel_reason'' \<mapsto> BStr reason])) }
     | _ \<Rightarrow> State_Monad.return (Status NotFound) }"

record ListRidesResponse =
  lr_Rides :: "Ride list"
  lr_NextCursor :: int
  lr_HasMore :: bool

text \<open>The loop over the rows: \<open>None\<close> when a row does not scan.\<close>

fun list_rows :: "RideRow option list \<Rightarrow> Ride list \<times> int \<Rightarrow> (Ride list \<times> int) option" where
  "list_rows [] acc = Some acc"
| "list_rows (None # rows) acc = None"
| "list_rows (Some x # rows) (rides, nextCursor) = list_rows rows
     (rides @ [\<lparr> rd_Id = rrow_ID x, rd_UserId = rrow_UserID x, rd_DriverId = rrow_DriverID x,
         rd_State = ride_stateToProto (rrow_State x), rd_PickupLat = rrow_PickupLat x,
         rd_PickupLng = rrow_PickupLng x, rd_DropoffLat = rrow_DropLat x, rd_DropoffLng = rrow_DropLng x,
         rd_CreatedAtMs = ms (rrow_CreatedAt x) \<rparr>], ms (rrow_CreatedAt x))"

definition ListRides ::
  "'q pg \<Rightarrow> RideSvc \<Rightarrow> string \<Rightarrow> int \<Rightarrow> int \<Rightarrow> (('s, 'q, 'm) full_scheme, ListRidesResponse rpc) state"
where
  "ListRides Q s userId cursorCreatedMs reqLimit =
     (if \<not> rsvc_db s then State_Monad.return (RpcOk \<lparr> lr_Rides = [], lr_NextCursor = 0, lr_HasMore = False \<rparr>)
      else do {
        let limit = (if reqLimit \<le> 0 \<or> reqLimit > 100 then 20 else reqLimit);
        rows \<leftarrow> pgx_Query (pgList Q userId cursorCreatedMs limit);
        State_Monad.return (case rows of
            Inl _ \<Rightarrow> Status Internal
          | Inr rows \<Rightarrow> (case list_rows rows ([], 0) of
              None \<Rightarrow> Status Internal
            | Some (rides, nextCursor) \<Rightarrow>
                let hasMore = (int (length rides) = limit);
                    nextCursor = (if hasMore \<and> length rides > 0 then rd_CreatedAtMs (last rides) else nextCursor)
                in RpcOk \<lparr> lr_Rides = rides, lr_NextCursor = nextCursor, lr_HasMore = hasMore \<rparr>)) })"

section \<open>Properties of the state machine\<close>

lemma ride_CanTransition_cases:
  "ride_CanTransition s t \<longleftrightarrow> s = t
     \<or> s = StateRequested \<and> t \<in> {StateMatched, StateCancelled, StateExpired}
     \<or> s = StateMatched \<and> t \<in> {StateDriverEnRoute, StateCancelled, StateExpired}
     \<or> s = StateDriverEnRoute \<and> t \<in> {StateArrived, StateCancelled}
     \<or> s = StateArrived \<and> t \<in> {StateInProgress, StateCancelled}
     \<or> s = StateInProgress \<and> t = StateCompleted"
  by (auto simp: ride_CanTransition_def validRideTransitions_def)

lemma ride_CanTransition_from:
  assumes "ride_CanTransition s t" and "s \<noteq> t"
  shows "t = StateCompleted \<Longrightarrow> s = StateInProgress" "t = StateInProgress \<Longrightarrow> s = StateArrived"
    "t = StateArrived \<Longrightarrow> s = StateDriverEnRoute" "t = StateDriverEnRoute \<Longrightarrow> s = StateMatched"
  using assms by (auto simp: ride_CanTransition_cases)

definition ride_terminal :: "string set" where
  "ride_terminal = {StateCompleted, StateCancelled, StateExpired}"

text \<open>The stage of a ride; every proper transition raises it.\<close>

definition ride_stage :: "string \<Rightarrow> nat" where
  "ride_stage s = (if s = StateRequested then 0 else if s = StateMatched then 1
     else if s = StateDriverEnRoute then 2 else if s = StateArrived then 3 else if s = StateInProgress then 4 else 5)"

lemma ride_stage_step: "ride_CanTransition s t \<Longrightarrow> s = t \<or> ride_stage s < ride_stage t"
  by (auto simp: ride_CanTransition_cases ride_stage_def)

lemma remdups_adj_climbs:
  "successively (\<lambda>a b. a = b \<or> (f a :: nat) < f b) xs \<Longrightarrow> successively (\<lambda>a b. f a < f b) (remdups_adj xs)"
  by (induction xs rule: remdups_adj.induct) (auto simp: successively_Cons)

lemma climbs_distinct: "successively (\<lambda>a b. (f a :: nat) < f b) xs \<Longrightarrow> distinct xs"
  by (subst (asm) successively_conv_sorted_wrt) (auto simp: transp_def strict_sorted_iff sorted_wrt_map [symmetric] distinct_map)

lemma ride_terminal_out: "s \<in> ride_terminal \<Longrightarrow> ride_CanTransition s t \<longleftrightarrow> t = s"
  by (auto simp: ride_terminal_def ride_CanTransition_cases)

lemma ride_stuck:
  "successively ride_CanTransition (s # ys) \<Longrightarrow> s \<in> ride_terminal \<Longrightarrow> set ys \<subseteq> {s}"
proof (induction ys)
  case (Cons y ys)
  then have "y = s" by (simp add: ride_terminal_out)
  with Cons show ?case by simp
qed simp

text \<open>
  C17. The ride state machine. Along every history that starts \<^verbatim>\<open>REQUESTED\<close> no state is left and
  entered again, a terminal state is never left, and a completed ride went through \<^verbatim>\<open>MATCHED\<close>,
  \<^verbatim>\<open>DRIVER_EN_ROUTE\<close>, \<^verbatim>\<open>ARRIVED\<close> and \<^verbatim>\<open>IN_PROGRESS\<close>.
\<close>

theorem ride_histories:
  assumes "successively ride_CanTransition p" and "p \<noteq> []" and "hd p = StateRequested"
  shows "distinct (remdups_adj p)
    \<and> (\<forall>xs s ys. p = xs @ s # ys \<and> s \<in> ride_terminal \<longrightarrow> set ys \<subseteq> {s})
    \<and> (StateCompleted \<in> set p \<longrightarrow> {StateMatched, StateDriverEnRoute, StateArrived, StateInProgress} \<subseteq> set p)"
proof -
  have "successively (\<lambda>a b. a = b \<or> ride_stage a < ride_stage b) p"
    by (rule successively_mono [OF assms(1)]) (rule ride_stage_step)
  then have "distinct (remdups_adj p)" by (intro climbs_distinct remdups_adj_climbs)
  moreover have "set ys \<subseteq> {s}" if "p = xs @ s # ys" "s \<in> ride_terminal" for xs s ys
    using ride_stuck [of s ys] that assms(1) by (auto simp: successively_append_iff)
  moreover have "(StateCompleted \<in> set p \<longrightarrow> StateInProgress \<in> set p) \<and> (StateInProgress \<in> set p \<longrightarrow> StateArrived \<in> set p)
      \<and> (StateArrived \<in> set p \<longrightarrow> StateDriverEnRoute \<in> set p) \<and> (StateDriverEnRoute \<in> set p \<longrightarrow> StateMatched \<in> set p)"
    using assms
  proof (induction p rule: rev_induct)
    case (snoc t p)
    show ?case
    proof (cases "p = []")
      case False
      then obtain l where l: "l \<in> set p" "ride_CanTransition l t"
        using snoc.prems(1) by (auto simp: successively_append_iff intro: last_in_set)
      have ih: "(StateCompleted \<in> set p \<longrightarrow> StateInProgress \<in> set p) \<and> (StateInProgress \<in> set p \<longrightarrow> StateArrived \<in> set p)
        \<and> (StateArrived \<in> set p \<longrightarrow> StateDriverEnRoute \<in> set p) \<and> (StateDriverEnRoute \<in> set p \<longrightarrow> StateMatched \<in> set p)"
        using snoc False by (simp add: successively_append_iff)
      show ?thesis
      proof (cases "t \<in> set p")
        case True
        then show ?thesis using ih by (simp add: insert_absorb)
      next
        case new: False
        then have "l \<noteq> t" using l(1) by blast
        from ride_CanTransition_from [OF l(2) this] l(1) ih show ?thesis by auto
      qed
    qed (use snoc.prems in \<open>auto\<close>)
  qed simp
  ultimately show ?thesis by blast
qed

theorem ride_histories_witness:
  "distinct (remdups_adj [StateRequested, StateMatched, StateMatched, StateCancelled])"
proof -
  have "successively ride_CanTransition [StateRequested, StateMatched, StateMatched, StateCancelled]"
    by (simp add: ride_CanTransition_cases)
  from ride_histories [OF this] show ?thesis by simp
qed

section \<open>Properties of the service\<close>

definition create_ok :: "CreateRideRequest \<Rightarrow> bool" where
  "create_ok req \<longleftrightarrow> cr_UserId req \<noteq> [] \<and> ValidateLatLng (cr_PickupLat req) (cr_PickupLng req) = None
     \<and> (f_eq (cr_DropoffLat req) (Fin 0) \<and> f_eq (cr_DropoffLng req) (Fin 0)
        \<or> ValidateLatLng (cr_DropoffLat req) (cr_DropoffLng req) = None)"

lemma ride_event_encodes:
  assumes "create_ok req"
  obtains b where "Encode (EvRideRequested (ride_event req i t)) = Some b"
proof -
  obtain a1 b1 where p: "cr_PickupLat req = Fin a1" "cr_PickupLng req = Fin b1"
    using assms ValidateLatLng_finite unfolding create_ok_def by metis
  obtain a2 b2 where d: "cr_DropoffLat req = Fin a2" "cr_DropoffLng req = Fin b2"
    using assms ValidateLatLng_finite unfolding create_ok_def f_eq_def by metis
  show thesis by (rule that) (simp add: json_simps ride_event_def p d)
qed

text \<open>The event as the dispatch service reads it.\<close>

definition ride_event_read :: "CreateRideRequest \<Rightarrow> string \<Rightarrow> int \<Rightarrow> RideRequested" where
  "ride_event_read req i t = (ride_event req i t)\<lparr>rq_UserID := json_string (cr_UserId req)\<rparr>"

lemma ride_event_decodes:
  assumes "Encode (EvRideRequested (ride_event req i t)) = Some b" and "i = ''ride-'' @ show_int c" and "\<bar>cr_RadiusM req\<bar> < 2 ^ 31"
  shows "DecodeRideRequested b = Some (ride_event_read req i t)"
proof -
  have "DecodeRideRequested b = Some (json_ride (ride_event req i t))"
    by (rule DecodeRideRequested_Encode [OF assms(1)]) (use assms(3) in \<open>auto simp: ride_event_def ride_radius_def\<close>)
  then show ?thesis by (simp add: json_ride_def json_env_def ride_event_read_def ride_event_def assms(2))
qed

text \<open>The hash \<^verbatim>\<open>CreateRide\<close> writes for a fresh ride.\<close>

definition ride_hash :: "CreateRideRequest \<Rightarrow> string \<Rightarrow> int \<Rightarrow> (string \<rightharpoonup> bulk)" where
  "ride_hash req i now = [''id'' \<mapsto> BStr i, ''user_id'' \<mapsto> BStr (cr_UserId req), ''state'' \<mapsto> BStr StateRequested,
     ''pickup_lat'' \<mapsto> BFloat (cr_PickupLat req), ''pickup_lng'' \<mapsto> BFloat (cr_PickupLng req),
     ''dropoff_lat'' \<mapsto> BFloat (cr_DropoffLat req), ''dropoff_lng'' \<mapsto> BFloat (cr_DropoffLng req),
     ''radius_m'' \<mapsto> BInt (ride_radius req), ''created_at'' \<mapsto> BInt now]"

lemma CreateRide_run:
  assumes "redis_service R" and "fates w = []" and "acks w = []" and "create_ok req" and "rsvc_prod s"
    and "view R (srv w) (RideKey i) = None" and "i = ''ride-'' @ show_int (clk 0)"
  obtains b w' where
    "run_state (CreateRide R Q clk s req) w = (RpcOk \<lparr> rd_Id = i, rd_UserId = cr_UserId req, rd_DriverId = [],
       rd_State = RS_REQUESTED, rd_PickupLat = cr_PickupLat req, rd_PickupLng = cr_PickupLng req,
       rd_DropoffLat = cr_DropoffLat req, rd_DropoffLng = cr_DropoffLng req, rd_CreatedAtMs = ms (clk 3) \<rparr>, w')"
    "Encode (EvRideRequested (ride_event req i (clk 2))) = Some b"
    "bus w' = bus w @ [\<lparr> msg_Topic = TopicRideRequested, msg_Key = i, msg_Value = b, msg_Headers = [] \<rparr>]"
    "view R (srv w') = (view R (srv w))(RideKey i \<mapsto> RHash (ride_hash req i (ms (clk 1))))"
    "pttl R (srv w') = (pttl R (srv w))(RideKey i \<mapsto> 1800000)" "fates w' = []" "acks w' = []"
proof -
  obtain b where b: "Encode (EvRideRequested (ride_event req i (clk 2))) = Some b"
    by (rule ride_event_encodes [OF assms(4)])
  define w' where "w' = snd (run_state (CreateRide R Q clk s req) w)"
  have v: "\<not> cr_UserId req = []" "\<not> ValidateLatLng (cr_PickupLat req) (cr_PickupLng req) \<noteq> None"
    "\<not> ((\<not> f_eq (cr_DropoffLat req) (Fin 0) \<or> \<not> f_eq (cr_DropoffLng req) (Fin 0))
        \<and> ValidateLatLng (cr_DropoffLat req) (cr_DropoffLng req) \<noteq> None)"
    using assms(4) by (auto simp: create_ok_def)
  note CR = CreateRide_def [of R Q clk s req, unfolded v [THEN if_not_P]]
  have t: "expire_seconds (30 * 60 * 10 ^ 9) = 1800" by (simp add: expire_seconds_def ttl_seconds_def)
  show thesis
  proof (rule that [of w' b])
  qed (use assms b t in \<open>simp_all add: w'_def CR split_beta Let_def SetRide_def
      redis_service.HSET_view [OF assms(1)] redis_service.HSET_pttl [OF assms(1)] redis_service.HSET_err [OF assms(1)]
      redis_service.PEXPIRE_view [OF assms(1)] redis_service.PEXPIRE_pttl [OF assms(1)] ride_hash_def\<close>)
qed

lemma GetRide_hot:
  assumes "redis_service R" and "fates w = []" and "view R (srv w) (RideKey i) = Some (RHash h)"
  shows "run_state (GetRide R Q s i) w = (RpcOk (rideFromHot R h), w)"
proof -
  obtain fs where "rHGETALL R (srv w) (RideKey i) = Inr fs" "map_of fs = h" "fs \<noteq> []"
    by (rule redis_service.HGETALL_hash [OF assms(1,3)])
  then show ?thesis using assms(2) by (cases fs) (auto simp: GetRide_def Store_GetRide_def)
qed

lemma GetRide_none:
  assumes "redis_service R" and "fates w = []" and "view R (srv w) (RideKey i) = None" and "\<not> rsvc_db s"
  shows "run_state (GetRide R Q s i) w = (Status NotFound, w)"
  using assms redis_service.HGETALL_none [OF assms(1,3)] by (simp add: GetRide_def Store_GetRide_def)

lemma GetRide_created:
  assumes "redis_service R" and "view R st = V(RideKey i \<mapsto> RHash (ride_hash req i t))"
    and "pttl R st = T(RideKey i \<mapsto> 1800000)" and "srv w = elapse R d st" and "fates w = []" and "\<bar>t\<bar> < 2 ^ 63"
  shows "run_state (GetRide R Q (s\<lparr>rsvc_db := False\<rparr>) i) w =
      (if d < 1800000 then RpcOk \<lparr> rd_Id = i, rd_UserId = cr_UserId req, rd_DriverId = [],
         rd_State = RS_REQUESTED, rd_PickupLat = cr_PickupLat req, rd_PickupLng = cr_PickupLng req,
         rd_DropoffLat = Fin 0, rd_DropoffLng = Fin 0, rd_CreatedAtMs = t \<rparr>
       else Status NotFound, w)"
proof -
  have hot: "rideFromHot R (ride_hash req i t) = \<lparr> rd_Id = i, rd_UserId = cr_UserId req, rd_DriverId = [],
       rd_State = RS_REQUESTED, rd_PickupLat = cr_PickupLat req, rd_PickupLng = cr_PickupLng req,
       rd_DropoffLat = Fin 0, rd_DropoffLng = Fin 0, rd_CreatedAtMs = t \<rparr>"
    using assms(6) by (auto simp: Let_def rideFromHot_def ride_hash_def hget_text_def bulk_text_def ParseFloat_def Sscanf_d_def
        ride_stateToProto_def)
  have v: "view R (srv w) (RideKey i) = (if d < 1800000 then Some (RHash (ride_hash req i t)) else None)"
    by (simp add: assms redis_service.elapse_view [OF assms(1)])
  show ?thesis
  proof (cases "d < 1800000")
    case True
    with GetRide_hot [OF assms(1,5), of i] v hot show ?thesis by simp
  next
    case False
    with GetRide_none [OF assms(1,5), of i "s\<lparr>rsvc_db := False\<rparr>"] v show ?thesis by simp
  qed
qed

text \<open>
  C19. Creating a ride. An invalid request is refused and changes nothing. A valid one stores the
  ride and publishes exactly one \<^verbatim>\<open>ride-requested\<close> message, keyed by the ride, that decodes to the
  request (in its user id JSON replaces bytes that are not valid UTF-8, \<open>json_string\<close>; nothing else
  changes). For the next 30 minutes \<^verbatim>\<open>GetRide\<close> returns the ride that was created, except that the
  drop-off is lost (it is stored, but not read back); after that the hot state is gone.
\<close>

theorem CreateRide_roundtrip:
  assumes "redis_service R" and "fates w = []" and "acks w = []" and "rsvc_prod s" and "\<bar>cr_RadiusM req\<bar> < 2 ^ 31"
    and "i = ''ride-'' @ show_int (clk 0)" and "view R (srv w) (RideKey i) = None" and "\<bar>ms (clk 1)\<bar> < 2 ^ 63"
  shows "(\<not> create_ok req \<longrightarrow> run_state (CreateRide R Q clk s req) w = (Status InvalidArgument, w))
    \<and> (create_ok req \<longrightarrow> (\<exists>ride w' msg. run_state (CreateRide R Q clk s req) w = (RpcOk ride, w')
        \<and> rd_Id ride = i \<and> rd_State ride = RS_REQUESTED
        \<and> bus w' = bus w @ [msg] \<and> msg_Topic msg = TopicRideRequested \<and> msg_Key msg = i
        \<and> DecodeRideRequested (msg_Value msg) = Some ((ride_event req i (clk 2))\<lparr>rq_UserID := json_string (cr_UserId req)\<rparr>)
        \<and> (\<forall>d w''. srv w'' = elapse R d (srv w') \<and> fates w'' = [] \<longrightarrow>
            run_state (GetRide R Q (s\<lparr>rsvc_db := False\<rparr>) i) w'' =
              (if d < 1800000
               then RpcOk (ride\<lparr>rd_DropoffLat := Fin 0, rd_DropoffLng := Fin 0, rd_CreatedAtMs := ms (clk 1)\<rparr>)
               else Status NotFound, w''))))"
proof (intro conjI impI)
  assume "\<not> create_ok req"
  then show "run_state (CreateRide R Q clk s req) w = (Status InvalidArgument, w)"
    by (auto simp: CreateRide_def create_ok_def)
next
  assume ok: "create_ok req"
  obtain b w' where cr:
    "run_state (CreateRide R Q clk s req) w = (RpcOk \<lparr> rd_Id = i, rd_UserId = cr_UserId req, rd_DriverId = [],
       rd_State = RS_REQUESTED, rd_PickupLat = cr_PickupLat req, rd_PickupLng = cr_PickupLng req,
       rd_DropoffLat = cr_DropoffLat req, rd_DropoffLng = cr_DropoffLng req, rd_CreatedAtMs = ms (clk 3) \<rparr>, w')"
    "Encode (EvRideRequested (ride_event req i (clk 2))) = Some b"
    "bus w' = bus w @ [\<lparr> msg_Topic = TopicRideRequested, msg_Key = i, msg_Value = b, msg_Headers = [] \<rparr>]"
    "view R (srv w') = (view R (srv w))(RideKey i \<mapsto> RHash (ride_hash req i (ms (clk 1))))"
    "pttl R (srv w') = (pttl R (srv w))(RideKey i \<mapsto> 1800000)"
    by (rule CreateRide_run [where clk = clk, OF assms(1-3) ok assms(4,7,6)]) (rule that)
  have dec: "DecodeRideRequested b = Some ((ride_event req i (clk 2))\<lparr>rq_UserID := json_string (cr_UserId req)\<rparr>)"
    using ride_event_decodes [OF cr(2) assms(6,5)] by (simp add: ride_event_read_def)
  have all: "\<forall>d w''. srv w'' = elapse R d (srv w') \<and> fates w'' = [] \<longrightarrow>
      run_state (GetRide R Q (s\<lparr>rsvc_db := False\<rparr>) i) w'' =
        (if d < 1800000 then RpcOk \<lparr> rd_Id = i, rd_UserId = cr_UserId req, rd_DriverId = [],
           rd_State = RS_REQUESTED, rd_PickupLat = cr_PickupLat req, rd_PickupLng = cr_PickupLng req,
           rd_DropoffLat = Fin 0, rd_DropoffLng = Fin 0, rd_CreatedAtMs = ms (clk 1) \<rparr>
         else Status NotFound, w'')"
    using GetRide_created [OF assms(1) cr(4,5) _ _ assms(8)] by blast
  show "\<exists>ride w' msg. run_state (CreateRide R Q clk s req) w = (RpcOk ride, w')
        \<and> rd_Id ride = i \<and> rd_State ride = RS_REQUESTED
        \<and> bus w' = bus w @ [msg] \<and> msg_Topic msg = TopicRideRequested \<and> msg_Key msg = i
        \<and> DecodeRideRequested (msg_Value msg) = Some ((ride_event req i (clk 2))\<lparr>rq_UserID := json_string (cr_UserId req)\<rparr>)
        \<and> (\<forall>d w''. srv w'' = elapse R d (srv w') \<and> fates w'' = [] \<longrightarrow>
            run_state (GetRide R Q (s\<lparr>rsvc_db := False\<rparr>) i) w'' =
              (if d < 1800000
               then RpcOk (ride\<lparr>rd_DropoffLat := Fin 0, rd_DropoffLng := Fin 0, rd_CreatedAtMs := ms (clk 1)\<rparr>)
               else Status NotFound, w''))"
    by (rule exI, rule exI [of _ w'],
        rule exI [of _ "\<lparr> msg_Topic = TopicRideRequested, msg_Key = i, msg_Value = b, msg_Headers = [] \<rparr>"], rule conjI, rule cr(1))
      (use cr(3) dec all in \<open>simp split del: if_split cong: if_cong\<close>)
qed

definition demo_create :: CreateRideRequest where
  "demo_create = \<lparr> cr_UserId = ''u1'', cr_PickupLat = Fin 1, cr_PickupLng = Fin 2, cr_DropoffLat = Fin 3,
     cr_DropoffLng = Fin 4, cr_RadiusM = 500 \<rparr>"

definition demo_rsvc :: RideSvc where
  "demo_rsvc = \<lparr> rsvc_db = True, rsvc_prod = True \<rparr>"

lemma demo_create_ok: "create_ok demo_create"
  by (simp add: create_ok_def demo_create_def ValidateLatLng_def)

theorem CreateRide_roundtrip_witness:
  "\<exists>ride w' msg. run_state (CreateRide ref_redis log_pg (\<lambda>_. 7) demo_rsvc demo_create) demo_full = (RpcOk ride, w')
     \<and> bus w' = [msg] \<and> rd_Id ride = ''ride-7''"
proof -
  have r: "''ride-7'' = ''ride-'' @ show_int ((\<lambda>_. 7) 0)" by code_simp
  have v: "view ref_redis (srv demo_full) (RideKey ''ride-7'') = None" by simp
  have "bus demo_full = []" by (simp add: demo_full_def)
  with CreateRide_roundtrip [where clk = "\<lambda>_. 7" and w = demo_full and s = demo_rsvc and req = demo_create and Q = log_pg,
      OF ref.redis_service_axioms _ _ _ _ r v] demo_create_ok
  show ?thesis by (auto simp: demo_rsvc_def demo_create_def ms_def)
qed

text \<open>The state a ride's hash records, as text; empty when there is none.\<close>

definition ride_state :: "'s redis \<Rightarrow> 's \<Rightarrow> string \<Rightarrow> string" where
  "ride_state R st i = hget_text R (Inr (hash_or_empty (view R st (RideKey i)) ''state''))"

definition cancellable :: "string set" where
  "cancellable = {StateRequested, StateMatched, StateDriverEnRoute, StateArrived, StateCancelled}"

lemma cancellable_iff: "ride_CanTransition s StateCancelled \<longleftrightarrow> s \<in> cancellable"
  by (auto simp: cancellable_def ride_CanTransition_cases)

lemma Store_GetRide_srv [simp]: "srv (snd (run_state (Store_GetRide R i) w)) = srv w"
  by (simp add: Store_GetRide_def split_beta)

lemma Store_GetRide_fst:
  assumes "redis_service R" and "fst (run_state (Store_GetRide R i) w) = Inr fs"
  shows "is_hash (view R (srv w) (RideKey i)) \<and> map_of fs = hash_or_empty (view R (srv w) (RideKey i))"
  using assms(2) rread_fst [of "\<lambda>s. rHGETALL R s (RideKey i)" w] redis_service.HGETALL_law [OF assms(1), of "srv w" "RideKey i"]
  by (auto simp: Store_GetRide_def split_beta split: sum.splits)

lemma CancelRide_splits:
  fixes w :: "('s, 'q, 'm) full_scheme"
  assumes "redis_service R" and "run_state (CancelRide R Q s i reason) w = (x, w')"
  obtains (refused) "\<nexists>r. x = RpcOk r" "srv w' = srv w"
  | (cancelled) r and w1 :: "('s, 'q, 'm) full_scheme" where "x = RpcOk r" "ride_state R (srv w) i \<in> cancellable" "view R (srv w) (RideKey i) \<noteq> None"
      "srv w1 = srv w"
      "srv w' = srv (snd (run_state (rwrite (rHSET R (RideKey i) [(''state'', BStr StateCancelled), (''cancel_reason'', BStr reason)])) w1))"
proof (cases "fst (run_state (Store_GetRide R i) w)")
  case (Inl e)
  then show thesis using assms(2) refused by (auto simp: CancelRide_def split_beta)
next
  case (Inr fs)
  note v = Store_GetRide_fst [OF assms(1) Inr]
  show thesis
  proof (cases fs)
    case Nil
    then show thesis using Inr assms(2) refused by (auto simp: CancelRide_def split_beta)
  next
    case (Cons f gs)
    let ?st = "ride_state R (srv w) i"
    have st: "hget_text R (Inr (map_of (f # gs) ''state'')) = ?st" using v Cons by (simp add: ride_state_def)
    have ne: "view R (srv w) (RideKey i) \<noteq> None"
    proof
      assume "view R (srv w) (RideKey i) = None"
      then have "map_of fs (fst f) = None" using v by simp
      with Cons show False by (cases f) simp
    qed
    define w1 where "w1 = snd (run_state (Store_GetRide R i) w)"
    show thesis
    proof (cases "?st \<in> cancellable")
      case True
      then show thesis
        using Inr Cons assms(2) st ne
        by (intro cancelled [of _ w1]) (auto simp: CancelRide_def split_beta cancellable_iff w1_def simp del: map_of.simps)
    next
      case False
      then show thesis
        using Inr Cons assms(2) st refused
        by (auto simp: CancelRide_def split_beta cancellable_iff simp del: map_of.simps)
    qed
  qed
qed

lemma cancel_write:
  fixes reason :: string
  assumes "redis_service R" and "is_hash (view R st (RideKey i))"
  defines "st' \<equiv> snd (rHSET R (RideKey i) [(''state'', BStr StateCancelled), (''cancel_reason'', BStr reason)] st)"
  shows "ride_state R st' i = StateCancelled" "k \<noteq> RideKey i \<Longrightarrow> view R st' k = view R st k" "pttl R st' = pttl R st"
    "view R st' (RideKey i) \<noteq> None" "is_hash (view R st' (RideKey i))"
  using assms(2) unfolding st'_def
  by (simp_all add: redis_service.HSET_view [OF assms(1)] redis_service.HSET_pttl [OF assms(1)] ride_state_def
      hget_text_def bulk_text_def)

lemma rwrite_srv:
  "srv (snd (run_state (rwrite cmd) w)) \<in> {srv w, snd (cmd (srv w))}"
  by (rule rdo_cases [of "\<lambda>s. case cmd s of (Some e, st') \<Rightarrow> (Inl e, st') | (None, st') \<Rightarrow> (Inr (), st')" w])
    (auto simp: rwrite_def split_beta split: option.splits prod.splits)

lemma CancelRide_answered:
  assumes "redis_service R" and "fates w = []" and "is_hash (view R (srv w) (RideKey i))"
    and "ride_state R (srv w) i \<in> cancellable"
  obtains r w' where "run_state (CancelRide R Q s i reason) w = (RpcOk r, w')" "rd_Id r = i" "rd_State r = RS_CANCELLED"
    "fates w' = []"
    "srv w' = snd (rHSET R (RideKey i) [(''state'', BStr StateCancelled), (''cancel_reason'', BStr reason)] (srv w))"
proof -
  have "view R (srv w) (RideKey i) \<noteq> None"
  proof
    assume "view R (srv w) (RideKey i) = None"
    then have "ride_state R (srv w) i = []" by (simp add: ride_state_def hget_text_def)
    with assms(4) show False by (simp add: cancellable_def ride_state_defs)
  qed
  then obtain h where h: "view R (srv w) (RideKey i) = Some (RHash h)"
    using assms(3) by (auto simp: is_hash_def split: option.splits rvalue.splits)
  obtain fs where "rHGETALL R (srv w) (RideKey i) = Inr fs" "map_of fs = h" "fs \<noteq> []"
    by (rule redis_service.HGETALL_hash [OF assms(1) h])
  moreover obtain f gs where "fs = f # gs" using calculation(3) by (cases fs) auto
  ultimately have get: "run_state (Store_GetRide R i) w = (Inr (f # gs), w)"
    and m: "map_of (f # gs) = h"
    using assms(2) by (simp_all add: Store_GetRide_def)
  have ok: "ride_CanTransition (hget_text R (Inr (h ''state''))) StateCancelled"
    using assms(4) h by (simp add: ride_state_def cancellable_iff)
  define w' where "w' = snd (run_state (CancelRide R Q s i reason) w)"
  define r where "r = rideFromHot R [''id'' \<mapsto> BStr i, ''state'' \<mapsto> BStr StateCancelled, ''cancel_reason'' \<mapsto> BStr reason]"
  have "run_state (CancelRide R Q s i reason) w = (RpcOk r, w')"
    "srv w' = snd (rHSET R (RideKey i) [(''state'', BStr StateCancelled), (''cancel_reason'', BStr reason)] (srv w))"
    "fates w' = []"
    using assms(2) get ok
    by (simp_all add: CancelRide_def split_beta w'_def r_def m del: map_of.simps)
  moreover have "rd_Id r = i" "rd_State r = RS_CANCELLED"
    by (simp_all add: r_def rideFromHot_def hget_text_def bulk_text_def ride_stateToProto_def)
  ultimately show thesis by (intro that)
qed

text \<open>
  C18. Cancelling a ride. Whatever happens to its calls, \<^verbatim>\<open>CancelRide\<close> leaves every key but the ride's
  own as it was -- in particular the reserved driver and its lease -- and reports success only for
  a ride that was \<^verbatim>\<open>REQUESTED\<close>, \<^verbatim>\<open>MATCHED\<close>, \<^verbatim>\<open>DRIVER_EN_ROUTE\<close>, \<^verbatim>\<open>ARRIVED\<close> or already \<^verbatim>\<open>CANCELLED\<close>: not for
  one in progress, and again for one that is terminal. When its calls are answered, it succeeds for all of those, the
  recorded state is then \<^verbatim>\<open>CANCELLED\<close>, and cancelling again succeeds too.
\<close>

theorem CancelRide_contract:
  assumes "redis_service R" and "is_hash (view R (srv w) (RideKey i))"
    and "run_state (CancelRide R Q s i reason) w = (x, w')"
  shows "(\<forall>k. k \<noteq> RideKey i \<longrightarrow> view R (srv w') k = view R (srv w) k)
    \<and> ride_state R (srv w') i \<in> {ride_state R (srv w) i, StateCancelled}
    \<and> ((\<exists>r. x = RpcOk r) \<longrightarrow> ride_state R (srv w) i \<in> cancellable)
    \<and> ((\<nexists>r. x = RpcOk r) \<longrightarrow> srv w' = srv w)
    \<and> (fates w = [] \<and> ride_state R (srv w) i \<in> cancellable \<longrightarrow>
        ride_state R (srv w') i = StateCancelled \<and> (\<exists>r. x = RpcOk r \<and> rd_State r = RS_CANCELLED)
        \<and> (\<exists>r w''. run_state (CancelRide R Q s i reason') w' = (RpcOk r, w'')))"
proof -
  note cw = cancel_write [where reason = reason, OF assms(1,2)]
  have again: "ride_state R (srv w') i = StateCancelled \<and> (\<exists>r. x = RpcOk r \<and> rd_State r = RS_CANCELLED)
      \<and> (\<exists>r w''. run_state (CancelRide R Q s i reason') w' = (RpcOk r, w''))"
    if f: "fates w = []" and st: "ride_state R (srv w) i \<in> cancellable"
  proof -
    obtain r w1 where w1: "run_state (CancelRide R Q s i reason) w = (RpcOk r, w1)" "rd_State r = RS_CANCELLED"
      "fates w1 = []"
      "srv w1 = snd (rHSET R (RideKey i) [(''state'', BStr StateCancelled), (''cancel_reason'', BStr reason)] (srv w))"
      by (rule CancelRide_answered [OF assms(1) f assms(2) st, of Q s reason]) (rule that)
    have c: "ride_state R (srv w1) i = StateCancelled" and h: "is_hash (view R (srv w1) (RideKey i))"
      using cw(1,5) by (simp_all add: w1(4))
    moreover have "\<exists>r w''. run_state (CancelRide R Q s i reason') w1 = (RpcOk r, w'')"
      by (rule CancelRide_answered [OF assms(1) w1(3) h, of Q s reason']) (use c in \<open>auto simp: cancellable_def\<close>)
    ultimately show ?thesis using w1 assms(3) by auto
  qed
  show ?thesis
  proof (rule CancelRide_splits [OF assms(1,3)])
    assume "\<nexists>r. x = RpcOk r" "srv w' = srv w"
    then show ?thesis using again by auto
  next
    fix r and w1 :: "('a, 'b, 'c) full_scheme"
    assume c: "x = RpcOk r" "ride_state R (srv w) i \<in> cancellable" "srv w1 = srv w"
      "srv w' = srv (snd (run_state (rwrite (rHSET R (RideKey i) [(''state'', BStr StateCancelled), (''cancel_reason'', BStr reason)])) w1))"
    have "srv w' \<in> {srv w, snd (rHSET R (RideKey i) [(''state'', BStr StateCancelled), (''cancel_reason'', BStr reason)] (srv w))}"
      using rwrite_srv [of _ w1] c(3,4) by metis
    then show ?thesis using c(1,2) cw(1,2) again by auto
  qed
qed

definition matched_full :: "(ref, sql list) full" where
  "matched_full = \<lparr> srv = demo(RideKey ''r1'' \<mapsto> (VHash [(''id'', BStr ''r1''), (''state'', BStr ''MATCHED'')], None)),
     fates = [], bus = [], acks = [], db = [] \<rparr>"

theorem CancelRide_contract_witness:
  "\<exists>r w'. run_state (CancelRide ref_redis log_pg demo_rsvc ''r1'' ''late'') matched_full = (RpcOk r, w')
     \<and> rd_State r = RS_CANCELLED \<and> ride_state ref_redis (srv w') ''r1'' = ''CANCELLED''
     \<and> view ref_redis (srv w') (DriverKey ''d1'') = view ref_redis demo (DriverKey ''d1'')"
proof -
  have v: "ref_view (srv matched_full) (RideKey ''r1'') = Some (RHash [''state'' \<mapsto> BStr ''MATCHED'', ''id'' \<mapsto> BStr ''r1''])"
    "ref_view (srv matched_full) (DriverKey ''d1'') = ref_view demo (DriverKey ''d1'')" "fates matched_full = []"
    by (simp_all add: matched_full_def ref_view_def ref_live_def)
  have st: "ride_state ref_redis (srv matched_full) ''r1'' = ''MATCHED''"
    using v(1) by (simp add: ride_state_def hget_text_def bulk_text_def)
  obtain x w' where run: "run_state (CancelRide ref_redis log_pg demo_rsvc ''r1'' ''late'') matched_full = (x, w')"
    by fastforce
  have "is_hash (view ref_redis (srv matched_full) (RideKey ''r1''))" using v(1) by simp
  from CancelRide_contract [OF ref.redis_service_axioms this run] v(2,3) st run
  show ?thesis by (auto simp: cancellable_def ride_state_defs)
qed

end
