(* ===== verification/Location.thy ===== *)
theory Location
  imports Position Dispatch Driver
begin

text \<open>
  \<^verbatim>\<open>internal/location/service.go\<close>: GPS ingestion. The service's state is its sequence counter, an
  unsigned 64-bit integer shared by all drivers; \<open>clk n\<close> is the \<open>n\<close>-th clock reading of a
  request, in nanoseconds. A handler that returns neither a response nor an error is the value
  \<open>(None, None)\<close>.
\<close>

record LocationSvc =
  lsvc_prod :: bool
  seqs :: "64 word"

record UpdateLocationRequest =
  ul_DriverId :: string
  ul_Lat :: float64
  ul_Lng :: float64
  ul_Sequence :: int

record UpdateLocationResponse =
  Accepted :: bool
  RejectReason :: string
  ServerSequence :: int
  ul_H3Cell :: string

definition rejected :: "string \<Rightarrow> int \<Rightarrow> UpdateLocationResponse" where
  "rejected reason seq = \<lparr> Accepted = False, RejectReason = reason, ServerSequence = seq, ul_H3Cell = [] \<rparr>"

text \<open>The server's sequence number when the client sends none.\<close>

definition stamp :: "LocationSvc \<Rightarrow> UpdateLocationRequest \<Rightarrow> int \<times> LocationSvc" where
  "stamp s req = (if ul_Sequence req \<le> 0
     then (sint (seqs s + 1), s\<lparr>seqs := seqs s + 1\<rparr>) else (ul_Sequence req, s))"

definition publishLocation ::
  "bool \<Rightarrow> (nat \<Rightarrow> int) \<Rightarrow> UpdateLocationRequest \<Rightarrow> int \<Rightarrow> string \<Rightarrow> (('s, 'm) node_scheme, unit) state"
where
  "publishLocation kprod clk req seq cell =
     (if \<not> kprod then State_Monad.return ()
      else case Encode (EvLocation
             \<lparr> lu_Env = \<lparr> EventID = ''loc-'' @ show_int (clk 1), ev_Type = ''location.update'',
                          Timestamp = clk 2, TraceID = [], RequestID = [] \<rparr>,
               lu_DriverID = ul_DriverId req, lu_Latitude = ul_Lat req, lu_Longitude = ul_Lng req,
               lu_Sequence = seq, lu_H3Cell = cell \<rparr>) of
        None \<Rightarrow> State_Monad.return ()
      | Some b \<Rightarrow> do { _ \<leftarrow> Publish TopicDriverLocation (ul_DriverId req) b; State_Monad.return () })"

definition apply_update ::
  "'s redis \<Rightarrow> 'c h3 \<Rightarrow> (nat \<Rightarrow> int) \<Rightarrow> UpdateLocationRequest \<Rightarrow> bool \<Rightarrow> LocationSvc
   \<Rightarrow> (('s, 'm) node_scheme, (grpc_code + UpdateLocationResponse) \<times> LocationSvc) state"
where
  "apply_update R H clk req single s =
     (if ul_DriverId req = [] then State_Monad.return (Inl InvalidArgument, s)
      else if ValidateLatLng (ul_Lat req) (ul_Lng req) \<noteq> None
      then State_Monad.return (Inr (rejected ''invalid_coords'' 0), s)
      else do {
        let (seq, s) = stamp s req;
        r \<leftarrow> Store_ApplyLocation R H (ul_DriverId req) (ul_Lat req) (ul_Lng req) seq (ms (clk 0));
        case r of
          Inl _ \<Rightarrow> State_Monad.return
            (if single then Inl Internal else Inr (rejected ''redis_error'' 0), s)
        | Inr False \<Rightarrow> State_Monad.return (Inr (rejected ''stale_sequence'' seq), s)
        | Inr True \<Rightarrow> do {
            let cell = (case geo_CellKey H (ul_Lat req) (ul_Lng req) DefaultResolution of Inl _ \<Rightarrow> [] | Inr c \<Rightarrow> c);
            publishLocation (lsvc_prod s) clk req seq cell;
            State_Monad.return (Inr \<lparr> Accepted = True, RejectReason = [], ServerSequence = seq,
              ul_H3Cell = cell \<rparr>, s) } })"

definition UpdateLocation ::
  "'s redis \<Rightarrow> 'c h3 \<Rightarrow> (nat \<Rightarrow> int) \<Rightarrow> UpdateLocationRequest \<Rightarrow> LocationSvc
   \<Rightarrow> (('s, 'm) node_scheme, (UpdateLocationResponse option \<times> grpc_code option) \<times> LocationSvc) state"
where
  "UpdateLocation R H clk req s = do {
     (r, s) \<leftarrow> apply_update R H clk req True s;
     State_Monad.return ((case r of Inl _ \<Rightarrow> None | Inr resp \<Rightarrow> Some resp, None), s) }"

text \<open>The loop of the batch: \<open>clks n\<close> are the readings of the \<open>n\<close>-th update.\<close>

fun batch_loop ::
  "'s redis \<Rightarrow> 'c h3 \<Rightarrow> (nat \<Rightarrow> nat \<Rightarrow> int) \<Rightarrow> UpdateLocationRequest list \<Rightarrow> int \<times> int \<Rightarrow> LocationSvc
   \<Rightarrow> (('s, 'm) node_scheme, (int \<times> int) \<times> LocationSvc) state"
where
  "batch_loop R H clks [] acc s = State_Monad.return (acc, s)"
| "batch_loop R H clks (u # us) (accepted, rejectedN) s = do {
     (r, s) \<leftarrow> apply_update R H (clks 0) u False s;
     batch_loop R H (clks \<circ> Suc) us
       (case r of
          Inl _ \<Rightarrow> (accepted, rejectedN + 1)
        | Inr resp \<Rightarrow> if Accepted resp then (accepted + 1, rejectedN) else (accepted, rejectedN + 1)) s }"

definition BatchUpdateLocation ::
  "'s redis \<Rightarrow> 'c h3 \<Rightarrow> (nat \<Rightarrow> nat \<Rightarrow> int) \<Rightarrow> UpdateLocationRequest list \<Rightarrow> LocationSvc
   \<Rightarrow> (('s, 'm) node_scheme, (int \<times> int) \<times> LocationSvc) state"
where
  "BatchUpdateLocation R H clks us s = do {
     ((accepted, rejectedN), s) \<leftarrow> batch_loop R H clks us (0, 0) s;
     State_Monad.return ((to_int32 accepted, to_int32 rejectedN), s) }"

section \<open>Properties\<close>

lemma ApplyLocation_bus [simp]:
  "bus (snd (run_state (Store_ApplyLocation R H i lat lng seq ts) w)) = bus w"
  "acks (snd (run_state (Store_ApplyLocation R H i lat lng seq ts) w)) = acks w"
  by (simp_all add: Store_ApplyLocation_def split_beta Let_def split: sum.splits)

lemma stamp_prod [simp]: "lsvc_prod (snd (stamp s req)) = lsvc_prod s"
  by (simp add: stamp_def)

text \<open>The event an accepted update publishes.\<close>

definition location_event :: "'c h3 \<Rightarrow> (nat \<Rightarrow> int) \<Rightarrow> UpdateLocationRequest \<Rightarrow> int \<Rightarrow> LocationUpdate" where
  "location_event H clk req seq =
     \<lparr> lu_Env = \<lparr> EventID = ''loc-'' @ show_int (clk 1), ev_Type = ''location.update'',
                  Timestamp = clk 2, TraceID = [], RequestID = [] \<rparr>,
       lu_DriverID = ul_DriverId req, lu_Latitude = ul_Lat req, lu_Longitude = ul_Lng req,
       lu_Sequence = seq, lu_H3Cell = (case geo_CellKey H (ul_Lat req) (ul_Lng req) DefaultResolution of
         Inl _ \<Rightarrow> [] | Inr c \<Rightarrow> c) \<rparr>"

definition carries :: "message \<Rightarrow> LocationUpdate \<Rightarrow> bool" where
  "carries m e \<longleftrightarrow> msg_Topic m = TopicDriverLocation \<and> msg_Key m = lu_DriverID e
     \<and> Encode (EvLocation e) = Some (msg_Value m)"

lemma publishLocation_acked:
  assumes "acks w = []" and "ValidateLatLng (ul_Lat req) (ul_Lng req) = None"
  obtains m where "carries m (location_event H clk req seq)"
    "run_state (publishLocation True clk req seq (lu_H3Cell (location_event H clk req seq))) w
       = ((), w\<lparr>bus := bus w @ [m]\<rparr>)"
proof -
  obtain a b where "ul_Lat req = Fin a" "ul_Lng req = Fin b" by (rule ValidateLatLng_finite [OF assms(2)])
  then obtain v where v: "Encode (EvLocation (location_event H clk req seq)) = Some v"
    by (simp add: json_simps location_event_def)
  show thesis
    by (rule that [of "\<lparr> msg_Topic = TopicDriverLocation, msg_Key = ul_DriverId req, msg_Value = v, msg_Headers = [] \<rparr>"])
      (use assms(1) v in \<open>simp_all add: carries_def publishLocation_def location_event_def\<close>)
qed

text \<open>
  The specification of a batch: which updates Redis accepts, with the sequence number each is
  stamped with. It asks the store for every well-formed update, in order, and publishes nothing.
\<close>

fun accepted_updates ::
  "'s redis \<Rightarrow> 'c h3 \<Rightarrow> (nat \<Rightarrow> nat \<Rightarrow> int) \<Rightarrow> UpdateLocationRequest list \<Rightarrow> LocationSvc
   \<Rightarrow> ('s, 'm) node_scheme \<Rightarrow> LocationUpdate list \<times> LocationSvc \<times> ('s, 'm) node_scheme"
where
  "accepted_updates R H clks [] s w = ([], s, w)"
| "accepted_updates R H clks (u # us) s w =
     (if ul_DriverId u = [] \<or> ValidateLatLng (ul_Lat u) (ul_Lng u) \<noteq> None
      then accepted_updates R H (clks \<circ> Suc) us s w
      else let (seq, s) = stamp s u;
               (r, w) = run_state (Store_ApplyLocation R H (ul_DriverId u) (ul_Lat u) (ul_Lng u) seq (ms (clks 0 0))) w;
               (evs, s, w) = accepted_updates R H (clks \<circ> Suc) us s w
           in (if r = Inr True then location_event H (clks 0) u seq # evs else evs, s, w))"

text \<open>The store neither reads nor writes the bus.\<close>

lemma rdo_frames_bus:
  "run_state (rdo cmd) (w\<lparr>bus := b\<rparr>) = (fst (run_state (rdo cmd) w), (snd (run_state (rdo cmd) w))\<lparr>bus := b\<rparr>)"
  by (simp add: rdo_def split_beta Let_def split: list.split fate.split)

lemma rread_frames_bus:
  "run_state (rread q) (w\<lparr>bus := b\<rparr>) = (fst (run_state (rread q) w), (snd (run_state (rread q) w))\<lparr>bus := b\<rparr>)"
  by (simp add: rread_def rdo_frames_bus)

lemma ApplyLocation_frames_bus:
  "run_state (Store_ApplyLocation R H i lat lng seq ts) (w\<lparr>bus := b\<rparr>)
    = (fst (run_state (Store_ApplyLocation R H i lat lng seq ts) w),
       (snd (run_state (Store_ApplyLocation R H i lat lng seq ts) w))\<lparr>bus := b\<rparr>)"
  by (simp add: Store_ApplyLocation_def rread_frames_bus rdo_frames_bus split_beta Let_def split: sum.split)

lemma accepted_updates_bus:
  "accepted_updates R H clks us s w = (evs, s', w') \<Longrightarrow>
   accepted_updates R H clks us s (w\<lparr>bus := b\<rparr>) = (evs, s', w'\<lparr>bus := b\<rparr>)"
proof (induction us arbitrary: clks s w evs)
  case (Cons u us)
  obtain seq s1 where st: "stamp s u = (seq, s1)" by fastforce
  obtain x w1 where x: "run_state (Store_ApplyLocation R H (ul_DriverId u) (ul_Lat u) (ul_Lng u) seq (ms (clks 0 0))) w = (x, w1)"
    by fastforce
  obtain evs1 s2 w2 where rest: "accepted_updates R H (clks \<circ> Suc) us s1 w1 = (evs1, s2, w2)" by (metis prod_cases3)
  show ?case
  proof (cases "ul_DriverId u = [] \<or> ValidateLatLng (ul_Lat u) (ul_Lng u) \<noteq> None")
    case True
    with Cons show ?thesis by auto
  next
    case False
    with Cons.prems st x rest have e: "s2 = s'" "w2 = w'"
      "evs = (if x = Inr True then location_event H (clks 0) u seq # evs1 else evs1)" by auto
    have "accepted_updates R H (clks \<circ> Suc) us s1 (w1\<lparr>bus := b\<rparr>) = (evs1, s', w'\<lparr>bus := b\<rparr>)"
      by (rule Cons.IH) (use rest e in \<open>simp only:\<close>)
    with False st x e show ?thesis by (simp add: ApplyLocation_frames_bus)
  qed
qed simp

text \<open>One update: refused before the store is asked, or answered by the store and published if it accepts.\<close>

lemma apply_update_invalid:
  assumes "ul_DriverId u = [] \<or> ValidateLatLng (ul_Lat u) (ul_Lng u) \<noteq> None"
  shows "\<exists>r. run_state (apply_update R H clk u single s) w = ((r, s), w) \<and> (\<forall>resp. r = Inr resp \<longrightarrow> \<not> Accepted resp)"
  using assms by (auto simp: apply_update_def rejected_def)

lemma apply_update_valid:
  assumes "ul_DriverId u \<noteq> []" and "ValidateLatLng (ul_Lat u) (ul_Lng u) = None" and "lsvc_prod s" and "acks w = []"
    and "stamp s u = (seq, s1)"
    and "run_state (Store_ApplyLocation R H (ul_DriverId u) (ul_Lat u) (ul_Lng u) seq (ms (clk 0))) w = (x, w1)"
  shows "\<exists>r w2. run_state (apply_update R H clk u single s) w = ((r, s1), w2) \<and>
    (if x = Inr True
     then \<exists>resp m. r = Inr resp \<and> Accepted resp \<and> w2 = w1\<lparr>bus := bus w @ [m]\<rparr> \<and> carries m (location_event H clk u seq)
     else w2 = w1 \<and> (\<forall>resp. r = Inr resp \<longrightarrow> \<not> Accepted resp))"
proof -
  have p1: "lsvc_prod s1" using assms(3,5) stamp_prod [of s u] by simp
  have w1: "bus w1 = bus w" "acks w1 = []" using assms(4,6) ApplyLocation_bus by (metis snd_conv)+
  let ?c = "lu_H3Cell (location_event H clk u seq)"
  have c: "(case geo_CellKey H (ul_Lat u) (ul_Lng u) DefaultResolution of Inl _ \<Rightarrow> [] | Inr c \<Rightarrow> c) = ?c"
    by (simp add: location_event_def)
  obtain m where m: "carries m (location_event H clk u seq)"
    "run_state (publishLocation True clk u seq ?c) w1 = ((), w1\<lparr>bus := bus w1 @ [m]\<rparr>)"
    using publishLocation_acked [OF w1(2) assms(2)] by blast
  show ?thesis
  proof (cases "x = Inr True")
    case True
    then show ?thesis using assms m p1 w1 by (auto simp: apply_update_def Let_def c intro!: exI [of _ m])
  next
    case other: False
    then show ?thesis
      using assms by (auto simp: apply_update_def Let_def rejected_def split: sum.split bool.split)
  qed
qed

lemma batch_loop_accounts:
  assumes "accepted_updates R H clks us s w = (evs, s', w')" and "lsvc_prod s" and "acks w = []"
  shows "\<exists>msgs. run_state (batch_loop R H clks us (a, r) s) w
      = (((a + int (length evs), r + (int (length us) - int (length evs))), s'), w'\<lparr>bus := bus w @ msgs\<rparr>)
    \<and> list_all2 carries msgs evs"
  using assms
proof (induction us arbitrary: clks a r s w w' evs)
  case (Cons u us)
  show ?case
  proof (cases "ul_DriverId u = [] \<or> ValidateLatLng (ul_Lat u) (ul_Lng u) \<noteq> None")
    case True
    then obtain x where "run_state (apply_update R H (clks 0) u False s) w = ((x, s), w)"
      "\<forall>resp. x = Inr resp \<longrightarrow> \<not> Accepted resp" using apply_update_invalid by blast
    then have step: "run_state (batch_loop R H clks (u # us) (a, r) s) w
        = run_state (batch_loop R H (clks \<circ> Suc) us (a, r + 1) s) w"
      by (cases x) simp_all
    from True Cons.prems(1) have "accepted_updates R H (clks \<circ> Suc) us s w = (evs, s', w')" by simp
    from Cons.IH [OF this Cons.prems(2,3), of a "r + 1"] show ?thesis
      by (auto simp only: step length_Cons of_nat_Suc algebra_simps)
  next
    case False
    obtain seq s1 where st: "stamp s u = (seq, s1)" by fastforce
    obtain x w1 where x: "run_state (Store_ApplyLocation R H (ul_DriverId u) (ul_Lat u) (ul_Lng u) seq (ms (clks 0 0))) w = (x, w1)"
      by fastforce
    obtain evs1 s2 w2 where rest: "accepted_updates R H (clks \<circ> Suc) us s1 w1 = (evs1, s2, w2)" by (metis prod_cases3)
    have e: "evs = (if x = Inr True then location_event H (clks 0) u seq # evs1 else evs1)" "s2 = s'" "w2 = w'"
      using Cons.prems(1) False st x rest by auto
    have p1: "lsvc_prod s1" and w1: "bus w1 = bus w" "acks w1 = []"
      using Cons.prems(2,3) st x stamp_prod [of s u] ApplyLocation_bus by (metis snd_conv)+
    from False apply_update_valid [where clk = "clks 0" and single = False, OF _ _ Cons.prems(2,3) st x]
    obtain y v where y: "run_state (apply_update R H (clks 0) u False s) w = ((y, s1), v)"
      "if x = Inr True
       then \<exists>resp m. y = Inr resp \<and> Accepted resp \<and> v = w1\<lparr>bus := bus w @ [m]\<rparr> \<and> carries m (location_event H (clks 0) u seq)
       else v = w1 \<and> (\<forall>resp. y = Inr resp \<longrightarrow> \<not> Accepted resp)" by blast
    show ?thesis
    proof (cases "x = Inr True")
      case True
      with y(2) obtain resp m where m: "y = Inr resp" "Accepted resp" "v = w1\<lparr>bus := bus w @ [m]\<rparr>"
        "carries m (location_event H (clks 0) u seq)" by auto
      have step: "run_state (batch_loop R H clks (u # us) (a, r) s) w
          = run_state (batch_loop R H (clks \<circ> Suc) us (a + 1, r) s1) (w1\<lparr>bus := bus w @ [m]\<rparr>)"
        using y(1) m by simp
      have "accepted_updates R H (clks \<circ> Suc) us s1 (w1\<lparr>bus := bus w @ [m]\<rparr>) = (evs1, s', w'\<lparr>bus := bus w @ [m]\<rparr>)"
        using accepted_updates_bus [OF rest] e by simp
      from Cons.IH [OF this p1, of "a + 1" r] w1 obtain msgs where
        "run_state (batch_loop R H (clks \<circ> Suc) us (a + 1, r) s1) (w1\<lparr>bus := bus w @ [m]\<rparr>)
          = (((a + 1 + int (length evs1), r + (int (length us) - int (length evs1))), s'), w'\<lparr>bus := bus w @ m # msgs\<rparr>)"
        "list_all2 carries msgs evs1" by (auto simp: comp_def)
      with e True m(4) show ?thesis
        by (intro exI [of _ "m # msgs"]) (simp add: step algebra_simps del: batch_loop.simps)
    next
      case no: False
      then have step: "run_state (batch_loop R H clks (u # us) (a, r) s) w
          = run_state (batch_loop R H (clks \<circ> Suc) us (a, r + 1) s1) w1"
        using y by (cases y) simp_all
      from Cons.IH [OF rest [unfolded e(2,3)] p1 w1(2), of a "r + 1"] e no w1(1) show ?thesis
        by (auto simp: step algebra_simps comp_def simp del: batch_loop.simps)
    qed
  qed
qed simp

lemma accepted_updates_length:
  "accepted_updates R H clks us s w = (evs, s', w') \<Longrightarrow> length evs \<le> length us"
proof (induction us arbitrary: clks s w evs)
  case (Cons u us)
  then show ?case by (fastforce simp: Let_def split: if_splits prod.splits)
qed simp

text \<open>
  C29. Accounting of a batch, with a producer and brokers that acknowledge, under any faults of
  Redis. The updates Redis accepts, each with its stamped sequence number, are those of the
  specification \<open>accepted_updates\<close>; the handler counts exactly them as accepted and every other
  update of the batch as rejected, and it publishes exactly them, in order: one message each, keyed
  by the driver, carrying that update's position, sequence number and cell. (The counters are
  32-bit, hence the bound on the size of the batch.)
\<close>

theorem BatchUpdateLocation_accounts:
  assumes "accepted_updates R H clks us s w = (evs, s', w')" and "lsvc_prod s" and "acks w = []"
    and "length us < 2 ^ 31"
  shows "\<exists>msgs. run_state (BatchUpdateLocation R H clks us s) w
      = (((int (length evs), int (length us) - int (length evs)), s'), w'\<lparr>bus := bus w @ msgs\<rparr>)
    \<and> list_all2 carries msgs evs"
proof -
  from batch_loop_accounts [OF assms(1-3), of 0 0] obtain msgs where
    "run_state (batch_loop R H clks us (0, 0) s) w
      = (((int (length evs), int (length us) - int (length evs)), s'), w'\<lparr>bus := bus w @ msgs\<rparr>)" "list_all2 carries msgs evs"
    by auto
  with accepted_updates_length [OF assms(1)] assms(4) show ?thesis
    by (auto simp: BatchUpdateLocation_def to_int32_id)
qed

lemma seq_stale:
  assumes "view R st (DriverSeqKey i) = Some (RStr (BInt n))" and "seq \<le> n"
  shows "\<not> seq_fresh (view R st (DriverSeqKey i)) seq"
  using assms by (simp add: seq_fresh_def round53_mono not_less)

text \<open>
  Two failures of a single update that its caller cannot see for what they are. When Redis does
  not answer, \<^verbatim>\<open>UpdateLocation\<close> returns neither a response nor an error. And the sequence numbers
  the service assigns come from one counter that starts again at zero with the process: while a
  driver's stored number is not below the counter, each of its updates without a number of its
  own is rejected as stale, and the hot state keeps the old position.
\<close>

theorem UpdateLocation_failures:
  assumes "redis_service R" and "ul_DriverId req \<noteq> []" and "ValidateLatLng (ul_Lat req) (ul_Lng req) = None"
    and "geo_CellKey H (ul_Lat req) (ul_Lng req) DefaultResolution = Inr cell"
  shows "(fates w = [LostBefore, LostBefore] \<longrightarrow>
      (\<exists>s' w'. run_state (UpdateLocation R H clk req s) w = (((None, None), s'), w') \<and> srv w' = srv w))
    \<and> (fates w = [] \<and> loc_ok R (srv w) (ul_DriverId req) \<and> ul_Sequence req \<le> 0
        \<and> view R (srv w) (DriverSeqKey (ul_DriverId req)) = Some (RStr (BInt n))
        \<and> uint (seqs s) < n \<and> n < 2 ^ 63 \<longrightarrow>
      run_state (UpdateLocation R H clk req s) w =
        (((Some (rejected ''stale_sequence'' (uint (seqs s) + 1)), None), s\<lparr>seqs := seqs s + 1\<rparr>), w))"
proof (intro conjI impI)
  assume f: "fates w = [LostBefore, LostBefore]"
  then have "fst (run_state (Store_ApplyLocation R H (ul_DriverId req) (ul_Lat req) (ul_Lng req) seq ts) w) = Inl (ERedis Unreachable)"
    "srv (snd (run_state (Store_ApplyLocation R H (ul_DriverId req) (ul_Lat req) (ul_Lng req) seq ts) w)) = srv w" for seq ts
    using assms(4) by (simp_all add: Store_ApplyLocation_def hget_text_def Let_def rdo_def split_beta)
  then show "\<exists>s' w'. run_state (UpdateLocation R H clk req s) w = (((None, None), s'), w') \<and> srv w' = srv w"
    using assms(2,3) by (simp add: UpdateLocation_def apply_update_def split_beta Let_def)
next
  assume a: "fates w = [] \<and> loc_ok R (srv w) (ul_DriverId req) \<and> ul_Sequence req \<le> 0
        \<and> view R (srv w) (DriverSeqKey (ul_DriverId req)) = Some (RStr (BInt n))
        \<and> uint (seqs s) < n \<and> n < 2 ^ 63"
  have u: "sint (seqs s + 1) = uint (seqs s) + 1"
  proof -
    have "uint (seqs s) + 1 < 2 ^ 63" using a by auto
    then have "uint (seqs s + 1) = uint (seqs s) + 1" "uint (seqs s + 1) < 2 ^ 63" by (simp_all add: uint_plus_if')
    then show ?thesis by (simp add: sint_uint signed_take_bit_int_eq_self)
  qed
  have "\<not> seq_fresh (view R (srv w) (DriverSeqKey (ul_DriverId req))) (uint (seqs s) + 1)"
    by (rule seq_stale [of R "srv w" "ul_DriverId req" n]) (use a in auto)
  from redis_service.ApplyLocation_stale [OF assms(1) _ assms(4) _ this] a
  show "run_state (UpdateLocation R H clk req s) w =
        (((Some (rejected ''stale_sequence'' (uint (seqs s) + 1)), None), s\<lparr>seqs := seqs s + 1\<rparr>), w)"
    using assms(2,3) by (simp add: UpdateLocation_def apply_update_def stamp_def u)
qed

theorem UpdateLocation_failures_witness:
  "let req = \<lparr> ul_DriverId = ''d1'', ul_Lat = Fin 1, ul_Lng = Fin 1, ul_Sequence = 0 \<rparr>;
       s = \<lparr> lsvc_prod = True, seqs = 0 \<rparr>
   in run_state (UpdateLocation ref_redis one_cell (\<lambda>_. 0) req s) demo_node =
        (((Some (rejected ''stale_sequence'' 1), None), s\<lparr>seqs := 1\<rparr>), demo_node)"
proof -
  let ?req = "\<lparr> ul_DriverId = ''d1'', ul_Lat = Fin 1, ul_Lng = Fin 1, ul_Sequence = 0 \<rparr>"
  have "ul_DriverId ?req \<noteq> []" "ValidateLatLng (ul_Lat ?req) (ul_Lng ?req) = None"
    "geo_CellKey one_cell (ul_Lat ?req) (ul_Lng ?req) DefaultResolution = Inr ''87''"
    by (simp_all add: ValidateLatLng_def)
  from UpdateLocation_failures [OF ref.redis_service_axioms this, of demo_node "\<lambda>_. 0" "\<lparr> lsvc_prod = True, seqs = 0 \<rparr>" 4]
  show ?thesis by (simp add: Let_def)
qed

theorem BatchUpdateLocation_accounts_witness:
  "let us = [\<lparr> ul_DriverId = ''d2'', ul_Lat = Fin 100, ul_Lng = Fin 1, ul_Sequence = 7 \<rparr>,
             \<lparr> ul_DriverId = ''d1'', ul_Lat = Fin 1, ul_Lng = Fin 1, ul_Sequence = 7 \<rparr>]
   in \<exists>s' w' m. run_state (BatchUpdateLocation ref_redis one_cell (\<lambda>_ _. 0) us \<lparr> lsvc_prod = True, seqs = 0 \<rparr>) demo_node
      = (((1, 1), s'), w'\<lparr>bus := [m]\<rparr>) \<and> carries m (location_event one_cell (\<lambda>_. 0) (us ! 1) 7)"
proof -
  let ?u = "\<lparr> ul_DriverId = ''d1'', ul_Lat = Fin 1, ul_Lng = Fin 1, ul_Sequence = 7 \<rparr>"
  let ?us = "[\<lparr> ul_DriverId = ''d2'', ul_Lat = Fin 100, ul_Lng = Fin 1, ul_Sequence = 7 \<rparr>, ?u]"
  let ?s = "\<lparr> lsvc_prod = True, seqs = 0 \<rparr>"
  have fresh: "seq_fresh (view ref_redis (srv demo_node) (DriverSeqKey ''d1'')) 7" "geo_ok (Fin 1) (Fin 1)"
    by (simp_all add: seq_fresh_def round53_id geo_ok_def)
  have loc: "loc_ok ref_redis (srv demo_node) ''d1''" by simp
  obtain w1 where "run_state (Store_ApplyLocation ref_redis one_cell ''d1'' (Fin 1) (Fin 1) 7 (ms 0)) demo_node = (Inr True, w1)"
    by (rule ref.ApplyLocation_fresh [OF demo_node_simps(2) one_cell_key loc fresh(1), of "Fin 1" "Fin 1" "ms 0"])
      (simp add: fresh(2))
  then have "accepted_updates ref_redis one_cell (\<lambda>_ _. 0) ?us ?s demo_node = ([location_event one_cell (\<lambda>_. 0) ?u 7], ?s, w1)"
    by (simp add: ValidateLatLng_def stamp_def)
  from BatchUpdateLocation_accounts [OF this] show ?thesis
    by (auto simp: Let_def list_all2_Cons2)
qed

end
