(* ===== verification/Consumer.thy ===== *)
theory Consumer
  imports Events
begin

text \<open>
  The consumer of \<^verbatim>\<open>internal/kafka/kafka.go\<close>: the retry loop of \<open>process\<close> and the read loop of
  \<open>Run\<close>. A handler returns nil, returns an error, or panics. The group reader of the Kafka client
  is not part of the repository: its state (type \<open>'k\<close>) and operations are a parameter, and the
  locale \<open>group_reader\<close> states what its documentation promises.
\<close>

section \<open>The retry loop\<close>

datatype 'e hres = HOk | HErr 'e | HPanic

text \<open>
  \<open>process\<close> runs the handler up to \<open>maxRetries + 1\<close> times. \<open>ended k\<close> says that the context ends during
  the pause before attempt \<open>k\<close>; the pauses are \<open>backoff k\<close> milliseconds. The loop ends with a
  success of the handler (\<open>Done\<close>), with the error of the context or the last error of the handler, or
  with the handler's panic. \<open>errText\<close> is \<^verbatim>\<open>lastErr.Error()\<close>. The call of \<^verbatim>\<open>CommitMessages\<close> that ends a
  successful attempt is the commit of \<open>Run_iter\<close>, which follows \<open>process\<close> with nothing in between.
\<close>

datatype 'e proc = Done | CtxErr | Failed 'e | Panicked

definition backoff :: "nat \<Rightarrow> nat" where
  "backoff attempt = 100 * 2 ^ (attempt - 1)"

fun process_loop ::
  "(message \<Rightarrow> (('s, 'm) node_scheme, 'e hres) state) \<Rightarrow> (nat \<Rightarrow> bool) \<Rightarrow> message \<Rightarrow> nat \<Rightarrow> nat \<Rightarrow> 'e option
   \<Rightarrow> (('s, 'm) node_scheme, 'e proc) state"
where
  "process_loop handler ended msg attempt 0 lastErr =
     State_Monad.return (case lastErr of Some x \<Rightarrow> Failed x | None \<Rightarrow> Done)"
| "process_loop handler ended msg attempt (Suc left) lastErr =
     (if attempt > 0 \<and> ended attempt then State_Monad.return CtxErr
      else do {
        e \<leftarrow> handler msg;
        case e of
          HOk \<Rightarrow> State_Monad.return Done
        | HErr x \<Rightarrow> process_loop handler ended msg (Suc attempt) left (Some x)
        | HPanic \<Rightarrow> State_Monad.return Panicked })"

definition process ::
  "(message \<Rightarrow> (('s, 'm) node_scheme, 'e hres) state) \<Rightarrow> ('e \<Rightarrow> string) \<Rightarrow> (nat \<Rightarrow> bool)
   \<Rightarrow> string \<Rightarrow> bool \<Rightarrow> nat \<Rightarrow> message \<Rightarrow> (('s, 'm) node_scheme, 'e proc) state"
where
  "process handler errText ended topic dlq maxRetries msg = do {
     r \<leftarrow> process_loop handler ended msg 0 (Suc maxRetries) None;
     case r of
       Failed x \<Rightarrow>
         (if dlq then do {
            _ \<leftarrow> PublishWithHeaders TopicDeadLetter (msg_Key msg) (msg_Value msg)
                  [(''original_topic'', topic), (''error'', errText x), (''key'', msg_Key msg)];
            State_Monad.return r }
          else State_Monad.return r)
     | _ \<Rightarrow> State_Monad.return r }"

section \<open>The read loop\<close>

record ConsumerConfig =
  cc_Brokers :: "string list"
  cc_Topic :: string
  cc_Group :: string
  cc_DLQ :: bool
  cc_MaxRetries :: int

record Consumer =
  con_topic :: string
  con_group :: string
  con_dlq :: bool
  con_maxRetries :: nat

definition NewConsumer :: "ConsumerConfig \<Rightarrow> Consumer option" where
  "NewConsumer cfg = (if cc_Brokers cfg = [] then None
     else Some \<lparr> con_topic = cc_Topic cfg, con_group = cc_Group cfg, con_dlq = cc_DLQ cfg,
                 con_maxRetries = (if cc_MaxRetries cfg \<le> 0 then 3 else nat (cc_MaxRetries cfg)) \<rparr>)"

text \<open>
  The group reader: \<open>read_message\<close> returns the next record with its offset, or an error;
  \<open>commit_message\<close> commits an offset, with its error dropped as the sources do; \<open>rejoin\<close> is a new
  member of the group after a crash. \<open>next_offset\<close>, \<open>committed\<close> and \<open>record_at\<close> are observations.
\<close>

record 'k reader =
  read_message :: "'k \<Rightarrow> (nat \<times> message) option \<times> 'k"
  commit_message :: "nat \<Rightarrow> 'k \<Rightarrow> 'k"
  rejoin :: "'k \<Rightarrow> 'k"
  next_offset :: "'k \<Rightarrow> nat"
  committed :: "'k \<Rightarrow> nat"
  record_at :: "'k \<Rightarrow> nat \<Rightarrow> message option"

text \<open>
  One iteration of the loop of \<open>Run\<close>, with the commit that \<open>process\<close> makes after a success and the one
  \<open>Run\<close> makes after a failure: \<open>alive\<close> tells whether the context is live when the iteration
  starts and, after a failed read, still live.
\<close>

datatype run_out = Continue | Stopped | Crashed

definition Run_iter ::
  "'k reader \<Rightarrow> (message \<Rightarrow> (('s, 'm) node_scheme, 'e hres) state) \<Rightarrow> ('e \<Rightarrow> string) \<Rightarrow> (nat \<Rightarrow> bool)
   \<Rightarrow> Consumer \<Rightarrow> bool \<times> bool \<Rightarrow> 'k \<times> ('s, 'm) node_scheme \<Rightarrow> run_out \<times> 'k \<times> ('s, 'm) node_scheme"
where
  "Run_iter K handler errText ended c alive kw =
     (case kw of (k, w) \<Rightarrow>
        if \<not> fst alive then (Stopped, k, w)
        else case read_message K k of
          (None, k) \<Rightarrow> (if snd alive then Continue else Stopped, k, w)
        | (Some (n, msg), k) \<Rightarrow>
            (case run_state (process handler errText ended (con_topic c) (con_dlq c) (con_maxRetries c) msg) w of
               (Panicked, w) \<Rightarrow> (Crashed, k, w)
             | (_, w) \<Rightarrow> (Continue, commit_message K n k, w)))"

fun Run_loop ::
  "'k reader \<Rightarrow> (message \<Rightarrow> (('s, 'm) node_scheme, 'e hres) state) \<Rightarrow> ('e \<Rightarrow> string)
   \<Rightarrow> Consumer \<Rightarrow> ((bool \<times> bool) \<times> (nat \<Rightarrow> bool)) list \<Rightarrow> 'k \<times> ('s, 'm) node_scheme \<Rightarrow> run_out \<times> 'k \<times> ('s, 'm) node_scheme"
where
  "Run_loop K handler errText c [] kw = (Continue, kw)"
| "Run_loop K handler errText c ((alive, ended) # ctx) kw =
     (case Run_iter K handler errText ended c alive kw of
        (Continue, kw) \<Rightarrow> Run_loop K handler errText c ctx kw
      | r \<Rightarrow> r)"

section \<open>Properties of the retry loop\<close>

text \<open>The world after \<open>n\<close> runs of a handler, and the outcome of run \<open>n\<close>.\<close>

primrec after_runs :: "(('s, 'm) node_scheme, 'e hres) state \<Rightarrow> nat \<Rightarrow> ('s, 'm) node_scheme \<Rightarrow> ('s, 'm) node_scheme" where
  "after_runs h 0 w = w"
| "after_runs h (Suc n) w = after_runs h n (snd (run_state h w))"

definition outcome :: "(('s, 'm) node_scheme, 'e hres) state \<Rightarrow> nat \<Rightarrow> ('s, 'm) node_scheme \<Rightarrow> 'e hres" where
  "outcome h n w = fst (run_state h (after_runs h n w))"

definition is_err :: "'e hres \<Rightarrow> bool" where
  "is_err r = (case r of HErr _ \<Rightarrow> True | _ \<Rightarrow> False)"

lemma outcome_0: "outcome h 0 w = fst (run_state h w)"
  by (simp add: outcome_def)

lemma outcome_Suc: "outcome h (Suc n) w = outcome h n (snd (run_state h w))"
  by (simp add: outcome_def)

text \<open>The first outcome that is not an error ends the loop.\<close>

lemma process_loop_ends:
  assumes "\<forall>a. \<not> ended a" and "k < left" and "\<forall>j < k. is_err (outcome (handler msg) j w)"
    and "\<not> is_err (outcome (handler msg) k w)"
  shows "run_state (process_loop handler ended msg attempt left lastErr) w
    = (if outcome (handler msg) k w = HOk then Done else Panicked, after_runs (handler msg) (Suc k) w)"
  using assms(2-)
proof (induction k arbitrary: attempt left lastErr w)
  case 0
  then obtain l where "left = Suc l" by (cases left) auto
  with 0 assms(1) show ?case by (simp add: outcome_0 is_err_def split_beta split: hres.splits)
next
  case (Suc k)
  then obtain l where l: "left = Suc l" "k < l" by (cases left) auto
  have "is_err (fst (run_state (handler msg) w))" using Suc.prems(2) outcome_0 [of "handler msg" w] by auto
  then obtain x where x: "fst (run_state (handler msg) w) = HErr x" by (auto simp: is_err_def split: hres.splits)
  have "\<forall>j < k. is_err (outcome (handler msg) j (snd (run_state (handler msg) w)))"
    "\<not> is_err (outcome (handler msg) k (snd (run_state (handler msg) w)))"
    using Suc.prems(2,3) by (auto simp: outcome_Suc [symmetric])
  from Suc.IH [OF l(2) this] show ?case using l(1) x assms(1) by (simp add: split_beta outcome_Suc)
qed

lemma process_loop_exhausted:
  assumes "\<forall>a. \<not> ended a" and "\<forall>j < left. is_err (outcome (handler msg) j w)"
  shows "run_state (process_loop handler ended msg attempt left lastErr) w
    = (case (if left = 0 then lastErr else (case outcome (handler msg) (left - 1) w of HErr x \<Rightarrow> Some x | _ \<Rightarrow> None)) of
         Some x \<Rightarrow> Failed x | None \<Rightarrow> Done, after_runs (handler msg) left w)"
  using assms(2)
proof (induction left arbitrary: attempt lastErr w)
  case (Suc l)
  have "is_err (fst (run_state (handler msg) w))" using Suc.prems outcome_0 [of "handler msg" w] by auto
  then obtain x where x: "fst (run_state (handler msg) w) = HErr x" by (auto simp: is_err_def split: hres.splits)
  have "\<forall>j < l. is_err (outcome (handler msg) j (snd (run_state (handler msg) w)))"
    using Suc.prems by (auto simp: outcome_Suc [symmetric])
  from Suc.IH [OF this, of "Suc attempt" "Some x"] show ?case
    using x assms(1) by (cases l) (simp_all add: split_beta outcome_0 outcome_Suc)
qed simp

lemma process_success:
  assumes "\<forall>a. \<not> ended a" and "k \<le> maxRetries" and "\<forall>j < k. is_err (outcome (handler msg) j w)"
    and "outcome (handler msg) k w = HOk"
  shows "run_state (process handler errText ended topic dlq maxRetries msg) w = (Done, after_runs (handler msg) (Suc k) w)"
  using process_loop_ends [OF assms(1), of k "Suc maxRetries" handler msg w 0 None] assms(2-)
  by (simp add: process_def is_err_def del: process_loop.simps after_runs.simps)

text \<open>
  C20. At-least-once processing. While the context lives, a message is handled until the first
  success, at most \<open>maxRetries + 1\<close> times. If some attempt succeeds, the handler ran exactly up
  to it, \<open>process\<close> reports success and nothing is dead-lettered. If every attempt fails, the
  record goes to the dead-letter topic once, with its key, its body and the last error.
\<close>

theorem process_retries:
  fixes msg :: message and maxRetries :: nat
  assumes "\<forall>a. \<not> ended a"
  shows "(\<forall>k \<le> maxRetries. (\<forall>j < k. is_err (outcome (handler msg) j w)) \<and> outcome (handler msg) k w = HOk \<longrightarrow>
       run_state (process handler errText ended topic dlq maxRetries msg) w
         = (Done, after_runs (handler msg) (Suc k) w))
    \<and> ((\<forall>j \<le> maxRetries. is_err (outcome (handler msg) j w)) \<and> acks (after_runs (handler msg) (Suc maxRetries) w) = [] \<longrightarrow>
       (\<exists>x. outcome (handler msg) maxRetries w = HErr x \<and>
         run_state (process handler errText ended topic True maxRetries msg) w
           = (Failed x,
              (after_runs (handler msg) (Suc maxRetries) w)\<lparr>bus := bus (after_runs (handler msg) (Suc maxRetries) w) @
                [\<lparr> msg_Topic = TopicDeadLetter, msg_Key = msg_Key msg, msg_Value = msg_Value msg,
                   msg_Headers = [(''original_topic'', topic), (''error'', errText x), (''key'', msg_Key msg)] \<rparr>]\<rparr>)))"
proof (intro conjI allI impI)
  fix k
  assume "k \<le> maxRetries" "(\<forall>j < k. is_err (outcome (handler msg) j w)) \<and> outcome (handler msg) k w = HOk"
  then show "run_state (process handler errText ended topic dlq maxRetries msg) w
      = (Done, after_runs (handler msg) (Suc k) w)"
    using process_success [OF assms] by blast
next
  assume f: "(\<forall>j \<le> maxRetries. is_err (outcome (handler msg) j w))
      \<and> acks (after_runs (handler msg) (Suc maxRetries) w) = []"
  then have "is_err (outcome (handler msg) maxRetries w)" by blast
  then obtain x where x: "outcome (handler msg) maxRetries w = HErr x" by (auto simp: is_err_def split: hres.splits)
  have "run_state (process_loop handler ended msg 0 (Suc maxRetries) None) w
      = (Failed x, after_runs (handler msg) (Suc maxRetries) w)"
    using process_loop_exhausted [OF assms, of "Suc maxRetries" handler msg w 0 None] f x
    by (simp add: less_Suc_eq_le del: process_loop.simps after_runs.simps)
  with x f show "\<exists>x. outcome (handler msg) maxRetries w = HErr x \<and>
      run_state (process handler errText ended topic True maxRetries msg) w
        = (Failed x,
           (after_runs (handler msg) (Suc maxRetries) w)\<lparr>bus := bus (after_runs (handler msg) (Suc maxRetries) w) @
             [\<lparr> msg_Topic = TopicDeadLetter, msg_Key = msg_Key msg, msg_Value = msg_Value msg,
                msg_Headers = [(''original_topic'', topic), (''error'', errText x), (''key'', msg_Key msg)] \<rparr>]\<rparr>)"
    by (simp add: process_def PublishWithHeaders_def WriteMessages_def
        del: process_loop.simps after_runs.simps)
qed

theorem process_retries_witness:
  "snd (run_state (process (\<lambda>_. State_Monad.return (HErr ''boom'')) (\<lambda>e. e) (\<lambda>_. False) TopicRideRequested True 3
       \<lparr> msg_Topic = TopicRideRequested, msg_Key = ''r1'', msg_Value = JBad, msg_Headers = [] \<rparr>)
     \<lparr> srv = (), fates = [], bus = [], acks = [] \<rparr>) = \<lparr> srv = (), fates = [],
       bus = [\<lparr> msg_Topic = TopicDeadLetter, msg_Key = ''r1'', msg_Value = JBad,
         msg_Headers = [(''original_topic'', TopicRideRequested), (''error'', ''boom''), (''key'', ''r1'')] \<rparr>], acks = [] \<rparr>"
proof -
  let ?h = "\<lambda>_. State_Monad.return (HErr ''boom'')"
  let ?w = "\<lparr> srv = (), fates = [], bus = [], acks = [] \<rparr>"
  have r: "after_runs (State_Monad.return (HErr ''boom'')) n ?w = ?w" for n
    by (induction n) simp_all
  show ?thesis
    using process_retries [of "\<lambda>_. False" 3 ?h
        "\<lparr> msg_Topic = TopicRideRequested, msg_Key = ''r1'', msg_Value = JBad, msg_Headers = [] \<rparr>" ?w
        "\<lambda>e. e" TopicRideRequested True]
    by (simp add: outcome_def is_err_def r del: after_runs.simps)
qed

section \<open>Crashes\<close>

text \<open>
  What the Kafka client documents of a reader in a consumer group, for one partition:
  \<^verbatim>\<open>ReadMessage\<close> returns the record at some offset not before the next one and commits that offset
  before it returns; no operation changes the records; a new member of the group starts at the
  committed offset.
\<close>

locale group_reader =
  fixes K :: "'k reader"
  assumes read_some: "read_message K k = (Some (n, m), k') \<Longrightarrow>
      next_offset K k \<le> n \<and> next_offset K k' = Suc n \<and> committed K k' = Suc n \<and> record_at K k n = Some m"
    and read_none: "read_message K k = (None, k') \<Longrightarrow> committed K k \<le> committed K k'
      \<and> next_offset K k \<le> next_offset K k' \<and> (committed K k \<le> next_offset K k \<longrightarrow> committed K k' \<le> next_offset K k')"
    and read_records: "record_at K (snd (read_message K k)) = record_at K k"
    and commit_next: "next_offset K (commit_message K n k) = next_offset K k"
    and commit_committed: "committed K (commit_message K n k) \<in> {committed K k, Suc n}"
    and commit_records: "record_at K (commit_message K n k) = record_at K k"
    and rejoin_next: "next_offset K (rejoin K k) = committed K k"
    and rejoin_committed: "committed K (rejoin K k) = committed K k"
    and rejoin_records: "record_at K (rejoin K k) = record_at K k"

text \<open>
  The life of a consumer group member after member. Each process executes \<open>Run_loop\<close> for some
  number of iterations and dies: of the handler's panic, between two iterations, or, when \<open>ses_lost\<close>
  says so, after one more read and before the handler starts. The next process joins the group.
\<close>

record session =
  ses_ctx :: "((bool \<times> bool) \<times> (nat \<Rightarrow> bool)) list"
  ses_lost :: bool

fun Run_sessions ::
  "'k reader \<Rightarrow> (message \<Rightarrow> (('s, 'm) node_scheme, 'e hres) state) \<Rightarrow> ('e \<Rightarrow> string)
   \<Rightarrow> Consumer \<Rightarrow> session list \<Rightarrow> 'k \<times> ('s, 'm) node_scheme \<Rightarrow> 'k \<times> ('s, 'm) node_scheme"
where
  "Run_sessions K handler errText c [] kw = kw"
| "Run_sessions K handler errText c (s # ss) kw =
     (case Run_loop K handler errText c (ses_ctx s) kw of (out, k, w) \<Rightarrow>
        Run_sessions K handler errText c ss
          (rejoin K (if ses_lost s \<and> out = Continue then snd (read_message K k) else k), w))"

text \<open>
  To speak of the runs of a handler, \<open>traced h\<close> is the handler \<open>h\<close> in a world with one more
  component, the list of the messages \<open>h\<close> was called with; \<open>untraced\<close> forgets the list.
\<close>

type_synonym ('s, 'm) traced_node = "('s, 'm \<times> message list) node_scheme"

definition untraced :: "('s, 'm) traced_node \<Rightarrow> ('s, 'm) node_scheme" where
  "untraced w = node.extend (node.truncate w) (fst (node.more w))"

definition trace :: "('s, 'm) traced_node \<Rightarrow> message list" where
  "trace w = snd (node.more w)"

definition traced ::
  "(message \<Rightarrow> (('s, 'm) node_scheme, 'e hres) state) \<Rightarrow> message \<Rightarrow> (('s, 'm) traced_node, 'e hres) state"
where
  "traced h m = State (\<lambda>w. case run_state (h m) (untraced w) of
     (r, w') \<Rightarrow> (r, node.extend (node.truncate w') (node.more w', trace w @ [m])))"

text \<open>The runs of the handler for deliveries \<open>(n, m, r)\<close>: the record \<open>m\<close> at offset \<open>n\<close>, \<open>r\<close> times.\<close>

type_synonym delivery = "nat \<times> message \<times> nat"

definition runs_of :: "delivery list \<Rightarrow> message list" where
  "runs_of ds = concat (map (\<lambda>(n, m, r). replicate r m) ds)"

definition deliveries_ok :: "'k reader \<Rightarrow> Consumer \<Rightarrow> 'k \<Rightarrow> delivery list \<Rightarrow> bool" where
  "deliveries_ok K c k ds \<longleftrightarrow> sorted_wrt (<) (map fst ds) \<and> (\<forall>n \<in> set (map fst ds). committed K k \<le> n)
     \<and> (\<forall>(n, m, r) \<in> set ds. record_at K k n = Some m \<and> 1 \<le> r \<and> r \<le> Suc (con_maxRetries c))"

lemma traced_simps [simp]:
  "trace (snd (run_state (traced h m) w)) = trace w @ [m]"
  "untraced (snd (run_state (traced h m) w)) = snd (run_state (h m) (untraced w))"
  "fst (run_state (traced h m) w) = fst (run_state (h m) (untraced w))"
  "trace (snd (run_state (WriteMessages p) w)) = trace w"
  "untraced (snd (run_state (WriteMessages p) w)) = snd (run_state (WriteMessages p) (untraced w))"
  by (simp_all add: traced_def trace_def untraced_def WriteMessages_def node.defs split_beta
      split: list.splits bool.splits)

lemma process_loop_traced:
  "\<exists>r. r \<le> left \<and> trace (snd (run_state (process_loop (traced h) ended m a left e) w)) = trace w @ replicate r m
     \<and> (left > 0 \<and> a = 0 \<longrightarrow> 1 \<le> r)"
proof (induction left arbitrary: a e w)
  case (Suc left)
  show ?case
  proof (cases "a > 0 \<and> ended a")
    case False
    obtain x w' where h: "run_state (traced h m) w = (x, w')" by fastforce
    then have t: "trace w' = trace w @ [m]" using traced_simps(1) [of h m w] by simp
    obtain r where "r \<le> left"
      "trace (snd (run_state (process_loop (traced h) ended m (Suc a) left (case x of HErr y \<Rightarrow> Some y | _ \<Rightarrow> e)) w'))
        = trace w' @ replicate r m"
      using Suc.IH by blast
    with False h t show ?thesis
      by (cases x) (auto intro: exI [of _ "Suc r"] exI [of _ 1])
  qed auto
qed simp

lemma process_loop_untraced:
  "fst (run_state (process_loop (traced h) ended m a left e) w)
      = fst (run_state (process_loop h ended m a left e) (untraced w))
   \<and> untraced (snd (run_state (process_loop (traced h) ended m a left e) w))
      = snd (run_state (process_loop h ended m a left e) (untraced w))"
proof (induction left arbitrary: a e w)
  case (Suc left)
  obtain x w' where h: "run_state (traced h m) w = (x, w')" by fastforce
  then have "run_state (h m) (untraced w) = (x, untraced w')"
    using traced_simps(2,3) [of h m w] by (simp add: prod_eq_iff)
  with h Suc.IH show ?case by (simp split: hres.split)
qed simp

lemma process_traced:
  assumes "run_state (process (traced h) errText ended t d mr m) w = (p, w')"
  shows "\<exists>r. 1 \<le> r \<and> r \<le> Suc mr \<and> trace w' = trace w @ replicate r m"
    and "run_state (process h errText ended t d mr m) (untraced w) = (p, untraced w')"
proof -
  let ?L = "run_state (process_loop (traced h) ended m 0 (Suc mr) None) w"
  obtain q v where L: "?L = (q, v)" by fastforce
  with assms have w': "trace w' = trace v"
    by (auto simp: process_def PublishWithHeaders_def split_beta split: proc.splits if_splits simp del: process_loop.simps)
  with L process_loop_traced [of "Suc mr" h ended m 0 None w]
  show "\<exists>r. 1 \<le> r \<and> r \<le> Suc mr \<and> trace w' = trace w @ replicate r m"
    by (auto simp del: process_loop.simps)
  have "run_state (process_loop h ended m 0 (Suc mr) None) (untraced w) = (q, untraced v)"
    using L process_loop_untraced [of h ended m 0 "Suc mr" None w] by (simp add: prod_eq_iff del: process_loop.simps)
  with L assms show "run_state (process h errText ended t d mr m) (untraced w) = (p, untraced w')"
    by (auto simp: process_def PublishWithHeaders_def split_beta split: proc.splits if_splits simp del: process_loop.simps)
qed

text \<open>Tracing changes nothing else.\<close>

lemma Run_iter_untraced:
  assumes "Run_iter K (traced h) errText ended c alive (k, w) = (out, k', w')"
  shows "Run_iter K h errText ended c alive (k, untraced w) = (out, k', untraced w')"
proof -
  obtain o' k1 where r: "read_message K k = (o', k1)" by fastforce
  show ?thesis
  proof (cases o')
    case (Some nm)
    obtain n m where "nm = (n, m)" by fastforce
    moreover obtain p v where p: "run_state (process (traced h) errText ended (con_topic c) (con_dlq c) (con_maxRetries c) m) w = (p, v)"
      by fastforce
    ultimately show ?thesis using assms r Some process_traced(2) [OF p]
      by (cases p) (auto simp: Run_iter_def split: if_splits)
  qed (use assms r in \<open>auto simp: Run_iter_def split: if_splits\<close>)
qed

lemma Run_loop_untraced:
  "Run_loop K (traced h) errText c ctx (k, w) = (out, k', w') \<Longrightarrow>
   Run_loop K h errText c ctx (k, untraced w) = (out, k', untraced w')"
proof (induction ctx arbitrary: k w)
  case (Cons a ctx)
  obtain alive ended where a: "a = (alive, ended)" by fastforce
  obtain o1 k1 w1 where i: "Run_iter K (traced h) errText ended c alive (k, w) = (o1, k1, w1)"
    by (metis prod_cases3)
  from Cons a i Run_iter_untraced [OF i] show ?case by (cases o1) auto
qed simp

lemma Run_sessions_untraced:
  "Run_sessions K (traced h) errText c ss (k, w) = (k', w') \<Longrightarrow>
   Run_sessions K h errText c ss (k, untraced w) = (k', untraced w')"
proof (induction ss arbitrary: k w)
  case (Cons s ss)
  obtain o1 k1 w1 where l: "Run_loop K (traced h) errText c (ses_ctx s) (k, w) = (o1, k1, w1)"
    by (metis prod_cases3)
  from Cons l Run_loop_untraced [OF l] show ?case by auto
qed simp

text \<open>An iteration that reads a record hands it to the handler, and to the handler only that record.\<close>

lemma Run_iter_hands_on:
  assumes "read_message K k = (Some (n, m), k1)"
    and "Run_iter K (traced h) errText ended c (True, b) (k, w) = (out, k', w')"
  shows "\<exists>r. 1 \<le> r \<and> r \<le> Suc (con_maxRetries c) \<and> trace w' = trace w @ replicate r m"
proof -
  obtain p v where p: "run_state (process (traced h) errText ended (con_topic c) (con_dlq c) (con_maxRetries c) m) w = (p, v)"
    by fastforce
  with assms have "w' = v" by (cases p) (auto simp: Run_iter_def)
  with process_traced(1) [OF p] show ?thesis by simp
qed

context group_reader
begin

text \<open>What a stretch of execution from \<open>(k, w)\<close> to \<open>(k', w')\<close> delivers, and how it moves the offsets.\<close>

definition delivers :: "Consumer \<Rightarrow> 'k \<Rightarrow> ('s, 'm) traced_node \<Rightarrow> 'k \<Rightarrow> ('s, 'm) traced_node \<Rightarrow> bool" where
  "delivers c k w k' w' \<longleftrightarrow> committed K k \<le> committed K k' \<and> committed K k' \<le> next_offset K k'
     \<and> record_at K k' = record_at K k
     \<and> (\<exists>ds. trace w' = trace w @ runs_of ds \<and> deliveries_ok K c k ds
          \<and> (\<forall>n \<in> set (map fst ds). n < committed K k'))"

lemma delivers_nothing:
  assumes "committed K k \<le> committed K k'" and "committed K k' \<le> next_offset K k'" and "record_at K k' = record_at K k"
  shows "delivers c k w k' w"
  unfolding delivers_def using assms by (auto simp: runs_of_def deliveries_ok_def intro!: exI [of _ "[]"])

lemma delivers_trans:
  assumes "delivers c k w k1 w1" and "delivers c k1 w1 k2 w2"
  shows "delivers c k w k2 w2"
proof -
  from assms(1) obtain ds where d: "trace w1 = trace w @ runs_of ds" "deliveries_ok K c k ds"
    "\<forall>n \<in> set (map fst ds). n < committed K k1" by (auto simp: delivers_def)
  from assms(2) obtain ds' where d': "trace w2 = trace w1 @ runs_of ds'" "deliveries_ok K c k1 ds'"
    "\<forall>n \<in> set (map fst ds'). n < committed K k2" by (auto simp: delivers_def)
  have c: "committed K k \<le> committed K k1" "committed K k1 \<le> committed K k2" "record_at K k1 = record_at K k"
    using assms by (auto simp: delivers_def)
  have lt: "\<forall>x \<in> set ds. \<forall>y \<in> set ds'. fst x < fst y"
    using d(3) d'(2) by (fastforce simp: deliveries_ok_def)
  have "deliveries_ok K c k (ds @ ds')"
    using d(2) d'(2) c lt by (fastforce simp: deliveries_ok_def sorted_wrt_append)
  moreover have "\<forall>n \<in> set (map fst (ds @ ds')). n < committed K k2" using d(3) d'(3) c(2) by fastforce
  moreover have "trace w2 = trace w @ runs_of (ds @ ds')" using d(1) d'(1) by (simp add: runs_of_def)
  moreover have "committed K k \<le> committed K k2" "committed K k2 \<le> next_offset K k2" "record_at K k2 = record_at K k"
    using assms(2) c by (simp_all add: delivers_def)
  ultimately show ?thesis unfolding delivers_def by blast
qed

lemma Run_iter_delivers:
  assumes "Run_iter K (traced h) errText ended c alive (k, w) = (out, k', w')" and "committed K k \<le> next_offset K k"
  shows "delivers c k w k' w'"
proof (cases "fst alive")
  case True
  obtain o' k1 where r: "read_message K k = (o', k1)" by fastforce
  then have rec: "record_at K k1 = record_at K k" using read_records [of k] by simp
  show ?thesis
  proof (cases o')
    case None
    with assms r True have "k' = k1" "w' = w" by (auto simp: Run_iter_def split: if_splits)
    with read_none [of k k1] r None assms(2) rec show ?thesis by (auto intro: delivers_nothing)
  next
    case (Some nm)
    obtain n m where nm: "nm = (n, m)" by fastforce
    have al: "alive = (True, snd alive)" using True by (cases alive) simp
    obtain t where t: "1 \<le> t" "t \<le> Suc (con_maxRetries c)" "trace w' = trace w @ replicate t m"
      using Run_iter_hands_on [of K k n m k1 h errText ended c "snd alive" w out k' w'] assms(1) r Some nm al by auto
    have "k' = k1 \<or> k' = commit_message K n k1"
      using assms(1) r Some nm True
      by (auto simp: Run_iter_def split: if_splits prod.splits proc.splits)
    then have "committed K k' = Suc n" "next_offset K k' = Suc n" "record_at K k' = record_at K k"
      using read_some [of k n m k1] r Some nm commit_next [of n k1] commit_committed [of n k1] commit_records [of n k1] rec
      by auto
    moreover have "committed K k \<le> n" "record_at K k n = Some m"
      using read_some [of k n m k1] r Some nm assms(2) by auto
    ultimately show ?thesis using t
      by (auto simp: delivers_def deliveries_ok_def runs_of_def intro!: exI [of _ "[(n, m, t)]"])
  qed
qed (use assms in \<open>auto simp: Run_iter_def intro: delivers_nothing\<close>)

lemma Run_loop_delivers:
  assumes "Run_loop K (traced h) errText c ctx (k, w) = (out, k', w')" and "committed K k \<le> next_offset K k"
  shows "delivers c k w k' w'"
  using assms
proof (induction ctx arbitrary: k w)
  case (Cons a ctx)
  obtain alive ended where a: "a = (alive, ended)" by fastforce
  obtain o1 k1 w1 where i: "Run_iter K (traced h) errText ended c alive (k, w) = (o1, k1, w1)"
    by (metis prod_cases3)
  have d: "delivers c k w k1 w1" by (rule Run_iter_delivers [OF i Cons.prems(2)])
  show ?case
  proof (cases "o1 = Continue")
    case True
    with Cons.prems(1) a i have "Run_loop K (traced h) errText c ctx (k1, w1) = (out, k', w')" by simp
    from Cons.IH [OF this] d show ?thesis by (auto simp: delivers_def [of c k w k1 w1] intro: delivers_trans [OF d])
  next
    case False
    with Cons.prems(1) a i d show ?thesis by (cases o1) auto
  qed
qed (auto intro: delivers_nothing)

lemma next_process:
  assumes "committed K k \<le> next_offset K k"
  shows "delivers c k w (rejoin K (if b then snd (read_message K k) else k)) w"
proof -
  obtain o' k1 where r: "read_message K k = (o', k1)" by fastforce
  have "committed K k \<le> committed K k1"
    using r read_some [of k _ _ k1] read_none [of k k1] assms by (cases o') fastforce+
  then show ?thesis
    using r read_records [of k] by (auto intro!: delivers_nothing simp: rejoin_next rejoin_committed rejoin_records)
qed

lemma Run_sessions_delivers:
  assumes "Run_sessions K (traced h) errText c ss (k, w) = (k', w')" and "committed K k \<le> next_offset K k"
  shows "delivers c k w k' w'"
  using assms
proof (induction ss arbitrary: k w)
  case (Cons s ss)
  obtain o1 k1 w1 where l: "Run_loop K (traced h) errText c (ses_ctx s) (k, w) = (o1, k1, w1)"
    by (metis prod_cases3)
  let ?k2 = "rejoin K (if ses_lost s \<and> o1 = Continue then snd (read_message K k1) else k1)"
  have d1: "delivers c k w k1 w1" by (rule Run_loop_delivers [OF l Cons.prems(2)])
  then have "committed K k1 \<le> next_offset K k1" by (simp add: delivers_def)
  from delivers_trans [OF d1 next_process [OF this]] have d: "delivers c k w ?k2 w1" .
  have "Run_sessions K (traced h) errText c ss (?k2, w1) = (k', w')" using Cons.prems(1) l by simp
  from Cons.IH [OF this] d have "delivers c ?k2 w1 k' w'" by (simp add: delivers_def)
  with d show ?case by (rule delivers_trans)
qed (auto intro: delivers_nothing)

lemma lost_read_never_handled:
  assumes "read_message K k = (Some (n, m), k1)"
    and "Run_sessions K (traced h) errText c ss (rejoin K k1, w) = (k', w')"
  shows "\<exists>ds. trace w' = trace w @ runs_of ds \<and> deliveries_ok K c (rejoin K k1) ds \<and> (\<forall>i \<in> set (map fst ds). n < i)"
proof -
  have c: "committed K (rejoin K k1) = Suc n" using read_some [OF assms(1)] rejoin_committed [of k1] by simp
  have "delivers c (rejoin K k1) w k' w'"
    by (rule Run_sessions_delivers [OF assms(2)]) (simp add: rejoin_next rejoin_committed)
  then obtain ds where "trace w' = trace w @ runs_of ds" "deliveries_ok K c (rejoin K k1) ds"
    by (auto simp: delivers_def)
  moreover from this c have "\<forall>i \<in> set (map fst ds). n < i" by (auto simp: deliveries_ok_def)
  ultimately show ?thesis by blast
qed

end

text \<open>A partition as a list of records, with the position of the reader and the committed offset.\<close>

record partition =
  records :: "message list"
  pos :: nat
  com :: nat

definition log_reader :: "partition reader" where
  "log_reader = \<lparr>
     read_message = \<lambda>k. if pos k < length (records k)
       then (Some (pos k, records k ! pos k), k\<lparr>pos := Suc (pos k), com := Suc (pos k)\<rparr>) else (None, k),
     commit_message = \<lambda>n k. k\<lparr>com := Suc n\<rparr>,
     rejoin = \<lambda>k. k\<lparr>pos := com k\<rparr>,
     next_offset = pos, committed = com,
     record_at = \<lambda>k n. if n < length (records k) then Some (records k ! n) else None \<rparr>"

interpretation lr: group_reader log_reader
  by unfold_locales (auto simp: log_reader_def split: if_splits)

text \<open>
  C21. What the read loop guarantees across crashes is at-most-once, not at-least-once. Whatever
  the handler does, however many processes run \<^verbatim>\<open>Run\<close> one after the other on a partition and wherever
  they die, the calls of the handler are, in order, those for records at strictly increasing
  offsets, each record handed to one process only, which calls the handler between once and
  \<open>maxRetries + 1\<close> times for it. A live iteration does hand on the record it reads; but
  \<^verbatim>\<open>ReadMessage\<close> commits before it returns, so a record whose process dies between the read and the
  handler is never handled: the offsets of all later calls lie beyond it.
\<close>

theorem Run_at_most_once:
  assumes "group_reader K" and "committed K k \<le> next_offset K k"
  shows "(case Run_sessions K (traced h) errText c ss (k, w) of (k', w') \<Rightarrow>
        Run_sessions K h errText c ss (k, untraced w) = (k', untraced w')
        \<and> (\<exists>ds. trace w' = trace w @ runs_of ds \<and> deliveries_ok K c k ds))
    \<and> (\<forall>n m k1. read_message K k = (Some (n, m), k1) \<longrightarrow>
        (\<forall>ended b. case Run_iter K (traced h) errText ended c (True, b) (k, w) of (out, k', w') \<Rightarrow>
           \<exists>r. 1 \<le> r \<and> r \<le> Suc (con_maxRetries c) \<and> trace w' = trace w @ replicate r m)
        \<and> (case Run_sessions K (traced h) errText c ss (rejoin K k1, w) of (k', w') \<Rightarrow>
             \<exists>ds. trace w' = trace w @ runs_of ds \<and> deliveries_ok K c (rejoin K k1) ds
               \<and> (\<forall>i \<in> set (map fst ds). n < i)))"
proof (intro conjI allI impI)
  obtain k' w' where r: "Run_sessions K (traced h) errText c ss (k, w) = (k', w')" by fastforce
  with group_reader.Run_sessions_delivers [OF assms(1) r assms(2)] Run_sessions_untraced [OF r]
  show "case Run_sessions K (traced h) errText c ss (k, w) of (k', w') \<Rightarrow>
      Run_sessions K h errText c ss (k, untraced w) = (k', untraced w')
      \<and> (\<exists>ds. trace w' = trace w @ runs_of ds \<and> deliveries_ok K c k ds)"
    by (auto simp: group_reader.delivers_def [OF assms(1)])
next
  fix n m k1 ended b
  assume "read_message K k = (Some (n, m), k1)"
  then show "case Run_iter K (traced h) errText ended c (True, b) (k, w) of (out, k', w') \<Rightarrow>
      \<exists>r. 1 \<le> r \<and> r \<le> Suc (con_maxRetries c) \<and> trace w' = trace w @ replicate r m"
    by (auto split: prod.split dest: Run_iter_hands_on)
next
  fix n m k1
  assume "read_message K k = (Some (n, m), k1)"
  moreover obtain k' w' where r: "Run_sessions K (traced h) errText c ss (rejoin K k1, w) = (k', w')" by fastforce
  ultimately show "case Run_sessions K (traced h) errText c ss (rejoin K k1, w) of (k', w') \<Rightarrow>
      \<exists>ds. trace w' = trace w @ runs_of ds \<and> deliveries_ok K c (rejoin K k1) ds \<and> (\<forall>i \<in> set (map fst ds). n < i)"
    using group_reader.lost_read_never_handled [OF assms(1) _ r] by (simp only: r prod.case)
qed

theorem Run_at_most_once_witness:
  "let m1 = \<lparr> msg_Topic = TopicRideRequested, msg_Key = ''r1'', msg_Value = JBad, msg_Headers = [] \<rparr>;
       m2 = \<lparr> msg_Topic = TopicRideRequested, msg_Key = ''r2'', msg_Value = JBad, msg_Headers = [] \<rparr>;
       k = \<lparr> records = [m1, m2], pos = 0, com = 0 \<rparr>;
       w = \<lparr> srv = (), fates = [], bus = [], acks = [], \<dots> = ((), []) \<rparr>;
       c = \<lparr> con_topic = TopicRideRequested, con_group = ''dispatch'', con_dlq = True, con_maxRetries = 3 \<rparr>;
       live = ((True, True), \<lambda>_. False)
   in trace (snd (Run_sessions log_reader (traced (\<lambda>_. State_Monad.return (HOk :: string hres))) (\<lambda>e. e) c
        [\<lparr> ses_ctx = [], ses_lost = True \<rparr>, \<lparr> ses_ctx = [live], ses_lost = False \<rparr>] (k, w))) = [m2]
      \<and> (\<exists>ds. [m2] = runs_of ds \<and> deliveries_ok log_reader c k ds)"
proof -
  let ?m1 = "\<lparr> msg_Topic = TopicRideRequested, msg_Key = ''r1'', msg_Value = JBad, msg_Headers = [] \<rparr>"
  let ?m2 = "\<lparr> msg_Topic = TopicRideRequested, msg_Key = ''r2'', msg_Value = JBad, msg_Headers = [] \<rparr>"
  let ?k = "\<lparr> records = [?m1, ?m2], pos = 0, com = 0 \<rparr>"
  let ?w = "\<lparr> srv = (), fates = [], bus = [], acks = [], \<dots> = ((), []) \<rparr>"
  let ?c = "\<lparr> con_topic = TopicRideRequested, con_group = ''dispatch'', con_dlq = True, con_maxRetries = 3 \<rparr>"
  let ?ss = "[\<lparr> ses_ctx = [], ses_lost = True \<rparr>, \<lparr> ses_ctx = [((True, True), \<lambda>_. False)], ses_lost = False \<rparr>]"
  let ?h = "\<lambda>_ :: message. State_Monad.return (HOk :: string hres)"
  obtain k' w' where r: "Run_sessions log_reader (traced ?h) (\<lambda>e. e) ?c ?ss (?k, ?w) = (k', w')" by fastforce
  have "trace (snd (Run_sessions log_reader (traced ?h) (\<lambda>e. e) ?c ?ss (?k, ?w))) = [?m2]"
    by (simp add: Run_iter_def process_def log_reader_def traced_def trace_def untraced_def node.defs numeral_eq_Suc)
  then have e: "trace w' = [?m2]" by (simp only: r snd_conv)
  have "committed log_reader ?k \<le> next_offset log_reader ?k" by (simp add: log_reader_def)
  from Run_at_most_once [OF lr.group_reader_axioms this, of ?h "\<lambda>e. e" ?c ?ss ?w, THEN conjunct1]
  have "\<exists>ds. [?m2] = trace ?w @ runs_of ds \<and> deliveries_ok log_reader ?c ?k ds" by (simp only: r prod.case e)
  then have "\<exists>ds. [?m2] = runs_of ds \<and> deliveries_ok log_reader ?c ?k ds" by (simp add: trace_def)
  then show ?thesis unfolding Let_def by (simp only: r e snd_conv simp_thms)
qed

end
