(* ===== verification/Dispatch_Service.thy ===== *)
theory Dispatch_Service
  imports Dispatch Consumer
begin

text \<open>
  \<^verbatim>\<open>internal/dispatchsvc/service.go\<close>: the gRPC service and the Kafka handler around the engine. The
  engine is part of the world of the process; \<open>calls\<close> numbers the dispatches, so that each has
  its own clock readings \<open>clks n\<close> and random bytes \<open>rnds n\<close>. Metrics are output only and left out.
\<close>

record 's dnode = "'s node" +
  eng :: Engine
  calls :: nat

record FindCandidatesResponse =
  fc_CellsSearched :: int
  fc_CandidatesConsidered :: int
  fc_TookNs :: int
  fc_Candidates :: "Candidate list"

definition Svc_FindCandidates ::
  "'s redis \<Rightarrow> 'c h3 \<Rightarrow> ((Candidate \<Rightarrow> Candidate \<Rightarrow> bool) \<Rightarrow> Candidate list \<Rightarrow> Candidate list)
   \<Rightarrow> int \<Rightarrow> int \<Rightarrow> float64 \<Rightarrow> float64 \<Rightarrow> int \<Rightarrow> int \<Rightarrow> (('s, 'm) dnode_scheme, FindCandidatesResponse rpc) state"
where
  "Svc_FindCandidates R H srt tStart tEnd lat lng reqRadiusM reqMax = do {
     w \<leftarrow> State_Monad.get;
     let radius = (if reqRadiusM \<le> 0 then Fin 1000 else Fin (of_int reqRadiusM));
     let mx = (if reqMax \<le> 0 then 20 else reqMax);
     r \<leftarrow> FindCandidates R H srt tStart tEnd (eng w) lat lng radius mx;
     State_Monad.return (case r of
         Panic \<Rightarrow> Crash
       | Err _ \<Rightarrow> Status Internal
       | Ret (cands, cells, tookNs) \<Rightarrow> RpcOk \<lparr> fc_CellsSearched = to_int32 (int cells),
           fc_CandidatesConsidered = to_int32 (int (length cands)), fc_TookNs = tookNs, fc_Candidates = cands \<rparr>) }"

record DispatchForRideResponse =
  df_DriverId :: string
  df_DispatchId :: string
  df_Success :: bool
  df_ResultCode :: string

text \<open>The engine's operations as steps of the world.\<close>

definition with_engine ::
  "(nat \<Rightarrow> Engine \<Rightarrow> (('s, 'm) dnode_scheme, 'a \<times> Engine) state) \<Rightarrow> (('s, 'm) dnode_scheme, 'a) state"
where
  "with_engine f = do {
     w \<leftarrow> State_Monad.get;
     (x, e) \<leftarrow> f (calls w) (eng w);
     State_Monad.update (\<lambda>w. w\<lparr>eng := e, calls := Suc (calls w)\<rparr>);
     State_Monad.return x }"

definition runDispatch ::
  "'s redis \<Rightarrow> 'c h3 \<Rightarrow> ((Candidate \<Rightarrow> Candidate \<Rightarrow> bool) \<Rightarrow> Candidate list \<Rightarrow> Candidate list)
   \<Rightarrow> (nat \<Rightarrow> nat \<Rightarrow> 8 word list option) \<Rightarrow> (nat \<Rightarrow> dispatch_clock) \<Rightarrow> string
   \<Rightarrow> (('s, 'm) dnode_scheme, DispatchForRideResponse rpc) state"
where
  "runDispatch R H srt rnds clks rideID = do {
     x \<leftarrow> with_engine (\<lambda>n e. DispatchByRideID R H srt (rnds n) (clks n) e rideID);
     State_Monad.return (case x of
         Ret (Some res, None) \<Rightarrow> RpcOk \<lparr> df_DriverId = res_DriverID res, df_DispatchId = res_DispatchID res,
           df_Success = Success res, df_ResultCode = ResultCode res \<rparr>
       | Ret (_, Some _) \<Rightarrow> Status Internal
       | Ret (None, None) \<Rightarrow> Crash
       | Err _ \<Rightarrow> Status Internal
       | Panic \<Rightarrow> Crash) }"

definition Svc_DispatchForRide ::
  "'s redis \<Rightarrow> 'c h3 \<Rightarrow> ((Candidate \<Rightarrow> Candidate \<Rightarrow> bool) \<Rightarrow> Candidate list \<Rightarrow> Candidate list)
   \<Rightarrow> (nat \<Rightarrow> nat \<Rightarrow> 8 word list option) \<Rightarrow> (nat \<Rightarrow> dispatch_clock) \<Rightarrow> string
   \<Rightarrow> (('s, 'm) dnode_scheme, DispatchForRideResponse rpc) state"
where
  "Svc_DispatchForRide R H srt rnds clks rideId = runDispatch R H srt rnds clks rideId"

definition HandleRideRequested ::
  "'s redis \<Rightarrow> 'c h3 \<Rightarrow> ((Candidate \<Rightarrow> Candidate \<Rightarrow> bool) \<Rightarrow> Candidate list \<Rightarrow> Candidate list)
   \<Rightarrow> (nat \<Rightarrow> nat \<Rightarrow> 8 word list option) \<Rightarrow> (nat \<Rightarrow> dispatch_clock) \<Rightarrow> message
   \<Rightarrow> (('s, 'm) dnode_scheme, resv_err option hres) state"
where
  "HandleRideRequested R H srt rnds clks msg =
     (case DecodeRideRequested (msg_Value msg) of
        None \<Rightarrow> State_Monad.return HOk
      | Some ev \<Rightarrow> do {
          x \<leftarrow> with_engine (\<lambda>n e. DispatchForRide R H srt (rnds n) (clks n) e ev);
          State_Monad.return (case x of
              Ret (_, None) \<Rightarrow> HOk
            | Ret (_, Some lastErr) \<Rightarrow> HErr lastErr
            | Err _ \<Rightarrow> HOk
            | Panic \<Rightarrow> HPanic) })"

section \<open>Properties\<close>

lemma with_engine_run:
  assumes "run_state (f (calls w) (eng w)) w = ((x, e), w')"
  shows "run_state (with_engine f) w = (x, w'\<lparr>eng := e, calls := Suc (calls w')\<rparr>)"
  using assms by (simp add: with_engine_def State_Monad.get_def State_Monad.update_def State_Monad.set_def)

lemma Handle_run:
  assumes "DecodeRideRequested (msg_Value msg) = Some ev"
    and "run_state (DispatchForRide R H srt (rnds (calls w)) (clks (calls w)) (eng w) ev) w = ((x, e), w')"
  shows "run_state (HandleRideRequested R H srt rnds clks msg) w =
    (case x of Ret (_, None) \<Rightarrow> HOk | Ret (_, Some lastErr) \<Rightarrow> HErr lastErr | Err _ \<Rightarrow> HOk | Panic \<Rightarrow> HPanic,
     w'\<lparr>eng := e, calls := Suc (calls w')\<rparr>)"
  using assms(1) with_engine_run [where f = "\<lambda>n e. DispatchForRide R H srt (rnds n) (clks n) e ev", OF assms(2)]
  by (simp add: HandleRideRequested_def)

text \<open>
  Dispatch and consumer together: when the search of a dispatch cannot reach Redis -- or finds
  nobody -- the message is done at the first attempt. The handler is not run again, nothing is
  dead-lettered, no driver is reserved and nothing is published: the request is gone although
  the retry budget is untouched.
\<close>

theorem failed_search_drops_request:
  assumes "\<forall>a. \<not> ended a" and "DecodeRideRequested (msg_Value msg) = Some ev"
    and "run_state (SearchNearby R H (rq_PickupLat ev) (rq_PickupLng ev) (eff_radius (eng w) ev)) w = (found, w1)"
    and "found = Err x \<or> found = Ret ([], n)"
  shows "run_state (process (HandleRideRequested R H srt rnds clks) errText ended topic dlq maxRetries msg) w
      = (Done, w1\<lparr>calls := Suc (calls w1)\<rparr>) \<and> srv w1 = srv w \<and> bus w1 = bus w \<and> eng w1 = eng w"
proof -
  obtain fs where w1: "w1 = w\<lparr>fates := fs\<rparr>"
    using reads_onlyE [OF reads_only_SearchNearby, where w = w] assms(3) by (metis snd_conv)
  have "\<exists>res. run_state (DispatchForRide R H srt (rnds (calls w)) (clks (calls w)) (eng w) ev) w = ((Ret (res, None), eng w), w1)"
    using dispatch_run [OF assms(3), of srt "rnds (calls w)" "clks (calls w)"] assms(4) by auto
  then obtain res where
    "run_state (DispatchForRide R H srt (rnds (calls w)) (clks (calls w)) (eng w) ev) w = ((Ret (res, None), eng w), w1)"
    by blast
  from Handle_run [where rnds = rnds and clks = clks, OF assms(2) this] w1
  have h: "run_state (HandleRideRequested R H srt rnds clks msg) w = (HOk, w1\<lparr>calls := Suc (calls w1)\<rparr>)"
    by simp
  with process_success [OF assms(1), of 0 maxRetries "HandleRideRequested R H srt rnds clks" msg w errText topic dlq]
  have "run_state (process (HandleRideRequested R H srt rnds clks) errText ended topic dlq maxRetries msg) w
      = (Done, w1\<lparr>calls := Suc (calls w1)\<rparr>)"
    by (simp add: outcome_0)
  with w1 show ?thesis by simp
qed

lemma process_assigns:
  fixes w :: "('s, 'm) dnode_scheme"
  assumes "redis_service R" and "slice_sort srt" and "\<forall>a. \<not> ended a" and "DecodeRideRequested (msg_Value msg) = Some ev"
    and "fates w = []"
    and "run_state (SearchNearby R H (rq_PickupLat ev) (rq_PickupLng ev) (eff_radius (eng w) ev)) w = (Ret (cands, cells), w)"
    and "cands \<noteq> []" and "0 < MaxCandidates (eng_cfg (eng w))" and "10 ^ 9 \<le> m_ttl (eng_resv (eng w))"
    and "rnds (calls w) 0 = Some b"
    and "\<forall>p \<in> set cands. plain (pos_ID p) \<and> lease_free R (srv w) (pos_ID p)"
    and "\<forall>c \<in> set (score (eng_cfg (eng w)) cands (age_seconds (t_age (clks (calls w))) (Timestamp (rq_Env ev)))). c_Score c \<noteq> NaN"
    and "plain (rq_RideID ev)"
  obtains w' d where
    "run_state (process (HandleRideRequested R H srt rnds clks) errText ended topic dlq maxRetries msg) w = (Done, w')"
    "d \<in> pos_ID ` set cands" "leased_for R (srv w') d (rq_RideID ev)"
    "\<And>k. k \<notin> {DriverLeaseKey d, DriverKey d} \<Longrightarrow> view R (srv w') k = view R (srv w) k"
proof -
  obtain res e' w1 and c :: Candidate and r :: Reservation where run:
    "run_state (DispatchForRide R H srt (rnds (calls w)) (clks (calls w)) (eng w) ev) w = ((Ret (res, None), e'), w1)"
    "c \<in> set (score (eng_cfg (eng w)) cands (age_seconds (t_age (clks (calls w))) (Timestamp (rq_Env ev))))"
    "RideID (r_Lease r) = rq_RideID ev" "plain (Token (r_Lease r))" "holds R (srv w1) (c_DriverID c) (r_Lease r)"
    "\<And>k. k \<notin> {DriverLeaseKey (c_DriverID c), DriverKey (c_DriverID c)} \<Longrightarrow> view R (srv w1) k = view R (srv w) k"
    by (rule dispatch_best_frame [where rnds = "rnds (calls w)" and b = b, OF assms(1,2,5-12)]) (rule that)
  let ?w = "w1\<lparr>eng := e', calls := Suc (calls w1)\<rparr>"
  have "run_state (HandleRideRequested R H srt rnds clks msg) w = (HOk, ?w)"
    using Handle_run [where rnds = rnds and clks = clks, OF assms(4) run(1)] by simp
  with process_success [OF assms(3), of 0 maxRetries "HandleRideRequested R H srt rnds clks" msg w errText topic dlq]
  have "run_state (process (HandleRideRequested R H srt rnds clks) errText ended topic dlq maxRetries msg) w = (Done, ?w)"
    by (simp add: outcome_0)
  moreover have "c_DriverID c \<in> pos_ID ` set cands" using score_ids [OF run(2)] by auto
  moreover have "leased_for R (srv w1) (c_DriverID c) (rq_RideID ev)"
    using holds_leased_for [OF run(5)] run(3,4) assms(13) by (simp add: plain_lease_def)
  ultimately show thesis using run(6) by (intro that [of ?w "c_DriverID c"]) simp_all
qed

definition demo_dnode :: "ref dnode" where
  "demo_dnode = \<lparr> srv = demo, fates = [], bus = [], acks = [], eng = demo_engine, calls = 0 \<rparr>"

definition ride_msg :: message where
  "ride_msg = \<lparr> msg_Topic = TopicRideRequested, msg_Key = ''r1'',
     msg_Value = the (Encode (EvRideRequested demo_ride)), msg_Headers = [] \<rparr>"

lemma ride_msg_decodes: "DecodeRideRequested (msg_Value ride_msg) = Some demo_ride"
proof -
  obtain b where b: "Encode (EvRideRequested demo_ride) = Some b"
    by (simp add: json_simps demo_ride_def)
  then show ?thesis by (simp add: ride_msg_def DecodeRideRequested_Encode [OF b] demo_ride_def json_ride_def json_env_def)
qed

theorem failed_search_drops_request_witness:
  "run_state (process (HandleRideRequested ref_redis one_cell insertion_sort (\<lambda>_ _. None) (\<lambda>_. demo_clock))
      (\<lambda>_. ''x'') (\<lambda>_. False) TopicRideRequested True 3 ride_msg) (demo_dnode\<lparr>fates := [LostBefore]\<rparr>)
     = (Done, demo_dnode\<lparr>calls := 1\<rparr>)"
proof -
  have "run_state (SearchNearby ref_redis one_cell (rq_PickupLat demo_ride) (rq_PickupLng demo_ride)
      (eff_radius (eng (demo_dnode\<lparr>fates := [LostBefore]\<rparr>)) demo_ride)) (demo_dnode\<lparr>fates := [LostBefore]\<rparr>)
      = (Err (ERedis Unreachable), demo_dnode)"
    by (simp add: SearchNearby_def demo_dnode_def)
  from failed_search_drops_request [OF _ ride_msg_decodes this, of "\<lambda>_. False" "ERedis Unreachable" 0 insertion_sort
      "\<lambda>_ _. None" "\<lambda>_. demo_clock" "\<lambda>_. ''x''" TopicRideRequested True 3]
  show ?thesis by (simp add: demo_dnode_def)
qed

text \<open>
  C39. The handler is not idempotent: delivering a request whose ride already has a driver reserves a
  second one. If the lease of some driver \<open>a\<close> names the ride and the search offers a free driver,
  the handler succeeds, and afterwards the leases of two different drivers on the server both name
  this ride (\<open>leased_for\<close>: the text under the lease key parses to a lease of the ride).
\<close>

theorem redelivery_reserves_second_driver:
  assumes "redis_service R" and "slice_sort srt" and "fates w = []" and "DecodeRideRequested (msg_Value msg) = Some ev"
    and "leased_for R (srv w) a (rq_RideID ev)" and "plain (rq_RideID ev)" and "plain a"
    and "run_state (SearchNearby R H (rq_PickupLat ev) (rq_PickupLng ev) (eff_radius (eng w) ev)) w = (Ret (cands, cells), w)"
    and "cands \<noteq> []" and "0 < MaxCandidates (eng_cfg (eng w))" and "10 ^ 9 \<le> m_ttl (eng_resv (eng w))"
    and "rnds (calls w) 0 = Some b"
    and "\<forall>p \<in> set cands. plain (pos_ID p) \<and> lease_free R (srv w) (pos_ID p)"
    and "\<forall>c \<in> set (score (eng_cfg (eng w)) cands (age_seconds (t_age (clks (calls w))) (Timestamp (rq_Env ev)))). c_Score c \<noteq> NaN"
  shows "\<exists>w' d. run_state (HandleRideRequested R H srt rnds clks msg) w = (HOk, w') \<and> d \<noteq> a
    \<and> leased_for R (srv w') a (rq_RideID ev) \<and> leased_for R (srv w') d (rq_RideID ev)"
proof -
  obtain res e' w' and c :: Candidate and r :: Reservation where run:
    "run_state (DispatchForRide R H srt (rnds (calls w)) (clks (calls w)) (eng w) ev) w = ((Ret (res, None), e'), w')"
    "RideID (r_Lease r) = rq_RideID ev" "plain (Token (r_Lease r))" "holds R (srv w') (c_DriverID c) (r_Lease r)" "lease_free R (srv w) (c_DriverID c)"
    "plain (c_DriverID c)"
    "\<And>k. k \<notin> {DriverLeaseKey (c_DriverID c), DriverKey (c_DriverID c)} \<Longrightarrow> view R (srv w') k = view R (srv w) k"
    by (rule dispatch_best_frame [where rnds = "rnds (calls w)" and b = b, OF assms(1-3,8-14)]) (rule that)
  have ne: "c_DriverID c \<noteq> a" using run(5) assms(5) by (auto simp: lease_free_def leased_for_def)
  have "leased_for R (srv w') a (rq_RideID ev)"
    using run(7) [of "DriverLeaseKey a"] run(6) ne assms(5,7) by (simp add: leased_for_def)
  moreover have "leased_for R (srv w') (c_DriverID c) (rq_RideID ev)"
    using holds_leased_for [OF run(4)] run(2,3) assms(6) by (simp add: plain_lease_def)
  ultimately show ?thesis using Handle_run [where rnds = rnds and clks = clks, OF assms(4) run(1)] ne by auto
qed

definition taken_dnode :: "ref dnode" where
  "taken_dnode = demo_dnode\<lparr>srv := demo(DriverLeaseKey ''d2'' \<mapsto> (VStr (BStr (LeaseValue_String lease1)), Some 30000))\<rparr>"

lemma taken_view:
  "ref_view (srv taken_dnode) k =
     (if k = DriverLeaseKey ''d2'' then Some (RStr (BStr (LeaseValue_String lease1))) else ref_view demo k)"
  by (simp add: taken_dnode_def ref_view_def ref_live_def)

lemma taken_search:
  "run_state (SearchNearby ref_redis one_cell (rq_PickupLat demo_ride) (rq_PickupLng demo_ride)
     (eff_radius (eng taken_dnode) demo_ride)) taken_dnode = (Ret ([demo_pos], 1), taken_dnode)"
proof -
  have e: "eng taken_dnode = demo_engine" "fates taken_dnode = []" by (simp_all add: taken_dnode_def demo_dnode_def)
  have m: "ref_SMEMBERS (srv taken_dnode) (CellKey ''87'') = Inr [''d1'']"
    by (simp add: taken_dnode_def demo_def ref_SMEMBERS_def ref_live_def)
  have l: "ref_HMGET (srv taken_dnode) (DriverLocKey ''d1'') [''lat'', ''lng'', ''cell'']
      = Inr [Some (BFloat (Fin 0)), Some (BFloat (Fin 0)), Some (BStr ''87'')]"
    by (simp add: taken_dnode_def demo_def ref_HMGET_def ref_live_def)
  have s: "ref_HGET (srv taken_dnode) (DriverKey ''d1'') ''state'' = Inr (Some (BStr ''AVAILABLE''))"
    "ref_HGET (srv taken_dnode) (DriverKey ''d1'') ''rating'' = Inr (Some (BFloat (Fin 4)))"
    by (simp_all add: taken_dnode_def demo_def ref_HGET_def ref_live_def)
  show ?thesis
    by (simp add: e SearchNearby_def search_driver_def m l s Let_def hget_text_def bulk_text_def ParseFloat_def
        hget_val_def dist_sort_def insertion_sort_def demo_pos_def)
qed

theorem redelivery_reserves_second_driver_witness:
  "\<exists>w' d. run_state (HandleRideRequested ref_redis one_cell insertion_sort (\<lambda>_ _. Some (replicate 8 0)) (\<lambda>_. demo_clock)
       ride_msg) taken_dnode = (HOk, w')
     \<and> d \<noteq> ''d2'' \<and> leased_for ref_redis (srv w') ''d2'' ''r1'' \<and> leased_for ref_redis (srv w') d ''r1''"
proof -
  have r: "rq_RideID demo_ride = ''r1''" by simp
  have "holds ref_redis (srv taken_dnode) ''d2'' lease1" by (simp add: holds_def taken_view)
  from holds_leased_for [OF this] have h: "leased_for ref_redis (srv taken_dnode) ''d2'' (rq_RideID demo_ride)"
    by (simp add: plain_lease_def plain_def lease1_def r)
  have p: "plain ''d2''" "plain (rq_RideID demo_ride)" by (simp_all add: plain_def r)
  have e: "eng taken_dnode = demo_engine" "fates taken_dnode = []" by (simp_all add: taken_dnode_def demo_dnode_def)
  have c: "0 < MaxCandidates (eng_cfg (eng taken_dnode))" "10 ^ 9 \<le> m_ttl (eng_resv (eng taken_dnode))"
    by (simp_all add: e demo_engine_def NewEngine_def DefaultConfig_def NewManager_def)
  have f: "\<forall>p \<in> set [demo_pos]. plain (pos_ID p) \<and> lease_free ref_redis (srv taken_dnode) (pos_ID p)"
    by (simp add: demo_pos_def lease_free_def taken_view)
  have n: "\<forall>c \<in> set (score (eng_cfg (eng taken_dnode)) [demo_pos]
      (age_seconds (t_age ((\<lambda>_. demo_clock) (calls taken_dnode))) (Timestamp (rq_Env demo_ride)))). c_Score c \<noteq> NaN"
    by (simp add: e demo_engine_def NewEngine_def DefaultConfig_def demo_pos_def score_def Let_def age_seconds_def)
  from redelivery_reserves_second_driver [where rnds = "\<lambda>_ _. Some (replicate 8 0)" and b = "replicate 8 0" and clks = "\<lambda>_. demo_clock",
      OF ref.redis_service_axioms ins.slice_sort_axioms e(2) ride_msg_decodes h p(2,1) taken_search _ c refl f n]
  show ?thesis by (auto simp: r)
qed

end
