(* ===== verification/Processor.thy ===== *)
theory Processor
  imports Consumer Postgres
begin

text \<open>
  \<^verbatim>\<open>cmd/event-processor/main.go\<close>: the consumer that persists events. Its state is the time of the
  last history point of each driver; \<open>ticks\<close> numbers the clock readings, so that \<open>clk (ticks w)\<close>
  is the next one, in nanoseconds.
\<close>

record ('s, 'q) pnode = "('s, 'q) full" +
  lastHistoryTs :: "string \<rightharpoonup> int"
  ticks :: nat

definition err_res :: "string option \<Rightarrow> string hres" where
  "err_res e = (case e of None \<Rightarrow> HOk | Some x \<Rightarrow> HErr x)"

definition handleDispatchCreated ::
  "'q pg \<Rightarrow> message \<Rightarrow> (('s, 'q, 'm) pnode_scheme, string hres) state" where
  "handleDispatchCreated Q msg = (case DecodeDispatchCreated (msg_Value msg) of
       None \<Rightarrow> State_Monad.return HOk
     | Some ev \<Rightarrow> do {
         e \<leftarrow> InsertDispatch Q (dc_DispatchID ev) (dc_RideID ev) (dc_DriverID ev)
               (dc_DistanceM ev) (dc_Score ev) 0 0 (Fin 0);
         State_Monad.return (err_res e) })"

definition handleRideStatus ::
  "'q pg \<Rightarrow> message \<Rightarrow> (('s, 'q, 'm) pnode_scheme, string hres) state" where
  "handleRideStatus Q msg = (case DecodeRideStatus (msg_Value msg) of
       None \<Rightarrow> State_Monad.return HOk
     | Some ev \<Rightarrow> do {
         e \<leftarrow> UpdateRideState Q (rs_RideID ev) (rs_State ev) (rs_DriverID ev) (rs_Reason ev);
         case e of
           Some x \<Rightarrow> State_Monad.return (HErr x)
         | None \<Rightarrow> do {
             let eventID = (if EventID (rs_Env ev) = [] then ''rs-'' @ rs_RideID ev @ ''-'' @ rs_State ev
                            else EventID (rs_Env ev));
             r \<leftarrow> InsertRideEvent Q (rs_RideID ev) (rs_State ev) (rs_DriverID ev) (rs_Reason ev) eventID;
             State_Monad.return (err_res (err_of r)) } })"

definition handleDriverStatus ::
  "'q pg \<Rightarrow> message \<Rightarrow> (('s, 'q, 'm) pnode_scheme, string hres) state" where
  "handleDriverStatus Q msg = (case DecodeDriverStatus (msg_Value msg) of
       None \<Rightarrow> State_Monad.return HOk
     | Some ev \<Rightarrow> do {
         e \<leftarrow> UpdateDriverState Q (ds_DriverID ev) (ds_State ev);
         State_Monad.return (err_res e) })"

definition time_Now :: "(nat \<Rightarrow> int) \<Rightarrow> (('s, 'q, 'm) pnode_scheme, int) state" where
  "time_Now clk = State (\<lambda>w. (clk (ticks w), w\<lparr>ticks := Suc (ticks w)\<rparr>))"

definition handleDriverLocation ::
  "'q pg \<Rightarrow> (nat \<Rightarrow> int) \<Rightarrow> message \<Rightarrow> (('s, 'q, 'm) pnode_scheme, string hres) state" where
  "handleDriverLocation Q clk msg = (case DecodeLocationUpdate (msg_Value msg) of
       None \<Rightarrow> State_Monad.return HOk
     | Some ev \<Rightarrow> do {
         now \<leftarrow> time_Now clk;
         w \<leftarrow> State_Monad.get;
         if (case lastHistoryTs w (lu_DriverID ev) of Some prev \<Rightarrow> now - prev < 5 * 10 ^ 9 | None \<Rightarrow> False)
         then State_Monad.return HOk
         else do {
           State_Monad.update (\<lambda>w. w\<lparr>lastHistoryTs := (lastHistoryTs w)(lu_DriverID ev \<mapsto> now)\<rparr>);
           e \<leftarrow> InsertDriverHistory Q (lu_DriverID ev) now (lu_Latitude ev) (lu_Longitude ev) (lu_Sequence ev);
           State_Monad.return (err_res e) } })"

text \<open>The topics the process subscribes to, each with its handler.\<close>

definition processor_topics ::
  "'q pg \<Rightarrow> (nat \<Rightarrow> int) \<Rightarrow> (string \<times> (message \<Rightarrow> (('s, 'q, 'm) pnode_scheme, string hres) state)) list" where
  "processor_topics Q clk =
     [(TopicDispatchCreated, handleDispatchCreated Q), (TopicRideStatus, handleRideStatus Q),
      (TopicDriverStatus, handleDriverStatus Q), (TopicDriverLocation, handleDriverLocation Q clk)]"

definition processor_consumers :: "string list \<Rightarrow> bool \<Rightarrow> Consumer option list" where
  "processor_consumers brokers dlq =
     map (\<lambda>topic. NewConsumer \<lparr> cc_Brokers = brokers, cc_Topic = topic, cc_Group = ''persist'',
            cc_DLQ = dlq, cc_MaxRetries = 3 \<rparr>)
       [TopicDispatchCreated, TopicRideStatus, TopicDriverStatus, TopicDriverLocation]"

section \<open>Properties\<close>

text \<open>Any database, with a log of the statements it is given.\<close>

definition logged :: "'q pg \<Rightarrow> ('q \<times> sql list) pg" where
  "logged Q = \<lparr> pgExec = \<lambda>st (q, l). (let (r, q') = pgExec Q st q in (r, (q', l @ [st]))),
     pgDriver = \<lambda>i (q, _). pgDriver Q i q, pgRide = \<lambda>i (q, _). pgRide Q i q,
     pgList = \<lambda>u c n (q, _). pgList Q u c n q, pgActive = \<lambda>i (q, _). pgActive Q i q \<rparr>"

lemma logged_Exec:
  "run_state (pgx_Exec (logged Q) st) w =
     (fst (pgExec Q st (fst (db w))), w\<lparr>db := (snd (pgExec Q st (fst (db w))), snd (db w) @ [st])\<rparr>)"
  by (cases "db w") (simp add: pgx_Exec_def logged_def split_beta Let_def)

fun run_all :: "(message \<Rightarrow> (('s, 'q, 'm) pnode_scheme, string hres) state) \<Rightarrow> message list
  \<Rightarrow> (('s, 'q, 'm) pnode_scheme, string hres list) state" where
  "run_all h [] = State_Monad.return []"
| "run_all h (m # ms) = do { r \<leftarrow> h m; rs \<leftarrow> run_all h ms; State_Monad.return (r # rs) }"

text \<open>The times of the history points of a driver among the statements, in order.\<close>

fun points :: "string \<Rightarrow> sql list \<Rightarrow> int list" where
  "points d [] = []"
| "points d (InsHistory i ts lat lng seq # l) = (if i = d then ts # points d l else points d l)"
| "points d (_ # l) = points d l"

lemma points_append [simp]: "points d (a @ b) = points d a @ points d b"
  by (induction d a rule: points.induct) auto

definition spaced :: "int list \<Rightarrow> bool" where
  "spaced ts = sorted_wrt (\<lambda>a b. a + 5 * 10 ^ 9 \<le> b) ts"

text \<open>The history is spaced, and the registry knows the last point of every driver.\<close>

definition history_inv :: "(nat \<Rightarrow> int) \<Rightarrow> ('s, 'q \<times> sql list, 'm) pnode_scheme \<Rightarrow> bool" where
  "history_inv clk w \<longleftrightarrow> (\<forall>d. spaced (points d (snd (db w)))
     \<and> (\<forall>t \<in> set (points d (snd (db w))). \<exists>l. lastHistoryTs w d = Some l \<and> t \<le> l)
     \<and> (\<forall>l. lastHistoryTs w d = Some l \<longrightarrow> l \<le> clk (ticks w)))"

lemma handleDriverLocation_cases:
  fixes w :: "('s, 'q \<times> sql list, 'm) pnode_scheme"
  assumes "run_state (handleDriverLocation (logged Q) clk msg) w = (r, w')"
  obtains (poison) "DecodeLocationUpdate (msg_Value msg) = None" "r = HOk" "w' = w"
  | (skip) ev l where "DecodeLocationUpdate (msg_Value msg) = Some ev" "lastHistoryTs w (lu_DriverID ev) = Some l"
      "clk (ticks w) - l < 5 * 10 ^ 9" "r = HOk" "w' = w\<lparr>ticks := Suc (ticks w)\<rparr>"
  | (insert) ev where "DecodeLocationUpdate (msg_Value msg) = Some ev"
      "\<forall>l. lastHistoryTs w (lu_DriverID ev) = Some l \<longrightarrow> 5 * 10 ^ 9 \<le> clk (ticks w) - l"
      "ticks w' = Suc (ticks w)" "lastHistoryTs w' = (lastHistoryTs w)(lu_DriverID ev \<mapsto> clk (ticks w))"
      "snd (db w') = snd (db w) @ [InsHistory (lu_DriverID ev) (clk (ticks w)) (lu_Latitude ev) (lu_Longitude ev) (lu_Sequence ev)]"
      "bus w' = bus w" "acks w' = acks w"
proof (cases "DecodeLocationUpdate (msg_Value msg)")
  case None
  then show thesis using assms poison by (simp add: handleDriverLocation_def)
next
  case (Some ev)
  show thesis
  proof (cases "\<exists>l. lastHistoryTs w (lu_DriverID ev) = Some l \<and> clk (ticks w) - l < 5 * 10 ^ 9")
    case True
    then show thesis using assms Some skip
      by (auto simp: handleDriverLocation_def time_Now_def State_Monad.get_def)
  next
    case False
    then show thesis using assms Some
      by (intro insert [of ev]) (auto simp: handleDriverLocation_def time_Now_def State_Monad.get_def
          State_Monad.update_def State_Monad.set_def InsertDriverHistory_def logged_Exec split: option.splits)
  qed
qed

lemma spaced_snoc:
  "spaced ts \<Longrightarrow> \<forall>t \<in> set ts. t + 5 * 10 ^ 9 \<le> now \<Longrightarrow> spaced (ts @ [now])"
  by (simp add: spaced_def sorted_wrt_append)

lemma history_inv_step:
  assumes "run_state (handleDriverLocation (logged Q) clk msg) w = (r, w')" and "mono clk" and "history_inv clk w"
  shows "history_inv clk w'"
  using assms(1)
proof (cases rule: handleDriverLocation_cases)
  case poison
  with assms(3) show ?thesis by simp
next
  case (skip ev l)
  have "clk (ticks w) \<le> clk (Suc (ticks w))" using assms(2) by (simp add: monoD)
  with skip assms(3) show ?thesis by (fastforce simp: history_inv_def)
next
  case (insert ev)
  let ?t = "clk (ticks w)"
  have le: "?t \<le> clk (Suc (ticks w))" using assms(2) by (simp add: monoD)
  show ?thesis unfolding history_inv_def
  proof (intro allI)
    fix d
    have old: "spaced (points d (snd (db w)))" "\<forall>t \<in> set (points d (snd (db w))). \<exists>l. lastHistoryTs w d = Some l \<and> t \<le> l"
      "\<forall>l. lastHistoryTs w d = Some l \<longrightarrow> l \<le> ?t"
      using assms(3) by (auto simp: history_inv_def)
    show "spaced (points d (snd (db w')))
        \<and> (\<forall>t \<in> set (points d (snd (db w'))). \<exists>l. lastHistoryTs w' d = Some l \<and> t \<le> l)
        \<and> (\<forall>l. lastHistoryTs w' d = Some l \<longrightarrow> l \<le> clk (ticks w'))"
    proof (cases "d = lu_DriverID ev")
      case True
      have "\<forall>t \<in> set (points d (snd (db w))). t + 5 * 10 ^ 9 \<le> ?t" using old(2) insert(2) True by fastforce
      with spaced_snoc [OF old(1) this] old(2) insert le True show ?thesis by fastforce
    next
      case False
      with old insert le show ?thesis by fastforce
    qed
  qed
qed

lemma history_inv_all:
  assumes "mono clk" and "history_inv clk w"
  shows "history_inv clk (snd (run_state (run_all (handleDriverLocation (logged Q) clk) ms) w))"
  using assms(2)
proof (induction ms arbitrary: w)
  case (Cons m ms)
  obtain r w1 where r: "run_state (handleDriverLocation (logged Q) clk m) w = (r, w1)" by fastforce
  from history_inv_step [OF this assms(1) Cons.prems] have "history_inv clk w1" .
  from Cons.IH [OF this] r show ?case by (simp add: split_beta)
qed simp

text \<open>
  C28. Downsampling. Whatever location messages arrive, in whatever order, and however the database
  answers, the history points written for one driver are at least five seconds apart, as long as
  the clock does not run backwards.
\<close>

theorem history_downsampled:
  assumes "mono clk" and "lastHistoryTs w = Map.empty" and "snd (db w) = []"
  shows "spaced (points d (snd (db (snd (run_state (run_all (handleDriverLocation (logged Q) clk) ms) w)))))"
proof -
  have "history_inv clk w" using assms(2,3) by (simp add: history_inv_def spaced_def)
  from history_inv_all [OF assms(1) this] show ?thesis by (simp add: history_inv_def)
qed

definition demo_pnode :: "(unit, unit \<times> sql list) pnode" where
  "demo_pnode = \<lparr> srv = (), fates = [], bus = [], acks = [], db = ((), []), lastHistoryTs = Map.empty, ticks = 0 \<rparr>"

definition ok_pg :: "unit pg" where
  "ok_pg = \<lparr> pgExec = \<lambda>_ _. (Inr 1, ()), pgDriver = \<lambda>_ _. Inr None, pgRide = \<lambda>_ _. Inr None,
     pgList = \<lambda>_ _ _ _. Inr [], pgActive = \<lambda>_ _. Inr 0 \<rparr>"

definition failing_pg :: "unit pg" where
  "failing_pg = ok_pg\<lparr>pgExec := \<lambda>_ _. (Inl ''down'', ())\<rparr>"

definition loc_msg :: message where
  "loc_msg = \<lparr> msg_Topic = TopicDriverLocation, msg_Key = ''d1'', msg_Value = JObj [(''driver_id'', JStr ''d1'')], msg_Headers = [] \<rparr>"

lemma loc_msg_decodes: "\<exists>ev. DecodeLocationUpdate (msg_Value loc_msg) = Some ev \<and> lu_DriverID ev = ''d1''
    \<and> lu_Latitude ev = Fin 0 \<and> lu_Longitude ev = Fin 0 \<and> lu_Sequence ev = 0"
  by (simp add: loc_msg_def DecodeLocationUpdate_def json_simps)

theorem history_downsampled_witness:
  "spaced (points ''d1'' (snd (db (snd (run_state (run_all (handleDriverLocation (logged ok_pg) (\<lambda>n. 10 ^ 9 * int n))
     [loc_msg, loc_msg]) demo_pnode)))))"
proof -
  have "mono (\<lambda>n. 10 ^ 9 * int n)" by (simp add: mono_def)
  from history_downsampled [OF this, of demo_pnode "''d1''" ok_pg "[loc_msg, loc_msg]"] show ?thesis
    by (simp add: demo_pnode_def del: run_all.simps)
qed

text \<open>
  But a failed insert is not retried. The handler records the time of the point before the
  insert, so when the database refuses it, the consumer's next attempt, which comes within five
  seconds, is taken for a point too early and succeeds without writing anything: the message
  is done after one statement that failed, the point is lost and not dead-lettered.
\<close>

theorem failed_history_point_lost:
  assumes "\<forall>a. \<not> ended a" and "1 \<le> maxRetries" and "DecodeLocationUpdate (msg_Value msg) = Some ev"
    and "lastHistoryTs w (lu_DriverID ev) = None" and "clk (Suc (ticks w)) - clk (ticks w) < 5 * 10 ^ 9"
    and "fst (pgExec Q (InsHistory (lu_DriverID ev) (clk (ticks w)) (lu_Latitude ev) (lu_Longitude ev) (lu_Sequence ev)) (fst (db w))) = Inl x"
  shows "\<exists>w'. run_state (process (handleDriverLocation (logged Q) clk) errText ended topic dlq maxRetries msg) w = (Done, w')
    \<and> bus w' = bus w \<and> ticks w' = ticks w + 2
    \<and> snd (db w') = snd (db w) @ [InsHistory (lu_DriverID ev) (clk (ticks w)) (lu_Latitude ev) (lu_Longitude ev) (lu_Sequence ev)]"
proof -
  let ?h = "handleDriverLocation (logged Q) clk msg"
  obtain r1 w1 where r1: "run_state ?h w = (r1, w1)" by fastforce
  then have e1: "r1 = HErr x"
    using assms(3,4,6) by (auto simp: handleDriverLocation_def time_Now_def State_Monad.get_def State_Monad.update_def
        State_Monad.set_def InsertDriverHistory_def logged_Exec err_of_def err_res_def)
  have c1: "ticks w1 = Suc (ticks w)" "lastHistoryTs w1 (lu_DriverID ev) = Some (clk (ticks w))" "bus w1 = bus w"
    "snd (db w1) = snd (db w) @ [InsHistory (lu_DriverID ev) (clk (ticks w)) (lu_Latitude ev) (lu_Longitude ev) (lu_Sequence ev)]"
    using r1 assms(3,4) by (cases rule: handleDriverLocation_cases [OF r1]; auto)+
  obtain r2 w2 where r2: "run_state ?h w1 = (r2, w2)" by fastforce
  have c2: "r2 = HOk" "w2 = w1\<lparr>ticks := Suc (ticks w1)\<rparr>"
    using assms(3,5) c1 by (cases rule: handleDriverLocation_cases [OF r2]; auto)+
  have "is_err (outcome ?h 0 w)" "outcome ?h 1 w = HOk"
    by (simp_all add: outcome_def r1 e1 r2 c2(1) is_err_def)
  then have "run_state (process (handleDriverLocation (logged Q) clk) errText ended topic dlq maxRetries msg) w
      = (Done, after_runs ?h (Suc 1) w)"
    using process_success [OF assms(1,2), of "handleDriverLocation (logged Q) clk" msg w errText topic dlq] by auto
  with c1 c2 show ?thesis by (simp add: r1 r2)
qed

theorem failed_history_point_lost_witness:
  "\<exists>w'. run_state (process (handleDriverLocation (logged failing_pg) (\<lambda>n. 10 ^ 9 * int n)) (\<lambda>e. e) (\<lambda>_. False)
       TopicDriverLocation True 3 loc_msg) demo_pnode = (Done, w')
     \<and> bus w' = [] \<and> snd (db w') = [InsHistory ''d1'' 0 (Fin 0) (Fin 0) 0]"
proof -
  obtain ev where ev: "DecodeLocationUpdate (msg_Value loc_msg) = Some ev" "lu_DriverID ev = ''d1''"
    "lu_Latitude ev = Fin 0" "lu_Longitude ev = Fin 0" "lu_Sequence ev = 0"
    using loc_msg_decodes by blast
  from failed_history_point_lost [OF _ _ ev(1), of "\<lambda>_. False" 3 demo_pnode "\<lambda>n. 10 ^ 9 * int n" failing_pg "''down''"
      "\<lambda>e. e" TopicDriverLocation True] ev(2-)
  show ?thesis by (auto simp: demo_pnode_def failing_pg_def)
qed

end
