(* ===== verification/Hub.thy ===== *)
theory Hub
  imports Events "HOL-Library.Sublist"
begin

text \<open>
  \<^verbatim>\<open>internal/gateway/hub.go\<close>: the WebSocket hub. A client is known by a number (the pointer of the
  sources); the hub's state has the set of registered clients, the subscriptions, the buffered
  broadcast channel and, for each client, its user and role, its buffered send channel, whether
  that channel is closed, and the messages its write pump has put on the wire. A send on a closed
  channel and the second close of a channel are run-time panics. One hub step is one case of the
  \<^verbatim>\<open>select\<close> in \<^verbatim>\<open>Run\<close>, one iteration of a write pump, or one call of a public method. The broadcast
  case is one step, as the others are: in the sources the write pumps, and \<^verbatim>\<open>SetSubs\<close> with its own lock, may run
  between two clients of one broadcast, so that a subscription may change and a full send channel may drain in
  the middle of the loop; those interleavings are not modelled.
\<close>

record wsMessage =
  ws_Type :: string
  ws_Payload :: payload

record wclient =
  wc_user :: string
  wc_role :: string
  wc_send :: "wsMessage list"
  wc_closed :: bool
  wc_wire :: "wsMessage list"

record Hub =
  hub_clients :: "nat set"
  hub_subs :: "string \<rightharpoonup> string set"
  hub_broadcast :: "wsMessage list"
  hub_conns :: "nat \<rightharpoonup> wclient"
  hub_panic :: bool

definition NewHub :: Hub where
  "NewHub = \<lparr> hub_clients = {}, hub_subs = Map.empty, hub_broadcast = [], hub_conns = Map.empty, hub_panic = False \<rparr>"

definition send_cap :: nat where "send_cap = 256"

definition broadcast_cap :: nat where "broadcast_cap = 1024"

definition subscribed :: "Hub \<Rightarrow> string \<Rightarrow> string \<Rightarrow> bool" where
  "subscribed h user eventType = (case hub_subs h user of
       None \<Rightarrow> True
     | Some S \<Rightarrow> S = {} \<or> eventType \<in> S)"

definition SetSubs :: "string \<Rightarrow> string list \<Rightarrow> Hub \<Rightarrow> Hub" where
  "SetSubs user types h = h\<lparr>hub_subs := (hub_subs h)(user \<mapsto> set types)\<rparr>"

text \<open>\<open>None\<close> as payload is a value \<^verbatim>\<open>json.Marshal\<close> refuses.\<close>

definition Broadcast :: "string \<Rightarrow> payload option \<Rightarrow> Hub \<Rightarrow> Hub" where
  "Broadcast eventType v h = (case v of
       None \<Rightarrow> h
     | Some b \<Rightarrow>
         if length (hub_broadcast h) < broadcast_cap
         then h\<lparr>hub_broadcast := hub_broadcast h @ [\<lparr> ws_Type = eventType, ws_Payload = b \<rparr>]\<rparr> else h)"

definition Connections :: "Hub \<Rightarrow> nat" where
  "Connections h = card (hub_clients h)"

text \<open>\<^verbatim>\<open>ServeWS\<close> after a successful upgrade: a fresh client, and the register case of \<^verbatim>\<open>Run\<close> that
  takes it.\<close>

definition ServeWS :: "nat \<Rightarrow> string \<Rightarrow> string \<Rightarrow> Hub \<Rightarrow> Hub" where
  "ServeWS i user role h = h\<lparr>
     hub_conns := (hub_conns h)(i \<mapsto> \<lparr> wc_user = user, wc_role = role, wc_send = [], wc_closed = False, wc_wire = [] \<rparr>),
     hub_clients := insert i (hub_clients h)\<rparr>"

definition close_send :: "nat \<Rightarrow> Hub \<Rightarrow> Hub" where
  "close_send i h = (case hub_conns h i of
       None \<Rightarrow> h
     | Some c \<Rightarrow> if wc_closed c then h\<lparr>hub_panic := True\<rparr>
                 else h\<lparr>hub_conns := (hub_conns h)(i \<mapsto> c\<lparr>wc_closed := True\<rparr>)\<rparr>)"

definition hub_unregister :: "nat \<Rightarrow> Hub \<Rightarrow> Hub" where
  "hub_unregister i h = (if i \<in> hub_clients h
     then close_send i (h\<lparr>hub_clients := hub_clients h - {i}\<rparr>) else h)"

definition deliver :: "wsMessage \<Rightarrow> nat \<Rightarrow> Hub \<Rightarrow> Hub" where
  "deliver msg i h = (case hub_conns h i of
       None \<Rightarrow> h
     | Some c \<Rightarrow>
         if \<not> subscribed h (wc_user c) (ws_Type msg) then h
         else if wc_closed c then h\<lparr>hub_panic := True\<rparr>
         else if length (wc_send c) < send_cap
         then h\<lparr>hub_conns := (hub_conns h)(i \<mapsto> c\<lparr>wc_send := wc_send c @ [msg]\<rparr>)\<rparr>
         else h)"

text \<open>The broadcast case: the loop visits the clients in some order \<open>ord\<close>.\<close>

definition hub_fanout :: "nat list \<Rightarrow> Hub \<Rightarrow> Hub" where
  "hub_fanout ord h = (case hub_broadcast h of
       [] \<Rightarrow> h
     | msg # rest \<Rightarrow> fold (deliver msg) ord (h\<lparr>hub_broadcast := rest\<rparr>))"

text \<open>One iteration of \<^verbatim>\<open>writePump\<close> that takes a message and writes it.\<close>

definition write_one :: "nat \<Rightarrow> Hub \<Rightarrow> Hub" where
  "write_one i h = (case hub_conns h i of
       None \<Rightarrow> h
     | Some c \<Rightarrow> (case wc_send c of
           [] \<Rightarrow> h
         | m # ms \<Rightarrow> h\<lparr>hub_conns := (hub_conns h)(i \<mapsto> c\<lparr>wc_send := ms, wc_wire := wc_wire c @ [m]\<rparr>)\<rparr>))"

section \<open>Steps\<close>

inductive hub_step :: "Hub \<Rightarrow> Hub \<Rightarrow> bool" where
  connect: "hub_conns h i = None \<Longrightarrow> hub_step h (ServeWS i user role h)"
| leave: "hub_step h (hub_unregister i h)"
| publish: "hub_step h (Broadcast eventType v h)"
| fanout: "distinct ord \<Longrightarrow> set ord = hub_clients h \<Longrightarrow> hub_step h (hub_fanout ord h)"
| subscribe: "hub_step h (SetSubs user types h)"
| emit: "hub_step h (write_one i h)"

text \<open>
  The reference for the fan-out: the channel of every client of \<open>S\<close> gets the message, if the client
  is subscribed and its channel has room.
\<close>

definition fan :: "wsMessage \<Rightarrow> Hub \<Rightarrow> nat set \<Rightarrow> nat \<Rightarrow> wclient option" where
  "fan msg h S i = (case hub_conns h i of
       None \<Rightarrow> None
     | Some c \<Rightarrow> Some (if i \<in> S \<and> subscribed h (wc_user c) (ws_Type msg) \<and> length (wc_send c) < send_cap
         then c\<lparr>wc_send := wc_send c @ [msg]\<rparr> else c))"

definition fanout_ref :: "wsMessage \<Rightarrow> Hub \<Rightarrow> Hub" where
  "fanout_ref msg h = h\<lparr>hub_conns := fan msg h (hub_clients h)\<rparr>"

text \<open>Registered clients have open channels, and the channels are within their capacities.\<close>

definition hub_inv :: "Hub \<Rightarrow> bool" where
  "hub_inv h \<longleftrightarrow> \<not> hub_panic h \<and> length (hub_broadcast h) \<le> broadcast_cap
     \<and> (\<forall>i. i \<in> hub_clients h \<longleftrightarrow> (\<exists>c. hub_conns h i = Some c \<and> \<not> wc_closed c))
     \<and> (\<forall>i c. hub_conns h i = Some c \<longrightarrow> length (wc_send c) \<le> send_cap)"

lemma fold_deliver:
  assumes "distinct ord" and "\<forall>i \<in> set ord. \<exists>c. hub_conns h i = Some c \<and> \<not> wc_closed c"
  shows "fold (deliver msg) ord h = h\<lparr>hub_conns := fan msg h (set ord)\<rparr>"
  using assms
proof (induction ord arbitrary: h)
  case Nil
  have "fan msg h {} = hub_conns h" by (rule ext) (simp add: fan_def split: option.splits)
  then show ?case by simp
next
  case (Cons i ord)
  obtain c where c: "hub_conns h i = Some c" "\<not> wc_closed c" using Cons.prems(2) by auto
  let ?h = "deliver msg i h"
  have h': "?h = (if subscribed h (wc_user c) (ws_Type msg) \<and> length (wc_send c) < send_cap
      then h\<lparr>hub_conns := (hub_conns h)(i \<mapsto> c\<lparr>wc_send := wc_send c @ [msg]\<rparr>)\<rparr> else h)"
    using c by (simp add: deliver_def)
  then have sub: "subscribed ?h = subscribed h" by (intro ext) (simp add: subscribed_def)
  have "fold (deliver msg) ord ?h = ?h\<lparr>hub_conns := fan msg ?h (set ord)\<rparr>"
    by (rule Cons.IH) (use Cons.prems h' in auto)
  also have "fan msg ?h (set ord) = fan msg h (set (i # ord))"
  proof
    fix j
    show "fan msg ?h (set ord) j = fan msg h (set (i # ord)) j"
    proof (cases "j = i")
      case True
      then show ?thesis using Cons.prems(1) c by (simp add: fan_def sub) (simp add: h')
    next
      case False
      then have "hub_conns ?h j = hub_conns h j" by (simp add: h')
      with False show ?thesis by (simp add: fan_def sub split: option.splits)
    qed
  qed
  also have "?h\<lparr>hub_conns := fan msg h (set (i # ord))\<rparr> = h\<lparr>hub_conns := fan msg h (set (i # ord))\<rparr>"
    by (simp add: h')
  finally show ?case by simp
qed

lemma fanout_is_ref:
  assumes "hub_inv h" and "distinct ord" and "set ord = hub_clients h" and "hub_broadcast h = msg # rest"
  shows "hub_fanout ord h = fanout_ref msg (h\<lparr>hub_broadcast := rest\<rparr>)"
proof -
  have "\<forall>i \<in> set ord. \<exists>c. hub_conns (h\<lparr>hub_broadcast := rest\<rparr>) i = Some c \<and> \<not> wc_closed c"
    using assms(1,3) by (auto simp: hub_inv_def)
  from fold_deliver [OF assms(2) this, of msg] show ?thesis
    by (simp add: hub_fanout_def assms(3,4) fanout_ref_def)
qed

lemma fanout_ref_simps:
  "hub_conns (fanout_ref msg h) i = fan msg h (hub_clients h) i"
  "hub_clients (fanout_ref msg h) = hub_clients h" "hub_panic (fanout_ref msg h) = hub_panic h"
  "hub_broadcast (fanout_ref msg h) = hub_broadcast h"
  by (simp_all add: fanout_ref_def)

lemma hub_fanout_nil: "hub_broadcast h = [] \<Longrightarrow> hub_fanout ord h = h"
  by (simp add: hub_fanout_def)

lemma hub_inv_step: "hub_step h h' \<Longrightarrow> hub_inv h \<Longrightarrow> hub_inv h'"
proof (induction rule: hub_step.induct)
  case (connect h i user role)
  then show ?case by (auto simp: hub_inv_def ServeWS_def)
next
  case (leave h i)
  show ?case
  proof (cases "i \<in> hub_clients h")
    case True
    then obtain c where "hub_conns h i = Some c" "\<not> wc_closed c" using leave by (auto simp: hub_inv_def)
    with leave True show ?thesis by (auto simp: hub_inv_def hub_unregister_def close_send_def)
  qed (use leave in \<open>simp add: hub_unregister_def\<close>)
next
  case (publish h eventType v)
  then show ?case by (auto simp: hub_inv_def Broadcast_def split: option.splits)
next
  case (fanout ord h)
  show ?case
  proof (cases "hub_broadcast h")
    case (Cons msg rest)
    have "hub_inv (h\<lparr>hub_broadcast := rest\<rparr>)" using fanout Cons by (simp add: hub_inv_def)
    then show ?thesis
      unfolding fanout_is_ref [OF fanout(3,1,2) Cons] hub_inv_def
      by (auto simp: fanout_ref_simps fan_def split: option.splits if_splits)
  qed (use fanout in \<open>simp add: hub_fanout_nil\<close>)
next
  case (subscribe h user types)
  then show ?case by (simp add: hub_inv_def SetSubs_def)
next
  case (emit h i)
  then show ?case by (auto simp: hub_inv_def write_one_def split: option.splits list.splits) (metis Suc_leD length_Cons)
qed

lemma hub_reach_inv: "hub_step\<^sup>*\<^sup>* NewHub h \<Longrightarrow> hub_inv h"
proof (induction rule: rtranclp_induct)
  case base
  show ?case by (simp add: hub_inv_def NewHub_def)
qed (rule hub_inv_step)

section \<open>Properties\<close>

text \<open>
  C22. The hub is safe in every reachable state, whatever the order in which clients come, go and
  subscribe and messages are published, fanned out and written: it never panics (no send on a
  closed channel, no channel closed twice), a client is registered exactly while its channel is
  open, and no channel exceeds its capacity (256 for a client, 1024 for the hub).
\<close>

theorem hub_safe:
  assumes "hub_step\<^sup>*\<^sup>* NewHub h"
  shows "\<not> hub_panic h \<and> length (hub_broadcast h) \<le> 1024
    \<and> (\<forall>i. i \<in> hub_clients h \<longleftrightarrow> (\<exists>c. hub_conns h i = Some c \<and> \<not> wc_closed c))
    \<and> (\<forall>i c. hub_conns h i = Some c \<longrightarrow> length (wc_send c) \<le> 256)"
  using hub_reach_inv [OF assms] by (auto simp: hub_inv_def broadcast_cap_def send_cap_def)

definition demo_hub :: Hub where
  "demo_hub = Broadcast ''ride.matched'' (Some JBad) (ServeWS 2 ''u2'' ''USER'' (ServeWS 1 ''u1'' ''USER'' NewHub))"

lemma demo_hub_reach: "hub_step\<^sup>*\<^sup>* NewHub demo_hub"
proof -
  have a: "hub_step NewHub (ServeWS 1 ''u1'' ''USER'' NewHub)" by (rule hub_step.connect) (simp add: NewHub_def)
  have b: "hub_step (ServeWS 1 ''u1'' ''USER'' NewHub) (ServeWS 2 ''u2'' ''USER'' (ServeWS 1 ''u1'' ''USER'' NewHub))"
    by (rule hub_step.connect) (simp add: NewHub_def ServeWS_def)
  have c: "hub_step (ServeWS 2 ''u2'' ''USER'' (ServeWS 1 ''u1'' ''USER'' NewHub)) demo_hub"
    unfolding demo_hub_def by (rule hub_step.publish)
  show ?thesis by (rule rtranclp.rtrancl_into_rtrancl [where r = hub_step, OF rtranclp.rtrancl_into_rtrancl
        [where r = hub_step, OF r_into_rtranclp [where r = hub_step, OF a] b] c])
qed

theorem hub_safe_witness: "\<not> hub_panic demo_hub \<and> length (hub_broadcast demo_hub) \<le> 1024"
  using hub_safe [OF demo_hub_reach] by simp

text \<open>
  C23. The fan-out does not depend on the order in which the hub's loop visits its clients (Go leaves
  the order of a map open): in every reachable state it is the same as giving the message to all
  registered clients at once. And the filter looks at the subscriptions of the user only, never
  at the role: without subscriptions every connected client with room gets every message.
\<close>

theorem fanout_order_irrelevant:
  assumes "hub_step\<^sup>*\<^sup>* NewHub h" and "hub_broadcast h = msg # rest"
    and "distinct ord" and "set ord = hub_clients h"
  shows "hub_fanout ord h = fanout_ref msg (h\<lparr>hub_broadcast := rest\<rparr>)
    \<and> (hub_subs h = Map.empty \<longrightarrow> (\<forall>i \<in> hub_clients h. \<forall>c. hub_conns h i = Some c \<and> length (wc_send c) < 256 \<longrightarrow>
        hub_conns (hub_fanout ord h) i = Some (c\<lparr>wc_send := wc_send c @ [msg]\<rparr>)))"
proof -
  have eq: "hub_fanout ord h = fanout_ref msg (h\<lparr>hub_broadcast := rest\<rparr>)"
    by (rule fanout_is_ref [OF hub_reach_inv [OF assms(1)] assms(3,4,2)])
  moreover have "hub_conns (fanout_ref msg (h\<lparr>hub_broadcast := rest\<rparr>)) i = Some (c\<lparr>wc_send := wc_send c @ [msg]\<rparr>)"
    if "hub_subs h = Map.empty" "i \<in> hub_clients h" "hub_conns h i = Some c" "length (wc_send c) < 256" for i c
    using that by (simp add: fanout_ref_simps fan_def subscribed_def send_cap_def)
  ultimately show ?thesis by simp
qed

theorem fanout_order_irrelevant_witness:
  "hub_fanout [1, 2] demo_hub = hub_fanout [2, 1] demo_hub"
proof -
  have b: "hub_broadcast demo_hub = [\<lparr> ws_Type = ''ride.matched'', ws_Payload = JBad \<rparr>]"
    and s: "set [1, 2] = hub_clients demo_hub" "set [2, 1] = hub_clients demo_hub"
    by (auto simp: demo_hub_def Broadcast_def ServeWS_def NewHub_def broadcast_cap_def)
  from fanout_order_irrelevant [OF demo_hub_reach b _ s(1)] fanout_order_irrelevant [OF demo_hub_reach b _ s(2)]
  show ?thesis by simp
qed

end
