(* ===== verification/Rate.thy ===== *)
theory Rate
  imports Position
begin

text \<open>
  The rate limiter: \<open>RateAllow\<close> of \<^verbatim>\<open>internal/redis/store.go\<close> refines a token bucket, and a bucket
  bounds how many requests it lets through.
\<close>

section \<open>The bucket on the server\<close>

text \<open>A bucket not used for two minutes is forgotten; the next one starts full.\<close>

definition bucket_wait :: "nat \<Rightarrow> bucket \<Rightarrow> bucket" where
  "bucket_wait d b = (if d < 120000 then b else None)"

text \<open>The server's hash at \<open>k\<close> represents the bucket, with its full time to live since the last use.\<close>

definition bucket_rep :: "'s redis \<Rightarrow> 's \<Rightarrow> string \<Rightarrow> int \<Rightarrow> bucket \<Rightarrow> bool" where
  "bucket_rep R st k cap b \<longleftrightarrow> bucket_ok cap b \<and> bucket_is R st k b \<and> (b \<noteq> None \<longrightarrow> pttl R st k = Some 120000)"

lemma bucket_ok_wait: "bucket_ok cap b \<Longrightarrow> bucket_ok cap (bucket_wait d b)"
  by (simp add: bucket_wait_def bucket_ok_def)

lemma bucket_rep_wait:
  assumes "redis_service R" and "bucket_rep R st k cap b"
  shows "bucket_is R (elapse R d st) k (bucket_wait d b)"
proof (cases b)
  case None
  then have "view R st k = None" using assms(2) by (simp add: bucket_rep_def bucket_is_def)
  then show ?thesis
    using None redis_service.pttl_dead [OF assms(1)]
    by (simp add: bucket_is_def bucket_wait_def redis_service.elapse_view [OF assms(1)])
next
  case (Some p)
  then show ?thesis
    using assms(2)
    by (auto simp: bucket_rep_def bucket_is_def bucket_wait_def redis_service.elapse_view [OF assms(1)]
        split: prod.splits)
qed

text \<open>One request for one token: the outcome in terms of the tokens the script computes.\<close>

lemma RateAllow_take:
  assumes "redis_service R" and "fates w = []" and "bucket_is R (srv w) (RateLimitKey scope i) b"
    and "bucket_ok cap b" and "1 \<le> cap" and "cap \<le> 2 ^ 53" and "0 \<le> refill" and "refill \<le> 2 ^ 53"
    and "0 \<le> now" and "now \<le> 2 ^ 53" and "T = bucket_tokens cap refill now b"
  obtains w' where
    "run_state (RateAllow R now scope i cap (Fin refill) 1) w = (Inr (1 \<le> T), w')"
    "bucket_rep R (srv w') (RateLimitKey scope i) cap (Some (if 1 \<le> T then T - 1 else T, now))"
    "fates w' = []" "\<And>k. k \<noteq> RateLimitKey scope i \<Longrightarrow> view R (srv w') k = view R (srv w) k"
proof -
  let ?k = "RateLimitKey scope i"
  let ?r = "tokenBucketScript R ?k (Fin (of_int cap)) (Fin refill) (Fin (of_int now)) (Fin 1) 120000 (srv w)"
  have one: "round53 1 = 1" by (rule round53_id) simp
  have i: "lua_int cap = Fin (of_int cap)" "lua_int now = Fin (of_int now)" "lua_int 1 = Fin 1"
    using assms(5,6,9,10) by (simp_all add: lua_int_def round53_id one)
  note b = redis_service.bucket_step [OF assms(1,3) _ assms(4-10), where ttl = 120000, simplified, folded assms(11)]
  have ok: "bucket_ok cap (Some (if 1 \<le> T then T - 1 else T, now))"
    using bucket_tokens_range [OF assms(4-7), of now, folded assms(11)] is_dbl_minus_1 [of T] assms(6,9,10)
    by (auto simp: bucket_ok_def)
  have "run_state (RateAllow R now scope i cap (Fin refill) 1) w = (Inr (1 \<le> T), w\<lparr>srv := snd ?r\<rparr>)"
    using assms(2) b(1) by (simp add: RateAllow_def i)
  with b(2-4) assms(2) ok show thesis
    by (intro that [of "w\<lparr>srv := snd ?r\<rparr>"]) (auto simp: bucket_rep_def)
qed

text \<open>The same after \<open>d\<close> milliseconds, against the bucket of exact arithmetic.\<close>

lemma RateAllow_after:
  assumes "redis_service R" and "fates w = []" and "bucket_rep R (srv w) (RateLimitKey scope i) cap b"
    and "1 \<le> cap" and "cap \<le> 2 ^ 53" and "0 \<le> refill" and "refill \<le> 2 ^ 53" and "0 \<le> now" and "now \<le> 2 ^ 53"
  obtains T w' where
    "run_state (RateAllow R now scope i cap (Fin refill) 1) (w\<lparr>srv := elapse R d (srv w)\<rparr>) = (Inr (1 \<le> T), w')"
    "\<bar>T - bucket_refill cap refill now (bucket_wait d b)\<bar> \<le> 4 * of_int cap * dbl_eps"
    "bucket_rep R (srv w') (RateLimitKey scope i) cap (Some (if 1 \<le> T then T - 1 else T, now))" "fates w' = []"
    "\<And>k. k \<noteq> RateLimitKey scope i \<Longrightarrow> view R (srv w') k = view R (elapse R d (srv w)) k"
proof -
  let ?w = "w\<lparr>srv := elapse R d (srv w)\<rparr>"
  let ?T = "bucket_tokens cap refill now (bucket_wait d b)"
  have b: "bucket_is R (srv ?w) (RateLimitKey scope i) (bucket_wait d b)" and f: "fates ?w = []"
    using bucket_rep_wait [OF assms(1,3)] assms(2) by simp_all
  have ok: "bucket_ok cap (bucket_wait d b)" using assms(3) by (simp add: bucket_rep_def bucket_ok_wait)
  obtain w' where w':
    "run_state (RateAllow R now scope i cap (Fin refill) 1) ?w = (Inr (1 \<le> ?T), w')"
    "bucket_rep R (srv w') (RateLimitKey scope i) cap (Some (if 1 \<le> ?T then ?T - 1 else ?T, now))" "fates w' = []"
    "\<And>k. k \<noteq> RateLimitKey scope i \<Longrightarrow> view R (srv w') k = view R (srv ?w) k"
    by (rule RateAllow_take [OF assms(1) f b ok assms(4-9) refl]) (rule that)
  show thesis
    by (rule that [OF w'(1) bucket_tokens_err [OF ok assms(4,6)] w'(2,3)]) (use w'(4) in simp)
qed

section \<open>Refinement\<close>

text \<open>
  C14. The rate limiter of \<open>RateAllow\<close> refines a token bucket, up to the rounding of Lua's doubles.
  When the hash on the server represents a bucket and \<open>d\<close> milliseconds pass before the next request
  for one token, there is a number of tokens \<open>T\<close> within \<open>4 * cap / 2 ^ 53\<close> of the content of the bucket
  in exact arithmetic (refilled at \<open>refill\<close> tokens per second since its last use, up to the capacity;
  full when it was not used for two minutes) such that the request is let through exactly when \<open>T\<close>
  is at least one, and the hash then represents the bucket of \<open>T\<close> tokens, less exactly the one
  taken, at the time of the request. No other key of the server differs from what the wait alone
  left. The bound is not zero: the sum, the product and the quotient are rounded, so a bucket that
  holds one token up to the rounding may refuse. The capacity is positive, it, the refill rate and
  the time are at most \<open>2 ^ 53\<close>, and the server answers.
\<close>

theorem RateAllow_refines_bucket:
  assumes "redis_service R" and "fates w = []" and "bucket_rep R (srv w) (RateLimitKey scope i) cap b"
    and "1 \<le> cap" and "cap \<le> 2 ^ 53" and "0 \<le> refill" and "refill \<le> 2 ^ 53" and "0 \<le> now" and "now \<le> 2 ^ 53"
  shows "\<exists>T w'. run_state (RateAllow R now scope i cap (Fin refill) 1) (w\<lparr>srv := elapse R d (srv w)\<rparr>) = (Inr (1 \<le> T), w')
    \<and> \<bar>T - bucket_refill cap refill now (bucket_wait d b)\<bar> \<le> 4 * of_int cap / 2 ^ 53
    \<and> bucket_rep R (srv w') (RateLimitKey scope i) cap (Some (if 1 \<le> T then T - 1 else T, now))
    \<and> (\<forall>k. k \<noteq> RateLimitKey scope i \<longrightarrow> view R (srv w') k = view R (elapse R d (srv w)) k)"
proof (rule RateAllow_after [OF assms, where d = d], goal_cases)
  case (1 T w')
  then have "\<bar>T - bucket_refill cap refill now (bucket_wait d b)\<bar> \<le> 4 * of_int cap / 2 ^ 53"
    by (simp add: dbl_eps_def)
  with 1(1,3,5) show ?case by blast
qed

text \<open>The empty server: the first request of a client is let through, for any time since then.\<close>

definition fresh_world :: "ref world" where
  "fresh_world = \<lparr> srv = Map.empty, fates = [] \<rparr>"

lemma fresh_world_simps [simp]:
  "fates fresh_world = []" "ref_view (srv fresh_world) k = None"
  by (simp_all add: fresh_world_def ref_view_def ref_live_def)

text \<open>A bucket that held half a token at 500 ms, seen at 1250 ms: a request is let through.\<close>

definition used_world :: "ref world" where
  "used_world = \<lparr> srv = [RateLimitKey ''ip'' ''10.0.0.1'' \<mapsto>
       (VHash [(''tokens'', BFloat (Fin (1 / 2))), (''ts'', BFloat (Fin 500))], Some 120000)], fates = [] \<rparr>"

lemma is_dbl_half: "is_dbl (1 / 2)"
  unfolding is_dbl_def by (intro exI [of _ 1] exI [of _ "- 1"]) (simp add: powr_minus)

theorem RateAllow_refines_bucket_witness:
  "(\<exists>w'. run_state (RateAllow ref_redis 1250 ''ip'' ''10.0.0.1'' 60 (Fin 1) 1)
      (used_world\<lparr>srv := elapse ref_redis 750 (srv used_world)\<rparr>) = (Inr True, w'))"
proof -
  have "bucket_rep ref_redis (srv used_world) (RateLimitKey ''ip'' ''10.0.0.1'') 60 (Some (1 / 2, 500))"
    by (simp add: bucket_rep_def bucket_is_def bucket_ok_def is_dbl_half used_world_def ref_view_def ref_live_def ref_pttl_def)
  from RateAllow_refines_bucket [OF ref.redis_service_axioms _ this, of 1 1250 750]
  obtain T :: real and w' where "run_state (RateAllow ref_redis 1250 ''ip'' ''10.0.0.1'' 60 (Fin 1) 1)
      (used_world\<lparr>srv := elapse ref_redis 750 (srv used_world)\<rparr>) = (Inr (1 \<le> T), w')"
    "\<bar>T - 5 / 4\<bar> \<le> 240 / 2 ^ 53"
    by (auto simp: used_world_def bucket_wait_def bucket_refill_def)
  moreover from this(2) have "1 \<le> T" by (simp add: abs_if split: if_splits)
  ultimately show ?thesis by simp
qed

section \<open>How much a bucket lets through\<close>

text \<open>
  A sequence of requests for one token, each \<open>d\<close> milliseconds after the one before, of the
  wall clock and of the server alike.
\<close>

primrec rate_run :: "'s redis \<Rightarrow> string \<Rightarrow> string \<Rightarrow> int \<Rightarrow> real \<Rightarrow> nat list \<Rightarrow> int \<Rightarrow> ('s, 'm) world_scheme \<Rightarrow> (go_err + bool) list" where
  "rate_run R scope i cap refill [] now w = []"
| "rate_run R scope i cap refill (d # ds) now w =
     (let (r, w') = run_state (RateAllow R (now + int d) scope i cap (Fin refill) 1) (w\<lparr>srv := elapse R d (srv w)\<rparr>)
      in r # rate_run R scope i cap refill ds (now + int d) w')"

text \<open>
  What is left to let through: the tokens of the bucket, seen at time \<open>now\<close>. It grows at the refill
  rate, and by the rounding of one request, and every request let through costs one.
\<close>

definition bucket_credit :: "int \<Rightarrow> int \<Rightarrow> bucket \<Rightarrow> real \<Rightarrow> bool" where
  "bucket_credit cap now b c \<longleftrightarrow> (case b of None \<Rightarrow> of_int cap \<le> c | Some (t, ts) \<Rightarrow> ts = now \<and> t \<le> c)"

lemma bucket_refill_credit:
  assumes "bucket_credit cap now b c" and "bucket_ok cap b" and "0 \<le> refill" and "of_int cap \<le> refill * 120"
  shows "bucket_refill cap refill (now + int d) (bucket_wait d b) \<le> c + refill * real d / 1000"
proof (cases b)
  case None
  then show ?thesis using assms(1,3) by (simp add: bucket_credit_def bucket_wait_def bucket_refill_def add_increasing2)
next
  case (Some p)
  obtain t where t: "p = (t, now)" "0 \<le> t" "t \<le> c"
    using assms(1,2) Some by (cases p) (auto simp: bucket_credit_def bucket_ok_def)
  show ?thesis
  proof (cases "d < 120000")
    case True
    then show ?thesis using t Some by (simp add: bucket_wait_def bucket_refill_def mult.commute)
  next
    case False
    then have "refill * 120 \<le> refill * (real d / 1000)" using assms(3) by (intro mult_left_mono) simp_all
    then show ?thesis using False t assms(4) by (simp add: bucket_wait_def bucket_refill_def)
  qed
qed

lemma rate_run_credit:
  assumes "redis_service R" and "1 \<le> cap" and "cap \<le> 2 ^ 53" and "0 \<le> refill" and "refill \<le> 2 ^ 53"
    and "of_int cap \<le> refill * 120"
    and "fates w = []" and "bucket_rep R (srv w) (RateLimitKey scope i) cap b"
    and "bucket_credit cap now b c" and "0 \<le> now" and "now + int (sum_list ds) \<le> 2 ^ 53"
  shows "(\<forall>r \<in> set (rate_run R scope i cap refill ds now w). \<exists>a. r = Inr a)
    \<and> real (length (filter (\<lambda>r. r = Inr True) (rate_run R scope i cap refill ds now w)))
        \<le> c + refill * real (sum_list ds) / 1000 + 4 * of_int cap * dbl_eps * real (length ds)"
  using assms(7-11)
proof (induction ds arbitrary: now w b c)
  case Nil
  then show ?case using assms(2) by (auto simp: bucket_credit_def bucket_rep_def bucket_ok_def split: option.splits)
next
  case (Cons d ds)
  let ?e = "4 * of_int cap * dbl_eps"
  have bounds: "0 \<le> now + int d" "now + int d \<le> 2 ^ 53" using Cons.prems(4,5) by auto
  obtain T w' where w':
    "run_state (RateAllow R (now + int d) scope i cap (Fin refill) 1) (w\<lparr>srv := elapse R d (srv w)\<rparr>) = (Inr (1 \<le> T), w')"
    "\<bar>T - bucket_refill cap refill (now + int d) (bucket_wait d b)\<bar> \<le> ?e"
    "bucket_rep R (srv w') (RateLimitKey scope i) cap (Some (if 1 \<le> T then T - 1 else T, now + int d))" "fates w' = []"
    by (rule RateAllow_after [OF assms(1) Cons.prems(1,2) assms(2-5) bounds, where d = d]) (rule that)
  let ?c = "c + refill * real d / 1000 + ?e - (if 1 \<le> T then 1 else 0)"
  have "T \<le> c + refill * real d / 1000 + ?e"
    using w'(2) bucket_refill_credit [OF Cons.prems(3) _ assms(4,6), of d] Cons.prems(2) by (simp add: bucket_rep_def)
  then have "bucket_credit cap (now + int d) (Some (if 1 \<le> T then T - 1 else T, now + int d)) ?c"
    by (simp add: bucket_credit_def)
  from Cons.IH [OF w'(4,3) this] Cons.prems(4,5)
  show ?case by (auto simp: w'(1) algebra_simps add_divide_distrib)
qed

text \<open>
  C24. The rate limiter bounds what it lets through. However requests of one client are spread over
  time, their number that \<open>RateAllow\<close> lets through is at most the capacity plus the refill rate times
  the seconds that have passed, plus \<open>4 * cap / 2 ^ 53\<close> for every request made (the rounding of Lua's
  doubles, below one token for every \<open>10 ^ 12\<close> requests at a capacity of 300), and no request is
  answered by an error. The bound needs that the bucket fills up within the two minutes after which
  it is forgotten (\<open>cap \<le> 120 refill\<close>), which both default configurations satisfy (60 tokens at 1 per
  second, 300 at 5 per second).
\<close>

theorem RateAllow_bounded:
  assumes "redis_service R" and "1 \<le> cap" and "cap \<le> 2 ^ 53" and "0 \<le> refill" and "refill \<le> 2 ^ 53"
    and "of_int cap \<le> refill * 120"
    and "fates w = []" and "view R (srv w) (RateLimitKey scope i) = None"
    and "0 \<le> now" and "now + int (sum_list ds) \<le> 2 ^ 53"
  shows "(\<forall>r \<in> set (rate_run R scope i cap refill ds now w). \<exists>a. r = Inr a)
    \<and> real (length (filter (\<lambda>r. r = Inr True) (rate_run R scope i cap refill ds now w)))
        \<le> of_int cap + refill * real (sum_list ds) / 1000 + 4 * of_int cap / 2 ^ 53 * real (length ds)"
proof -
  have e: "4 * of_int cap * dbl_eps = 4 * of_int cap / 2 ^ 53" by (simp add: dbl_eps_def)
  show ?thesis
    unfolding e [symmetric]
    by (rule rate_run_credit [OF assms(1-7), where b = None])
      (use assms(8-10) in \<open>simp_all add: bucket_rep_def bucket_is_def bucket_credit_def bucket_ok_def\<close>)
qed

theorem RateAllow_bounded_witness:
  "length (filter (\<lambda>r. r = Inr True)
     (rate_run ref_redis ''ip'' ''10.0.0.1'' 300 5 (replicate 2000 1) 0 fresh_world)) \<le> 310"
proof -
  have "real (length (filter (\<lambda>r. r = Inr True)
     (rate_run ref_redis ''ip'' ''10.0.0.1'' 300 5 (replicate 2000 1) 0 fresh_world)))
     \<le> of_int 300 + 5 * real (sum_list (replicate 2000 1)) / 1000 + 4 * of_int 300 / 2 ^ 53 * real (length (replicate 2000 (1 :: nat)))"
    by (rule conjunct2 [OF RateAllow_bounded [OF ref.redis_service_axioms]])
      (simp_all add: sum_list_replicate)
  then have "real (length (filter (\<lambda>r. r = Inr True)
     (rate_run ref_redis ''ip'' ''10.0.0.1'' 300 5 (replicate 2000 1) 0 fresh_world))) < 311"
    by (simp add: sum_list_replicate)
  then show ?thesis by linarith
qed

end
