(* ===== verification/Keyspace.thy ===== *)
theory Keyspace
  imports Rate
begin

text \<open>
  The typing discipline of the Redis keyspace. Redis gives every key a type by the first command that
  writes it, and answers a command of another type with an error. The builders of
  \<^verbatim>\<open>internal/redis/keys.go\<close> give every kind of data keys of its own; this theory shows that the operations
  of \<^verbatim>\<open>internal/redis/store.go\<close> keep to them, in any order and under any faults, as long as driver
  identifiers contain no colon. The one exception is inside \<^verbatim>\<open>DriverCount\<close>, whose scan asks for the field
  of a hash under lease keys too: the server refuses these reads, and the code drops the refusals
  (\<open>count_reads_leases\<close>).
\<close>

section \<open>Typed keys\<close>

definition key_ok :: "string \<Rightarrow> rvalue option \<Rightarrow> bool" where
  "key_ok k v \<longleftrightarrow> (\<forall>i. plain i \<and> k = DriverKey i \<longrightarrow> is_hash v) \<and> (\<forall>i. k = DriverLocKey i \<longrightarrow> is_hash v)
     \<and> (\<forall>i. k = RideKey i \<longrightarrow> is_hash v) \<and> (\<forall>s i. k = RateLimitKey s i \<longrightarrow> is_hash v)
     \<and> (\<forall>i. k = DriverLeaseKey i \<longrightarrow> is_str v) \<and> (\<forall>i. k = DriverSeqKey i \<longrightarrow> is_str v)
     \<and> (\<forall>c. k = CellKey c \<longrightarrow> is_set v) \<and> (k = GeoKey \<longrightarrow> is_geo v)"

definition well_typed :: "'s redis \<Rightarrow> 's \<Rightarrow> bool" where
  "well_typed R st \<longleftrightarrow> (\<forall>k. key_ok k (view R st k))"

lemma key_ok_None [simp]: "key_ok k None"
  by (simp add: key_ok_def)

definition hash_key :: "string \<Rightarrow> bool" where "hash_key k \<longleftrightarrow> (\<forall>v. key_ok k v \<longleftrightarrow> is_hash v)"
definition str_key :: "string \<Rightarrow> bool" where "str_key k \<longleftrightarrow> (\<forall>v. key_ok k v \<longleftrightarrow> is_str v)"
definition set_key :: "string \<Rightarrow> bool" where "set_key k \<longleftrightarrow> (\<forall>v. key_ok k v \<longleftrightarrow> is_set v)"
definition geo_key :: "string \<Rightarrow> bool" where "geo_key k \<longleftrightarrow> (\<forall>v. key_ok k v \<longleftrightarrow> is_geo v)"

lemmas kind_defs = hash_key_def str_key_def set_key_def geo_key_def

lemma key_kinds [simp]:
  "plain i \<Longrightarrow> hash_key (DriverKey i)" "hash_key (DriverLocKey i)" "hash_key (RideKey i)" "hash_key (RateLimitKey s i)"
  "str_key (DriverLeaseKey i)" "str_key (DriverSeqKey i)" "set_key (CellKey c)" "geo_key GeoKey"
  by (auto simp: kind_defs key_ok_def)

section \<open>Commands that keep to the types\<close>

text \<open>What a command or script may answer and leave behind in a well-typed keyspace.\<close>

definition ok_cmd :: "'s redis \<Rightarrow> rerr option \<times> 's \<Rightarrow> bool" where
  "ok_cmd R p \<longleftrightarrow> fst p \<noteq> Some WrongType \<and> well_typed R (snd p)"

definition ok_reply :: "'s redis \<Rightarrow> (rerr + 'a) \<times> 's \<Rightarrow> bool" where
  "ok_reply R p \<longleftrightarrow> fst p \<noteq> Inl WrongType \<and> well_typed R (snd p)"

named_theorems typing \<open>rules for well-typed commands, scripts and operations\<close>

lemma ok_reply_pair [typing]: "well_typed R st \<Longrightarrow> r \<noteq> Inl WrongType \<Longrightarrow> ok_reply R (r, st)"
  by (simp add: ok_reply_def)

lemma ok_cmd_pair [typing]: "well_typed R st \<Longrightarrow> ok_cmd R (None, st)"
  by (simp add: ok_cmd_def)

lemma ok_call [typing]:
  "ok_cmd R p \<Longrightarrow> (\<And>s. well_typed R s \<Longrightarrow> ok_reply R (k s)) \<Longrightarrow> ok_reply R (redis_call p k)"
  by (auto simp: redis_call_def ok_cmd_def ok_reply_def split: option.splits)

lemma ok_read [typing]:
  "r \<noteq> Inl WrongType \<Longrightarrow> well_typed R st \<Longrightarrow> (\<And>v. r = Inr v \<Longrightarrow> ok_reply R (k v)) \<Longrightarrow> ok_reply R (redis_read r st k)"
  by (auto simp: redis_read_def ok_reply_def split: sum.splits)

lemma ok_tx:
  "(\<And>c s. c \<in> set cs \<Longrightarrow> well_typed R s \<Longrightarrow> ok_cmd R (c s)) \<Longrightarrow> well_typed R st \<Longrightarrow> ok_cmd R (tx cs st)"
proof (induction cs arbitrary: st)
  case (Cons c cs)
  then have "ok_cmd R (c st)" by simp
  with Cons.IH [of "snd (c st)"] Cons.prems(1) show ?case
    by (auto simp: split_beta Let_def ok_cmd_def split: option.splits)
qed (simp add: ok_cmd_def)

context redis_service
begin

lemma well_typed_upd:
  "well_typed R st \<Longrightarrow> view R st' = (view R st)(k := v) \<Longrightarrow> key_ok k v \<Longrightarrow> well_typed R st'"
  by (simp add: well_typed_def)

lemma well_typed_view:
  "well_typed R st \<Longrightarrow> hash_key k \<Longrightarrow> is_hash (view R st k)"
  "well_typed R st \<Longrightarrow> str_key k \<Longrightarrow> is_str (view R st k)"
  "well_typed R st \<Longrightarrow> set_key k \<Longrightarrow> is_set (view R st k)"
  "well_typed R st \<Longrightarrow> geo_key k \<Longrightarrow> is_geo (view R st k)"
  by (auto simp: well_typed_def kind_defs)

lemma ok_writes [typing]:
  assumes "well_typed R st"
  shows "hash_key k \<Longrightarrow> fs \<noteq> [] \<Longrightarrow> ok_cmd R (rHSET R k fs st)"
    and "str_key k \<Longrightarrow> ok_cmd R (rSETEX R k v n st)"
    and "set_key k \<Longrightarrow> ok_cmd R (rSADD R k x st)"
    and "set_key k \<Longrightarrow> ok_cmd R (rSREM R k x st)"
    and "geo_key k \<Longrightarrow> ok_cmd R (rGEOADD R k lng lat x st)"
    and "geo_key k \<Longrightarrow> ok_cmd R (rZREM R k x st)"
proof -
  note wt = well_typed_view [OF assms]
  show "hash_key k \<Longrightarrow> fs \<noteq> [] \<Longrightarrow> ok_cmd R (rHSET R k fs st)"
    using wt(1) [of k] assms by (auto simp: ok_cmd_def redis_laws well_typed_def hash_key_def)
  show "str_key k \<Longrightarrow> ok_cmd R (rSETEX R k v n st)"
    using assms by (auto simp: ok_cmd_def redis_laws well_typed_def str_key_def)
  show "set_key k \<Longrightarrow> ok_cmd R (rSADD R k x st)"
    using wt(3) [of k] assms by (auto simp: ok_cmd_def redis_laws well_typed_def set_key_def)
  show "set_key k \<Longrightarrow> ok_cmd R (rSREM R k x st)"
    using wt(3) [of k] assms by (auto simp: ok_cmd_def redis_laws well_typed_def set_key_def)
  show "geo_key k \<Longrightarrow> ok_cmd R (rGEOADD R k lng lat x st)"
    using wt(4) [of k] assms by (auto simp: ok_cmd_def redis_laws well_typed_def geo_key_def)
  show "geo_key k \<Longrightarrow> ok_cmd R (rZREM R k x st)"
    using wt(4) [of k] assms by (auto simp: ok_cmd_def redis_laws well_typed_def geo_key_def geo_value_def)
qed

lemma well_typed_writes [typing]:
  assumes "well_typed R st"
  shows "well_typed R (rDEL R k st)" and "well_typed R (rPEXPIRE R k n st)" and "well_typed R (elapse R d st)"
  using assms by (auto simp: well_typed_def redis_laws split: option.splits)

lemma ok_reads [typing]:
  assumes "well_typed R st"
  shows "hash_key k \<Longrightarrow> rHGET R st k f \<noteq> Inl WrongType"
    and "hash_key k \<Longrightarrow> rHMGET R st k names \<noteq> Inl WrongType"
    and "hash_key k \<Longrightarrow> rHGETALL R st k \<noteq> Inl WrongType"
    and "str_key k \<Longrightarrow> rGET R st k \<noteq> Inl WrongType"
    and "set_key k \<Longrightarrow> rSMEMBERS R st k \<noteq> Inl WrongType"
proof -
  note wt = well_typed_view [OF assms]
  show "hash_key k \<Longrightarrow> rHGET R st k f \<noteq> Inl WrongType" "hash_key k \<Longrightarrow> rHMGET R st k names \<noteq> Inl WrongType"
    using wt(1) [of k] by (simp_all add: redis_laws)
  show "hash_key k \<Longrightarrow> rHGETALL R st k \<noteq> Inl WrongType"
    using wt(1) [of k] HGETALL_law [of st k] by (auto split: sum.splits)
  show "str_key k \<Longrightarrow> rGET R st k \<noteq> Inl WrongType"
    using wt(2) [of k] by (auto simp: redis_laws is_str_def split: option.splits rvalue.splits)
  show "set_key k \<Longrightarrow> rSMEMBERS R st k \<noteq> Inl WrongType"
    using wt(3) [of k] SMEMBERS_law [of st k] by (auto split: sum.splits)
qed

lemma ok_apply:
  assumes "well_typed R st"
  shows "ok_reply R (applyLocationScript R (DriverSeqKey i) (DriverLocKey i) (CellKey a) (CellKey b)
      GeoKey n lat lng cell ts ttl i st)"
  unfolding applyLocationScript_def Let_def using assms
  by (intro typing) (auto intro!: typing split: option.splits)

lemma ok_reserve:
  assumes "well_typed R st" and "plain i"
  shows "ok_reply R (reserveScript R (DriverLeaseKey i) (DriverKey i) ride lv n st)"
  unfolding reserveScript_def Let_def using assms by (auto intro!: typing simp: ok_reads)

lemma ok_release:
  assumes "well_typed R st" and "plain i"
  shows "ok_reply R (releaseScript R (DriverLeaseKey i) (DriverKey i) lv target st)"
  unfolding releaseScript_def Let_def using assms by (auto intro!: typing simp: ok_reads)

lemma ok_bucket:
  assumes "well_typed R st"
  shows "ok_reply R (tokenBucketScript R (RateLimitKey scope i) cap refill now req ttl st)"
  unfolding tokenBucketScript_def Let_def using assms
  by (auto intro!: typing simp: ok_reads split: option.splits prod.splits)

end

section \<open>Operations\<close>

text \<open>
  An operation keeps to the types when, in a well-typed keyspace and whatever the fate of its calls,
  the error it reports is not one of type and the keyspace stays well-typed. \<open>err\<close> reads the error off
  the result.
\<close>

definition keeps_types :: "'s redis \<Rightarrow> ('a \<Rightarrow> go_err option) \<Rightarrow> (('s, 'm) world_scheme, 'a) state \<Rightarrow> bool" where
  "keeps_types R err m \<longleftrightarrow> (\<forall>w. well_typed R (srv w) \<longrightarrow>
     err (fst (run_state m w)) \<noteq> Some (ERedis WrongType) \<and> well_typed R (srv (snd (run_state m w))))"

definition out_err :: "'a go_out \<Rightarrow> go_err option" where
  "out_err r = (case r of Err e \<Rightarrow> Some e | _ \<Rightarrow> None)"

lemma out_err_simps [simp]: "out_err (Ret x) = None" "out_err (Err e) = Some e" "out_err Panic = None"
  by (simp_all add: out_err_def)

fun err_cause :: "go_err \<Rightarrow> go_err" where
  "err_cause (ERebuild i e) = err_cause e"
| "err_cause e = e"

definition sum_err :: "go_err + 'a \<Rightarrow> go_err option" where
  "sum_err r = (case r of Inl e \<Rightarrow> Some e | Inr _ \<Rightarrow> None)"

lemma rdo_typed:
  assumes "\<And>st. well_typed R st \<Longrightarrow> ok_reply R (c st)" and "well_typed R (srv w)" and "run_state (rdo c) w = (r, w')"
  shows "r \<noteq> Inl WrongType \<and> well_typed R (srv w')"
  by (rule rdo_cases [of c w]) (use assms(1) [OF assms(2)] assms(2,3) in \<open>auto simp: ok_reply_def\<close>)

lemma rread_typed:
  assumes "\<And>st. well_typed R st \<Longrightarrow> c st \<noteq> Inl WrongType" and "well_typed R (srv w)" and "run_state (rread c) w = (r, w')"
  shows "r \<noteq> Inl WrongType \<and> well_typed R (srv w')"
  by (rule rdo_typed [OF _ assms(2) assms(3) [unfolded rread_def]]) (simp add: ok_reply_def assms(1))

lemma rwrite_typed:
  assumes "\<And>st. well_typed R st \<Longrightarrow> ok_cmd R (c st)" and "well_typed R (srv w)" and "run_state (rwrite c) w = (e, w')"
  shows "e \<noteq> Some WrongType \<and> well_typed R (srv w')"
proof -
  let ?c = "\<lambda>st. case c st of (Some e, st') \<Rightarrow> (Inl e, st') | (None, st') \<Rightarrow> (Inr (), st')"
  obtain r w1 where r: "run_state (rdo ?c) w = (r, w1)" by fastforce
  have "ok_reply R (?c st)" if "well_typed R st" for st
    using assms(1) [OF that] by (auto simp: ok_cmd_def ok_reply_def split: prod.splits option.splits)
  from rdo_typed [OF this assms(2) r] assms(3) r show ?thesis
    by (auto simp: rwrite_def split: sum.splits)
qed

lemma keeps_typesI:
  assumes "\<And>w r w'. well_typed R (srv w) \<Longrightarrow> run_state m w = (r, w') \<Longrightarrow> err r \<noteq> Some (ERedis WrongType) \<and> well_typed R (srv w')"
  shows "keeps_types R err m"
  unfolding keeps_types_def by (metis assms prod.collapse)

lemma keeps_types_rdo:
  assumes "\<And>st. well_typed R st \<Longrightarrow> ok_reply R (c st)" and "\<And>r. r \<noteq> Inl WrongType \<Longrightarrow> err (f r) \<noteq> Some (ERedis WrongType)"
  shows "keeps_types R err (rdo c \<bind> (\<lambda>r. State_Monad.return (f r)))"
proof (rule keeps_typesI)
  fix w x w' assume w: "well_typed R (srv w)" and run: "run_state (rdo c \<bind> (\<lambda>r. State_Monad.return (f r))) w = (x, w')"
  obtain r w1 where r: "run_state (rdo c) w = (r, w1)" by fastforce
  from rdo_typed [where c = c, OF assms(1) w r] assms(2) [of r] run r
  show "err x \<noteq> Some (ERedis WrongType) \<and> well_typed R (srv w')" by auto
qed

lemma keeps_types_rwrite:
  assumes "\<And>st. well_typed R st \<Longrightarrow> ok_cmd R (c st)"
  shows "keeps_types R (\<lambda>e. e) (rwrite c \<bind> (\<lambda>e. State_Monad.return (map_option ERedis e)))"
proof (rule keeps_typesI)
  fix w x w' assume w: "well_typed R (srv w)"
    and run: "run_state (rwrite c \<bind> (\<lambda>e. State_Monad.return (map_option ERedis e))) w = (x, w')"
  obtain r w1 where r: "run_state (rwrite c) w = (r, w1)" by fastforce
  from rwrite_typed [where c = c, OF assms w r] run r
  show "x \<noteq> Some (ERedis WrongType) \<and> well_typed R (srv w')" by auto
qed

lemma keeps_types_rread:
  assumes "\<And>st. well_typed R st \<Longrightarrow> c st \<noteq> Inl WrongType" and "\<And>r. r \<noteq> Inl WrongType \<Longrightarrow> keeps_types R err (f r)"
  shows "keeps_types R err (rread c \<bind> f)"
proof (rule keeps_typesI)
  fix w x w' assume w: "well_typed R (srv w)" and run: "run_state (rread c \<bind> f) w = (x, w')"
  obtain r w1 where r: "run_state (rread c) w = (r, w1)" by fastforce
  from rread_typed [where c = c, OF assms(1) w r] have "r \<noteq> Inl WrongType" "well_typed R (srv w1)" by simp_all
  with assms(2) [of r] run r show "err x \<noteq> Some (ERedis WrongType) \<and> well_typed R (srv w')"
    by (auto simp: keeps_types_def)
qed

lemma keeps_types_bind:
  fixes m :: "(('s, 'm) world_scheme, 'a) state"
  assumes "keeps_types R e m" and "\<And>x. e x \<noteq> Some (ERedis WrongType) \<Longrightarrow> keeps_types R err (f x)"
  shows "keeps_types R err (m \<bind> f)"
  unfolding keeps_types_def
proof (intro allI impI)
  fix w :: "('s, 'm) world_scheme"
  assume w: "well_typed R (srv w)"
  obtain x w1 where x: "run_state m w = (x, w1)" by fastforce
  with assms(1) w have "e x \<noteq> Some (ERedis WrongType)" "well_typed R (srv w1)" by (fastforce simp: keeps_types_def)+
  with assms(2) [of x] x show "err (fst (run_state (m \<bind> f) w)) \<noteq> Some (ERedis WrongType) \<and> well_typed R (srv (snd (run_state (m \<bind> f) w)))"
    by (simp add: keeps_types_def)
qed

text \<open>A read whose error the code drops.\<close>

lemma keeps_types_dropped:
  assumes "\<And>r. keeps_types R err (f r)"
  shows "keeps_types R err (rread c \<bind> f)"
proof (rule keeps_types_bind [where e = "\<lambda>_. None"])
  show "keeps_types R (\<lambda>_. None) (rread c)" by (simp add: keeps_types_def reads_onlyD [OF reads_only_rread])
qed (rule assms)

lemma keeps_types_return: "err x \<noteq> Some (ERedis WrongType) \<Longrightarrow> keeps_types R err (State_Monad.return x)"
  by (simp add: keeps_types_def)

lemma reads_only_count_keys: "reads_only (count_keys R ks acc)"
  by (induction ks arbitrary: acc) (auto intro!: reads_intro simp: split_paired_all)

lemma DriverCount_keeps_types:
  fixes R :: "'r redis" and w :: "('r, 'm) world_scheme"
  assumes "DriverCount R scan cur acc w = Some (r, w')" and "\<And>s c. scan s c \<noteq> Inl WrongType"
  shows "srv w' = srv w \<and> sum_err r \<noteq> Some (ERedis WrongType)"
proof -
  define P :: "'r redis \<Rightarrow> ('r \<Rightarrow> nat \<Rightarrow> rerr + string list \<times> nat) \<Rightarrow> nat \<Rightarrow> int \<times> int \<Rightarrow> ('r, 'm) world_scheme
      \<Rightarrow> (go_err + int \<times> int) \<times> ('r, 'm) world_scheme \<Rightarrow> bool"
    where "P = (\<lambda>R scan cur acc w p. (\<forall>s c. scan s c \<noteq> Inl WrongType)
      \<longrightarrow> srv (snd p) = srv w \<and> sum_err (fst p) \<noteq> Some (ERedis WrongType))"
  have "P R scan cur acc w (r, w')"
  proof (rule DriverCount.raw_induct [OF _ assms(1), where P = P], goal_cases)
    case (1 self R scan cur acc w p)
    obtain x w1 where x: "run_state (rread (\<lambda>s. scan s cur)) w = (x, w1)" by fastforce
    have s1: "srv w1 = srv w" "x = Inl Unreachable \<or> x = scan (srv w) cur"
      using rread_srv [OF x] rread_fst [of "\<lambda>s. scan s cur" w] x by auto
    show ?case
    proof (cases x)
      case (Inl e)
      then have p: "p = (Inl (ERedis e), w1)" using 1(2) x by simp
      moreover have "e \<noteq> WrongType" if "\<forall>s c. scan s c \<noteq> Inl WrongType" using that [rule_format, of "srv w" cur] Inl s1(2) by auto
      ultimately show ?thesis using s1(1) by (simp add: P_def sum_err_def)
    next
      case (Inr q)
      obtain ks c where q: "q = (ks, c)" by fastforce
      obtain acc' w2 where c: "run_state (count_keys R ks acc) w1 = (acc', w2)" by fastforce
      have "srv w2 = srv w" using reads_onlyD [OF reads_only_count_keys, of R ks acc w1] c s1(1) by simp
      then show ?thesis using 1(2) 1(1) [of R scan c acc' w2 p] x c Inr q by (auto simp: P_def sum_err_def split: if_splits)
    qed
  qed
  with assms(2) show ?thesis by (simp add: P_def)
qed

context redis_service
begin

lemma InitDriver_keeps_types:
  assumes "plain i"
  shows "keeps_types R (\<lambda>e. e) (InitDriver R H now i name st rating lat lng)"
proof (cases "geo_CellKey H lat lng DefaultResolution")
  case (Inr cell)
  show ?thesis
    unfolding InitDriver_def Inr sum.case
    by (rule keeps_types_rwrite, rule ok_tx) (use assms in \<open>auto intro!: typing\<close>)
qed (simp add: InitDriver_def keeps_types_return)

lemma InitDriver_keeps_cause:
  assumes "plain i"
  shows "keeps_types R (map_option err_cause) (InitDriver R H now i name st rating lat lng)"
proof (rule keeps_typesI)
  fix w e w'
  assume "well_typed R (srv w)" and run: "run_state (InitDriver R H now i name st rating lat lng) w = (e, w')"
  then have "e \<noteq> Some (ERedis WrongType) \<and> well_typed R (srv w')"
    using InitDriver_keeps_types [OF assms] unfolding keeps_types_def by (metis fst_conv snd_conv)
  moreover have "map_option err_cause e = e"
    using run by (auto simp: InitDriver_def split_beta option.map_comp comp_def split: sum.splits)
  ultimately show "map_option err_cause e \<noteq> Some (ERedis WrongType) \<and> well_typed R (srv w')" by simp
qed

lemma SetState_keeps_types: "plain i \<Longrightarrow> keeps_types R (\<lambda>e. e) (SetState R i st)"
  unfolding SetState_def by (rule keeps_types_rwrite) (auto intro: typing)

lemma SetRide_keeps_types: "fs \<noteq> [] \<Longrightarrow> keeps_types R (\<lambda>e. e) (SetRide R i fs ttl)"
  unfolding SetRide_def by (rule keeps_types_rwrite, rule ok_tx) (auto intro!: typing)

lemma scripts_keep_types:
  "plain i \<Longrightarrow> keeps_types R snd (Store_Reserve R i ride lv ttl)"
  "plain i \<Longrightarrow> keeps_types R sum_err (Store_Release R i lv target)"
  "keeps_types R sum_err (RateAllow R now scope i cap refill n)"
  unfolding Store_Reserve_def Store_Release_def RateAllow_def
  by (rule keeps_types_rdo; auto intro: ok_reserve ok_release ok_bucket simp: sum_err_def split: sum.splits)+

lemma ApplyLocation_keeps_types: "keeps_types R sum_err (Store_ApplyLocation R H i lat lng seq ts)"
  unfolding Store_ApplyLocation_def Let_def
  by (auto intro!: keeps_types_rread keeps_types_rdo keeps_types_return ok_apply simp: ok_reads sum_err_def split: sum.splits)

lemma RemoveDriver_keeps_types: "keeps_types R (\<lambda>e. e) (RemoveDriver R i)"
  unfolding RemoveDriver_def Let_def
  by (auto intro!: keeps_types_rread keeps_types_rwrite ok_tx typing simp: ok_reads)

lemma reads_keep_types:
  "plain i \<Longrightarrow> keeps_types R sum_err (GetState R i)"
  "keeps_types R sum_err (GetLease R i)"
  "keeps_types R sum_err (Store_GetRide R i)"
  unfolding GetState_def GetLease_def Store_GetRide_def
  by (rule keeps_types_rread, simp add: ok_reads, rule keeps_types_return,
      auto simp: sum_err_def split: sum.splits option.splits)+

lemma GetLocation_keeps_types:
  assumes "plain i"
  shows "keeps_types R sum_err (Store_GetLocation R i)"
  unfolding Store_GetLocation_def Let_def
  apply (rule keeps_types_rread)
   apply (simp add: ok_reads)
  subgoal for r
    apply (cases r)
     apply (auto intro!: keeps_types_return simp: sum_err_def)[1]
    subgoal for fs
      apply (cases fs)
       apply (simp add: keeps_types_return sum_err_def)
      apply (simp only: sum.case list.case)
      apply (rule keeps_types_rread, use assms in \<open>simp add: ok_reads\<close>)+
      apply (rule keeps_types_return)
      apply (simp add: sum_err_def)
      done
    done
  done

lemma search_keeps_types:
  "keeps_types R out_err (search_driver R lat lng r i)"
  "keeps_types R out_err (search_ids R lat lng r ids acc)"
  "keeps_types R out_err (search_cells R lat lng r cells acc)"
proof -
  show d: "keeps_types R out_err (search_driver R lat lng r i)" for i
    unfolding search_driver_def Let_def
  proof (rule keeps_types_rread, simp add: ok_reads, goal_cases)
    case (1 x)
    then show ?case
      by (cases x) (auto intro!: keeps_types_dropped keeps_types_return split: option.splits)
  qed
  show ids: "keeps_types R out_err (search_ids R lat lng r ids acc)" for ids acc
  proof (induction ids arbitrary: acc)
    case (Cons i ids)
    obtain seen out where "acc = (seen, out)" by fastforce
    with Cons show ?case
      by (auto intro!: keeps_types_bind [OF d] keeps_types_return split: go_out.split option.split)
  qed (simp add: keeps_types_return)
  show "keeps_types R out_err (search_cells R lat lng r cells acc)"
  proof (induction cells arbitrary: acc)
    case (Cons c cells)
    then show ?case
      by (auto intro!: keeps_types_rread keeps_types_bind [OF ids] keeps_types_return simp: ok_reads
          split: go_out.split sum.split)
  qed (simp add: keeps_types_return)
qed

lemma SearchNearby_keeps_types: "keeps_types R out_err (SearchNearby R H lat lng r)"
proof (cases "PlanSearch H lat lng r DefaultResolution")
  case (Inr plan)
  have "out_err (case x of Ret (_, out) \<Rightarrow> Ret (dist_sort out, length (Cells plan)) | Err e \<Rightarrow> Err e | Panic \<Rightarrow> Panic) = out_err x"
    for x :: "(string set \<times> DriverPos list) go_out"
    by (cases x) (auto split: prod.split)
  then show ?thesis
    unfolding SearchNearby_def Inr sum.case
    by (intro keeps_types_bind [OF search_keeps_types(3)] keeps_types_return) simp
qed (simp add: SearchNearby_def keeps_types_return)

lemma Rebuild_keeps_types:
  "\<forall>d \<in> set ds. plain (fst d) \<Longrightarrow> keeps_types R (map_option err_cause) (RebuildFromDrivers R H clock ds)"
proof (induction ds arbitrary: clock)
  case (Cons d ds)
  obtain i st lat lng where d: "d = (i, st, lat, lng)" by (metis prod_cases4)
  have "plain i" using Cons.prems d by simp
  have cause: "err_cause e \<noteq> ERedis WrongType" if "e \<noteq> ERedis WrongType" "\<forall>j e'. e \<noteq> ERebuild j e'" for e
    using that by (cases e) auto
  show ?case
    unfolding d RebuildFromDrivers.simps
    by (rule keeps_types_bind [where e = "map_option err_cause"])
      (use Cons InitDriver_keeps_cause [OF \<open>plain i\<close>] in \<open>auto intro!: keeps_types_return split: option.split\<close>)
qed (simp add: keeps_types_return)

text \<open>
  The reads that are refused: \<^verbatim>\<open>DriverCount\<close> asks every key of the scan for its state, and the key of a
  held lease is a string. It counts such a key as a driver that is not available.
\<close>

lemma count_reads_leases:
  assumes "fates w = []" and "view R (srv w) (DriverLeaseKey i) = Some (RStr b)" and "i \<noteq> []" and "hd i \<noteq> CHR '':''"
  shows "rHGET R (srv w) (DriverLeaseKey i) ''state'' = Inl WrongType"
    and "run_state (count_keys R [DriverLeaseKey i] (tot, available)) w = ((tot + 1, available), w)"
proof -
  show e: "rHGET R (srv w) (DriverLeaseKey i) ''state'' = Inl WrongType"
    using assms(2) by (simp add: redis_laws)
  have "DriverLeaseKey i ! length DriverKeyPrefix \<noteq> CHR '':''" "length DriverKeyPrefix < length (DriverLeaseKey i)"
    using assms(3,4) by (cases i; simp add: key_defs)+
  then show "run_state (count_keys R [DriverLeaseKey i] (tot, available)) w = ((tot + 1, available), w)"
    using assms(1) e by (simp add: hget_text_def)
qed

end

section \<open>Any sequence of operations\<close>

text \<open>
  One step of the store: an operation with the error it reports (for a rebuild, the error of the driver it
  stopped at), or the passing of time. \<^verbatim>\<open>SCAN\<close> has no key and is never refused for a type.
\<close>

inductive store_step :: "'s redis \<Rightarrow> 'c h3 \<Rightarrow> ('s, 'm) world_scheme \<Rightarrow> go_err option \<Rightarrow> ('s, 'm) world_scheme \<Rightarrow> bool"
  for R :: "'s redis" and H :: "'c h3"
where
  init: "plain i \<Longrightarrow> run_state (InitDriver R H now i name st rating lat lng) w = (e, w') \<Longrightarrow> store_step R H w e w'"
| state: "plain i \<Longrightarrow> run_state (SetState R i st) w = (e, w') \<Longrightarrow> store_step R H w e w'"
| locate: "run_state (Store_ApplyLocation R H i lat lng seq ts) w = (r, w') \<Longrightarrow> store_step R H w (sum_err r) w'"
| reserve: "plain i \<Longrightarrow> run_state (Store_Reserve R i rid lv ttl) w = ((x, e), w') \<Longrightarrow> store_step R H w e w'"
| release: "plain i \<Longrightarrow> run_state (Store_Release R i lv target) w = (r, w') \<Longrightarrow> store_step R H w (sum_err r) w'"
| rate: "run_state (RateAllow R now scope i cap refill n) w = (r, w') \<Longrightarrow> store_step R H w (sum_err r) w'"
| ride: "fs \<noteq> [] \<Longrightarrow> run_state (SetRide R i fs ttl) w = (e, w') \<Longrightarrow> store_step R H w e w'"
| remove: "run_state (RemoveDriver R i) w = (e, w') \<Longrightarrow> store_step R H w e w'"
| get_state: "plain i \<Longrightarrow> run_state (GetState R i) w = (s, w') \<Longrightarrow> store_step R H w (sum_err s) w'"
| get_location: "plain i \<Longrightarrow> run_state (Store_GetLocation R i) w = (p, w') \<Longrightarrow> store_step R H w (sum_err p) w'"
| get_lease: "run_state (GetLease R i) w = (l, w') \<Longrightarrow> store_step R H w (sum_err l) w'"
| get_ride: "run_state (Store_GetRide R i) w = (m, w') \<Longrightarrow> store_step R H w (sum_err m) w'"
| search: "run_state (SearchNearby R H lat lng r) w = (x, w') \<Longrightarrow> store_step R H w (out_err x) w'"
| rebuild: "\<forall>d \<in> set ds. plain (fst d) \<Longrightarrow> run_state (RebuildFromDrivers R H clock ds) w = (e, w')
    \<Longrightarrow> store_step R H w (map_option err_cause e) w'"
| drivers: "(\<And>s c. scan s c \<noteq> Inl WrongType) \<Longrightarrow> DriverCount R scan 0 (0, 0) w = Some (n, w')
    \<Longrightarrow> store_step R H w (sum_err n) w'"
| time: "store_step R H w None (w\<lparr>srv := elapse R d (srv w)\<rparr>)"

lemma keeps_typesD:
  "keeps_types R err m \<Longrightarrow> run_state m w = (r, w') \<Longrightarrow> well_typed R (srv w)
     \<Longrightarrow> err r \<noteq> Some (ERedis WrongType) \<and> well_typed R (srv w')"
  unfolding keeps_types_def by (metis fst_conv snd_conv)

context redis_service
begin

lemma store_step_typed:
  "store_step R H w e w' \<Longrightarrow> well_typed R (srv w) \<Longrightarrow> e \<noteq> Some (ERedis WrongType) \<and> well_typed R (srv w')"
proof (induction rule: store_step.induct)
  case init then show ?case using keeps_typesD [OF InitDriver_keeps_types] by blast
next
  case state then show ?case using keeps_typesD [OF SetState_keeps_types] by blast
next
  case locate then show ?case using keeps_typesD [OF ApplyLocation_keeps_types] by blast
next
  case reserve then show ?case using keeps_typesD [OF scripts_keep_types(1)] by (metis snd_conv)
next
  case release then show ?case using keeps_typesD [OF scripts_keep_types(2)] by blast
next
  case rate then show ?case using keeps_typesD [OF scripts_keep_types(3)] by blast
next
  case ride then show ?case using keeps_typesD [OF SetRide_keeps_types] by blast
next
  case remove then show ?case using keeps_typesD [OF RemoveDriver_keeps_types] by blast
next
  case get_state then show ?case using keeps_typesD [OF reads_keep_types(1)] by blast
next
  case get_location then show ?case using keeps_typesD [OF GetLocation_keeps_types] by blast
next
  case get_lease then show ?case using keeps_typesD [OF reads_keep_types(2)] by blast
next
  case get_ride then show ?case using keeps_typesD [OF reads_keep_types(3)] by blast
next
  case search then show ?case using keeps_typesD [OF SearchNearby_keeps_types] by blast
next
  case rebuild then show ?case using keeps_typesD [OF Rebuild_keeps_types] by blast
next
  case drivers then show ?case using DriverCount_keeps_types by metis
next
  case time then show ?case using well_typed_writes(3) by simp
qed

lemma store_reach_typed:
  "(\<lambda>w w'. \<exists>e. store_step R H w e w')\<^sup>*\<^sup>* w w' \<Longrightarrow> well_typed R (srv w) \<Longrightarrow> well_typed R (srv w')"
  by (induction rule: rtranclp_induct) (use store_step_typed in blast)+

end

text \<open>
  C13. The keyspace is well-typed. From a well-typed keyspace (the empty one, for instance), any sequence of
  operations of the store, in any order, whatever the fates of their calls and however much time passes
  between them, leaves every key with the type of its kind (profiles, positions, rides and buckets
  hashes, leases and sequence numbers strings, cells sets, the geo index a geo set); and no operation on
  the way reports the server's error for a key of the wrong type. The operations that touch a driver's
  profile are on drivers whose identifiers contain no colon, and hashes are written with at least one
  field. Inside \<^verbatim>\<open>DriverCount\<close> such errors do occur, on the keys of leases; it drops them.
\<close>

theorem keyspace_well_typed:
  assumes "redis_service R" and "well_typed R (srv w)" and "(\<lambda>w w'. \<exists>e. store_step R H w e w')\<^sup>*\<^sup>* w w'"
  shows "well_typed R (srv w') \<and> (\<forall>e w''. store_step R H w' e w'' \<longrightarrow> e \<noteq> Some (ERedis WrongType))"
  using redis_service.store_reach_typed [OF assms(1,3,2)] redis_service.store_step_typed [OF assms(1)] by blast

theorem keyspace_well_typed_witness:
  "well_typed ref_redis (srv (snd (run_state (Store_Reserve ref_redis ''d1'' ''r1'' \<lparr> RideID = ''r1'', Token = ''aa'', Version = 1 \<rparr> (30 * 10 ^ 9))
       (snd (run_state (SetState ref_redis ''d1'' ''AVAILABLE'') fresh_world)))))"
proof -
  define w1 where "w1 = snd (run_state (SetState ref_redis ''d1'' ''AVAILABLE'') fresh_world)"
  define w2 where "w2 = snd (run_state (Store_Reserve ref_redis ''d1'' ''r1'' \<lparr> RideID = ''r1'', Token = ''aa'', Version = 1 \<rparr> (30 * 10 ^ 9)) w1)"
  have p: "plain ''d1''" by (simp add: plain_def)
  obtain e1 where "run_state (SetState ref_redis ''d1'' ''AVAILABLE'') fresh_world = (e1, w1)"
    unfolding w1_def by (metis prod.collapse)
  then have s1: "\<exists>e. store_step ref_redis one_cell fresh_world e w1" by (intro exI) (rule store_step.state [OF p])
  obtain x2 e2 where "run_state (Store_Reserve ref_redis ''d1'' ''r1'' \<lparr> RideID = ''r1'', Token = ''aa'', Version = 1 \<rparr> (30 * 10 ^ 9)) w1 = ((x2, e2), w2)"
    unfolding w2_def by (metis prod.collapse)
  then have s2: "\<exists>e. store_step ref_redis one_cell w1 e w2" by (intro exI) (rule store_step.reserve [OF p])
  have "well_typed ref_redis (srv fresh_world)" by (simp add: well_typed_def)
  from conjunct1 [OF keyspace_well_typed [OF ref.redis_service_axioms this, of one_cell w2]]
    rtranclp.rtrancl_into_rtrancl [OF r_into_rtranclp, of "\<lambda>w w'. \<exists>e. store_step ref_redis one_cell w e w'", OF s1 s2]
  show ?thesis by (simp add: w2_def w1_def)
qed

end
