(* ===== verification/Auth.thy ===== *)
theory Auth
  imports Utf8
begin

text \<open>
  \<^verbatim>\<open>internal/auth/auth.go\<close>: tokens, roles and the claims of a request. The JWT library is not part of
  the repository: it is the parameter \<open>J\<close>, with what the sources rely on as the locale
  \<open>jwt_library\<close>. Times are nanoseconds since the epoch; \<^verbatim>\<open>time.Now\<close> is an argument.
\<close>

section \<open>Roles and claims\<close>

type_synonym Role = string

definition RoleUser :: Role where "RoleUser = ''USER''"

definition RoleDriver :: Role where "RoleDriver = ''DRIVER''"

definition RoleAdmin :: Role where "RoleAdmin = ''ADMIN''"

lemmas role_defs = RoleUser_def RoleDriver_def RoleAdmin_def

text \<open>The embedded \<^verbatim>\<open>RegisteredClaims\<close> of the library; a date that is not set is \<open>None\<close>.\<close>

record RegisteredClaims =
  rc_Issuer :: string
  rc_Subject :: string
  rc_IssuedAt :: "int option"
  rc_ExpiresAt :: "int option"
  rc_NotBefore :: "int option"

record Claims = RegisteredClaims +
  cl_UserID :: string
  cl_Role :: Role

definition Issuer :: string where "Issuer = ''nexus-dispatch''"

section \<open>The JWT library\<close>

text \<open>
  \<open>jSigned alg key c\<close> is \<^verbatim>\<open>NewWithClaims(alg, c).SignedString(key)\<close>; \<open>jDate\<close> is \<^verbatim>\<open>NewNumericDate\<close>;
  \<open>jVerifies alg key tok c\<close> says that the header of \<open>tok\<close> names the algorithm \<open>alg\<close>, that its payload decodes
  to the claims \<open>c\<close> and that its signature verifies under \<open>key\<close>; and \<open>jParse now tok keyfunc iss algs\<close> is
  \<^verbatim>\<open>ParseWithClaims\<close> with the options \<^verbatim>\<open>WithIssuer(iss)\<close> and \<^verbatim>\<open>WithValidMethods(algs)\<close>,
  \<open>None\<close> for an error or an invalid token.
\<close>

record jwt =
  jDate :: "int \<Rightarrow> int"
  jSigned :: "string \<Rightarrow> string \<Rightarrow> Claims \<Rightarrow> string + string"
  jVerifies :: "string \<Rightarrow> string \<Rightarrow> string \<Rightarrow> Claims \<Rightarrow> bool"
  jParse :: "int \<Rightarrow> string \<Rightarrow> (string \<Rightarrow> string option) \<Rightarrow> string \<Rightarrow> string list \<Rightarrow> Claims option"

text \<open>
  Claims that the JSON of a token carries unchanged: strings of valid UTF-8 and dates of whole seconds,
  here in the years from 1970 on that 64-bit nanoseconds reach. Dates are written with the precision of a
  second, so claims with other dates do not come back as they were.
\<close>

definition json_date :: "int option \<Rightarrow> bool" where
  "json_date d = (case d of None \<Rightarrow> True | Some t \<Rightarrow> 0 \<le> t \<and> t < 2 ^ 63 \<and> t mod 10 ^ 9 = 0)"

definition json_claims :: "Claims \<Rightarrow> bool" where
  "json_claims c \<longleftrightarrow> valid_utf8 (rc_Issuer c) \<and> valid_utf8 (rc_Subject c) \<and> valid_utf8 (cl_UserID c) \<and> valid_utf8 (cl_Role c)
     \<and> json_date (rc_IssuedAt c) \<and> json_date (rc_ExpiresAt c) \<and> json_date (rc_NotBefore c)"

text \<open>
  Documented behaviour: a numeric date is cut to whole seconds; a signed token verifies, with claims that
  JSON carries; the algorithm and the claims a token decodes to are determined by the token; and a
  token is accepted exactly when its algorithm is among the valid ones, the key function gives a key
  under which the signature verifies, the issuer is the required one (an empty one is not checked),
  and the dates that are set allow the present.
\<close>

locale jwt_library =
  fixes J :: jwt
  assumes jDate_second: "0 \<le> t \<Longrightarrow> t < 2 ^ 63 \<Longrightarrow> jDate J t = t div 10 ^ 9 * 10 ^ 9"
    and jSigned_verifies: "jSigned J alg key c = Inr tok \<Longrightarrow> json_claims c \<Longrightarrow> jVerifies J alg key tok c"
    and jVerifies_unique: "jVerifies J alg key tok c \<Longrightarrow> jVerifies J alg' key' tok c' \<Longrightarrow> alg' = alg \<and> c' = c"
    and jParse_iff: "jParse J now tok kf iss algs = Some c \<longleftrightarrow>
      (\<exists>alg key. alg \<in> set algs \<and> kf alg = Some key \<and> jVerifies J alg key tok c \<and> (iss \<noteq> [] \<longrightarrow> rc_Issuer c = iss)
        \<and> (\<forall>e. rc_ExpiresAt c = Some e \<longrightarrow> now < e) \<and> (\<forall>b. rc_NotBefore c = Some b \<longrightarrow> b \<le> now))"
begin

lemma jParse_None:
  assumes "jVerifies J alg key tok c" and "rc_ExpiresAt c = Some e" and "e \<le> now"
  shows "jParse J now tok kf iss algs = None"
proof (rule ccontr)
  assume "jParse J now tok kf iss algs \<noteq> None"
  then obtain c' where "jParse J now tok kf iss algs = Some c'" by blast
  then obtain alg' key' where "jVerifies J alg' key' tok c'" "\<forall>e. rc_ExpiresAt c' = Some e \<longrightarrow> now < e"
    unfolding jParse_iff by blast
  moreover from jVerifies_unique [OF assms(1) this(1)] have "c' = c" by simp
  ultimately show False using assms(2,3) by force
qed

end

section \<open>The token manager\<close>

record TokenManager =
  tm_secret :: string
  tm_issuer :: string
  tm_expiry :: int

definition NewTokenManager :: "string \<Rightarrow> int \<Rightarrow> TokenManager" where
  "NewTokenManager secret expiry =
     (let expiry = (if expiry = 0 then 24 * 3600 * 10 ^ 9 else expiry)
      in \<lparr> tm_secret = secret, tm_issuer = Issuer, tm_expiry = expiry \<rparr>)"

datatype auth_err = SignErr string | ErrInvalid | RoleErr Role "Role list"

definition Issue :: "jwt \<Rightarrow> int \<Rightarrow> TokenManager \<Rightarrow> string \<Rightarrow> Role \<Rightarrow> auth_err + string" where
  "Issue J now m userID role =
     (let claims = \<lparr> rc_Issuer = tm_issuer m, rc_Subject = userID, rc_IssuedAt = Some (jDate J now),
            rc_ExpiresAt = Some (jDate J (now + tm_expiry m)), rc_NotBefore = None,
            cl_UserID = userID, cl_Role = role \<rparr>
      in case jSigned J ''HS256'' (tm_secret m) claims of
           Inl e \<Rightarrow> Inl (SignErr e)
         | Inr s \<Rightarrow> Inr s)"

text \<open>The key function of \<open>Verify\<close> refuses every method that is not one of the HMAC family.\<close>

definition hmac_key :: "TokenManager \<Rightarrow> string \<Rightarrow> string option" where
  "hmac_key m alg = (if alg \<in> {''HS256'', ''HS384'', ''HS512''} then Some (tm_secret m) else None)"

definition Verify :: "jwt \<Rightarrow> int \<Rightarrow> TokenManager \<Rightarrow> string \<Rightarrow> auth_err + Claims" where
  "Verify J now m token =
     (case jParse J now token (hmac_key m) (tm_issuer m) [''HS256''] of
        None \<Rightarrow> Inl ErrInvalid
      | Some claims \<Rightarrow> Inr claims)"

section \<open>Claims in a context\<close>

datatype ctxKey = ctxUserID | ctxRole

datatype ctx_val = CtxString string | CtxRole Role

type_synonym ctx = "ctxKey \<rightharpoonup> ctx_val"

definition ContextWithClaims :: "ctx \<Rightarrow> Claims \<Rightarrow> ctx" where
  "ContextWithClaims ctx c =
     (let ctx = ctx(ctxUserID \<mapsto> CtxString (cl_UserID c));
          ctx = ctx(ctxRole \<mapsto> CtxRole (cl_Role c))
      in ctx)"

definition UserIDFromContext :: "ctx \<Rightarrow> string" where
  "UserIDFromContext ctx = (case ctx ctxUserID of Some (CtxString v) \<Rightarrow> v | _ \<Rightarrow> [])"

definition RoleFromContext :: "ctx \<Rightarrow> Role" where
  "RoleFromContext ctx = (case ctx ctxRole of Some (CtxRole v) \<Rightarrow> v | _ \<Rightarrow> [])"

fun role_allowed :: "Role \<Rightarrow> Role list \<Rightarrow> bool" where
  "role_allowed r [] = False"
| "role_allowed r (allowed # roles) = (if r = allowed then True else role_allowed r roles)"

definition RequireRole :: "ctx \<Rightarrow> Role list \<Rightarrow> auth_err option" where
  "RequireRole ctx roles =
     (let r = RoleFromContext ctx in if role_allowed r roles then None else Some (RoleErr r roles))"

lemma role_allowed_iff [simp]: "role_allowed r rs \<longleftrightarrow> r \<in> set rs"
  by (induction rs) auto

lemma context_simps [simp]:
  "UserIDFromContext (ContextWithClaims ctx c) = cl_UserID c"
  "RoleFromContext (ContextWithClaims ctx c) = cl_Role c"
  "UserIDFromContext Map.empty = []" "RoleFromContext Map.empty = []"
  by (simp_all add: UserIDFromContext_def RoleFromContext_def ContextWithClaims_def)

lemma RequireRole_iff:
  "RequireRole (ContextWithClaims ctx c) roles = None \<longleftrightarrow> cl_Role c \<in> set roles"
  by (simp add: RequireRole_def Let_def)

section \<open>A reference library\<close>

text \<open>
  An implementation of the interface: the fields of a token are written with a prefix of as many
  marks as they have characters, and the key itself is the signature.
\<close>

definition fld :: "string \<Rightarrow> string" where
  "fld s = replicate (length s) (CHR ''1'') @ CHR ''0'' # s"

definition unfld :: "string \<Rightarrow> string \<times> string" where
  "unfld t = (let n = length (takeWhile ((=) (CHR ''1'')) t); r = drop (Suc n) t in (take n r, drop n r))"

lemma unfld_fld [simp]: "unfld (fld s @ r) = (s, r)"
proof -
  have "takeWhile ((=) (CHR ''1'')) (fld s @ r) = replicate (length s) (CHR ''1'')"
    by (simp add: fld_def takeWhile_append takeWhile_replicate)
  then show ?thesis by (simp add: unfld_def fld_def Let_def drop_append)
qed

fun unflds :: "nat \<Rightarrow> string \<Rightarrow> string list \<times> string" where
  "unflds 0 t = ([], t)"
| "unflds (Suc n) t = (let (s, r) = unfld t; (ss, r') = unflds n r in (s # ss, r'))"

lemma unflds_flds [simp]: "unflds (length ss) (concat (map fld ss) @ r) = (ss, r)"
  by (induction ss) simp_all

definition date_text :: "int option \<Rightarrow> string" where
  "date_text d = (case d of None \<Rightarrow> [] | Some t \<Rightarrow> show_int t)"

lemma read_date_text [simp]: "read_int (date_text d) = d"
  by (simp add: date_text_def split: option.splits)

definition ref_token :: "string \<Rightarrow> string \<Rightarrow> Claims \<Rightarrow> string" where
  "ref_token alg key c = concat (map fld [alg, key, rc_Issuer c, rc_Subject c, date_text (rc_IssuedAt c),
     date_text (rc_ExpiresAt c), date_text (rc_NotBefore c), cl_UserID c, cl_Role c])"

definition ref_read :: "string \<Rightarrow> (string \<times> string \<times> Claims) option" where
  "ref_read tok = (case unflds 9 tok of
       ([alg, key, iss, sub, iat, ex, nbf, uid, role], _) \<Rightarrow>
         (let c = \<lparr> rc_Issuer = iss, rc_Subject = sub, rc_IssuedAt = read_int iat, rc_ExpiresAt = read_int ex,
                rc_NotBefore = read_int nbf, cl_UserID = uid, cl_Role = role \<rparr>
          in if ref_token alg key c = tok then Some (alg, key, c) else None)
     | _ \<Rightarrow> None)"

lemma ref_read_token [simp]: "ref_read (ref_token alg key c) = Some (alg, key, c)"
proof -
  let ?fs = "[alg, key, rc_Issuer c, rc_Subject c, date_text (rc_IssuedAt c),
     date_text (rc_ExpiresAt c), date_text (rc_NotBefore c), cl_UserID c, cl_Role c]"
  have "length ?fs = 9" by simp
  then have "unflds 9 (ref_token alg key c) = (?fs, [])"
    using unflds_flds [of ?fs "[]"] by (simp only: ref_token_def append_Nil2)
  then show ?thesis by (cases c) (simp add: ref_read_def Let_def)
qed

lemma ref_read_Some: "ref_read tok = Some (alg, key, c) \<longleftrightarrow> tok = ref_token alg key c"
proof
  assume "ref_read tok = Some (alg, key, c)"
  then show "tok = ref_token alg key c"
    by (auto simp: ref_read_def Let_def split: list.splits prod.splits if_splits)
qed simp

lemma ref_token_inject: "ref_token alg key c = ref_token alg' key' c' \<longleftrightarrow> alg = alg' \<and> key = key' \<and> c = c'"
  by (metis ref_read_token option.inject prod.inject)

definition ref_jwt :: jwt where
  "ref_jwt = \<lparr>
     jDate = (\<lambda>t. t div 10 ^ 9 * 10 ^ 9),
     jSigned = (\<lambda>alg key c. Inr (ref_token alg key c)),
     jVerifies = (\<lambda>alg key tok c. tok = ref_token alg key c),
     jParse = (\<lambda>now tok kf iss algs. case ref_read tok of
         None \<Rightarrow> None
       | Some (alg, key, c) \<Rightarrow>
           if alg \<in> set algs \<and> kf alg = Some key \<and> (iss \<noteq> [] \<longrightarrow> rc_Issuer c = iss)
              \<and> (case rc_ExpiresAt c of None \<Rightarrow> True | Some e \<Rightarrow> now < e)
              \<and> (case rc_NotBefore c of None \<Rightarrow> True | Some b \<Rightarrow> b \<le> now)
           then Some c else None) \<rparr>"

interpretation rj: jwt_library ref_jwt
proof (unfold_locales, goal_cases)
  case (1 t) show ?case by (simp add: ref_jwt_def)
next
  case (2 alg key c tok) then show ?case by (simp add: ref_jwt_def)
next
  case (3 alg key tok c alg' key' c')
  then show ?case by (simp add: ref_jwt_def ref_token_inject)
next
  case (4 now tok kf iss algs c)
  show ?case
  proof (cases "ref_read tok")
    case None
    then show ?thesis by (auto simp: ref_jwt_def)
  next
    case (Some q)
    then obtain alg key c' where q: "q = (alg, key, c')" "tok = ref_token alg key c'"
      by (metis ref_read_Some prod_cases3)
    show ?thesis by (auto simp: ref_jwt_def q(2) ref_token_inject split: option.splits)
  qed
qed

section \<open>Issued tokens\<close>

text \<open>When a token of a manager expires, and what it can be issued for.\<close>

definition expires_at :: "int \<Rightarrow> TokenManager \<Rightarrow> int" where
  "expires_at t m = (t + tm_expiry m) div 10 ^ 9 * 10 ^ 9"

definition issue_ok :: "int \<Rightarrow> TokenManager \<Rightarrow> string \<Rightarrow> Role \<Rightarrow> bool" where
  "issue_ok t m uid role \<longleftrightarrow> 0 \<le> t \<and> t < 2 ^ 63 \<and> 0 \<le> t + tm_expiry m \<and> t + tm_expiry m < 2 ^ 63
     \<and> valid_utf8 (tm_issuer m) \<and> valid_utf8 uid \<and> valid_utf8 role"

context jwt_library
begin

lemma Verify_Inr:
  "Verify J now m tok = Inr c \<longleftrightarrow> jVerifies J ''HS256'' (tm_secret m) tok c \<and> (tm_issuer m \<noteq> [] \<longrightarrow> rc_Issuer c = tm_issuer m)
     \<and> (\<forall>e. rc_ExpiresAt c = Some e \<longrightarrow> now < e) \<and> (\<forall>b. rc_NotBefore c = Some b \<longrightarrow> b \<le> now)"
proof -
  have "Verify J now m tok = Inr c \<longleftrightarrow> jParse J now tok (hmac_key m) (tm_issuer m) [''HS256''] = Some c"
    by (simp add: Verify_def split: option.splits)
  then show ?thesis by (auto simp: jParse_iff hmac_key_def)
qed

lemma Verify_Inl: "(\<And>c. Verify J now m tok \<noteq> Inr c) \<Longrightarrow> Verify J now m tok = Inl ErrInvalid"
  by (cases "jParse J now tok (hmac_key m) (tm_issuer m) [''HS256'']") (auto simp: Verify_def)

lemma Issue_verifies:
  assumes "Issue J t m uid role = Inr tok" and "issue_ok t m uid role"
  obtains c where "jVerifies J ''HS256'' (tm_secret m) tok c" "rc_Issuer c = tm_issuer m"
    "rc_ExpiresAt c = Some (expires_at t m)" "rc_NotBefore c = None" "cl_UserID c = uid" "cl_Role c = role"
proof -
  let ?c = "\<lparr> rc_Issuer = tm_issuer m, rc_Subject = uid, rc_IssuedAt = Some (jDate J t),
     rc_ExpiresAt = Some (jDate J (t + tm_expiry m)), rc_NotBefore = None, cl_UserID = uid, cl_Role = role \<rparr>"
  have "jDate J t = t div 10 ^ 9 * 10 ^ 9" "jDate J (t + tm_expiry m) = expires_at t m"
    using assms(2) by (simp_all add: issue_ok_def expires_at_def jDate_second)
  moreover from this have "json_claims ?c"
    using assms(2) by (auto simp: json_claims_def json_date_def issue_ok_def expires_at_def)
  moreover have "jSigned J ''HS256'' (tm_secret m) ?c = Inr tok"
    using assms(1) by (simp add: Issue_def Let_def split: sum.splits)
  ultimately show thesis using jSigned_verifies by (intro that [of ?c]) simp_all
qed

lemma Issue_accepted:
  assumes "Issue J t m uid role = Inr tok" and "issue_ok t m uid role" and "now < expires_at t m"
  obtains c where "Verify J now m tok = Inr c" "cl_UserID c = uid" "cl_Role c = role"
proof -
  obtain c where c: "jVerifies J ''HS256'' (tm_secret m) tok c" "rc_Issuer c = tm_issuer m"
    "rc_ExpiresAt c = Some (expires_at t m)" "rc_NotBefore c = None" "cl_UserID c = uid" "cl_Role c = role"
    by (rule Issue_verifies [OF assms(1,2)]) (rule that)
  then have "Verify J now m tok = Inr c" using assms(3) by (simp add: Verify_Inr)
  with c(5,6) show thesis by (intro that)
qed

end

text \<open>
  C25. Tokens round trip until they expire. A token issued at time \<open>t\<close>, for a user and a role of valid UTF-8
  and with times that 64-bit nanoseconds hold, expires at \<open>t + expiry\<close> cut to the second. Up to that
  moment, and not from it on, its manager accepts it and gives back exactly the user and the role it
  was issued for, so that a role check on the request's context succeeds exactly for the lists with
  that role. From then on no manager accepts it, and a manager that requires another issuer never
  does.
\<close>

theorem Verify_Issue:
  assumes "jwt_library J" and "Issue J t m uid role = Inr tok" and "issue_ok t m uid role"
  shows "(\<forall>now < expires_at t m. \<exists>c. Verify J now m tok = Inr c \<and> cl_UserID c = uid \<and> cl_Role c = role
        \<and> (\<forall>ctx roles. RequireRole (ContextWithClaims ctx c) roles = None \<longleftrightarrow> role \<in> set roles))
    \<and> (\<forall>now m'. expires_at t m \<le> now \<or> tm_issuer m' \<noteq> [] \<and> tm_issuer m' \<noteq> tm_issuer m
        \<longrightarrow> Verify J now m' tok = Inl ErrInvalid)"
proof -
  note lib = jwt_library.Verify_Inr [OF assms(1)] jwt_library.jVerifies_unique [OF assms(1)]
  obtain c where c: "jVerifies J ''HS256'' (tm_secret m) tok c" "rc_Issuer c = tm_issuer m"
    "rc_ExpiresAt c = Some (expires_at t m)" "rc_NotBefore c = None" "cl_UserID c = uid" "cl_Role c = role"
    by (rule jwt_library.Issue_verifies [OF assms]) (rule that)
  have "\<exists>c. Verify J now m tok = Inr c \<and> cl_UserID c = uid \<and> cl_Role c = role"
    if "now < expires_at t m" for now
    by (rule jwt_library.Issue_accepted [OF assms that]) blast
  moreover have "Verify J now m' tok = Inl ErrInvalid"
    if "expires_at t m \<le> now \<or> tm_issuer m' \<noteq> [] \<and> tm_issuer m' \<noteq> tm_issuer m" for now m'
  proof (rule jwt_library.Verify_Inl [OF assms(1)], rule notI)
    fix c' assume v: "Verify J now m' tok = Inr c'"
    then have "jVerifies J ''HS256'' (tm_secret m') tok c'" by (simp add: lib(1))
    with lib(2) [OF c(1)] have "c' = c" by blast
    with v c that show False by (auto simp: lib(1))
  qed
  ultimately show ?thesis using RequireRole_iff by blast
qed

theorem Verify_Issue_witness:
  "\<exists>tok c. Issue ref_jwt 1500000000 (NewTokenManager ''k'' 0) ''user-ann'' RoleDriver = Inr tok
     \<and> Verify ref_jwt (86401 * 10 ^ 9 - 1) (NewTokenManager ''k'' 0) tok = Inr c \<and> cl_UserID c = ''user-ann''
     \<and> RequireRole (ContextWithClaims Map.empty c) [RoleDriver, RoleAdmin] = None
     \<and> RequireRole (ContextWithClaims Map.empty c) [RoleUser, RoleAdmin] \<noteq> None
     \<and> Verify ref_jwt (86401 * 10 ^ 9) (NewTokenManager ''k'' 0) tok = Inl ErrInvalid"
proof -
  obtain tok where tok: "Issue ref_jwt 1500000000 (NewTokenManager ''k'' 0) ''user-ann'' RoleDriver = Inr tok"
    by (simp add: Issue_def ref_jwt_def Let_def)
  have m: "tm_expiry (NewTokenManager ''k'' 0) = 24 * 3600 * 10 ^ 9" "tm_issuer (NewTokenManager ''k'' 0) = Issuer"
    by (simp_all add: NewTokenManager_def)
  have ok: "issue_ok 1500000000 (NewTokenManager ''k'' 0) ''user-ann'' RoleDriver"
    by (simp add: issue_ok_def m Issuer_def role_defs)
  have ex: "expires_at 1500000000 (NewTokenManager ''k'' 0) = 86401 * 10 ^ 9" by (simp add: expires_at_def m)
  note v = Verify_Issue [OF rj.jwt_library_axioms tok ok, unfolded ex]
  obtain c where "Verify ref_jwt (86401 * 10 ^ 9 - 1) (NewTokenManager ''k'' 0) tok = Inr c" "cl_UserID c = ''user-ann''"
    "\<forall>ctx roles. RequireRole (ContextWithClaims ctx c) roles = None \<longleftrightarrow> RoleDriver \<in> set roles"
    using conjunct1 [OF v, rule_format, of "86401 * 10 ^ 9 - 1"] by auto
  moreover have "Verify ref_jwt (86401 * 10 ^ 9) (NewTokenManager ''k'' 0) tok = Inl ErrInvalid"
    by (rule conjunct2 [OF v, rule_format]) simp
  ultimately show ?thesis
    using tok by (intro exI [of _ tok] exI [of _ c]) (simp add: role_defs del: not_None_eq)
qed

end
