(* ===== verification/Gateway.thy ===== *)
theory Gateway
  imports Rate Hub Auth Settings
begin

text \<open>
  \<^verbatim>\<open>internal/gateway/server.go\<close>: the HTTP API. A request is its method, path, headers, query, body and
  the data of its connection; a handler gives a response and changes the state of the gateway, which
  has the Redis server of the rate limiter, the WebSocket hub and, behind the gRPC clients, the
  services. The clients (declared as interfaces, with no implementation in the repository) are the
  parameter \<open>C\<close>, \<open>J\<close> is the JWT library, \<open>unj\<close> the reading of a JSON value from text. \<^verbatim>\<open>Routes\<close> passes the
  roles of a route to \<^verbatim>\<open>requireAuth\<close> one by one where its signature has a list; the model takes
  them as the list. Metrics are left out.
\<close>

section \<open>Requests, responses and state\<close>

record request =
  hr_Method :: string
  hr_Path :: string
  hr_Header :: "string \<Rightarrow> string"
  hr_Query :: "string \<Rightarrow> string"
  hr_Body :: payload
  hr_BodyLen :: nat
  hr_RemoteAddr :: string
  hr_PathValue :: string
  hr_Ctx :: ctx
  hr_Conn :: nat
  hr_Hijack :: bool

datatype resp_body = RJson json | RText string | Upgraded

record response =
  hp_Status :: nat
  hp_Header :: "(string \<times> string) list"
  hp_Body :: resp_body

record ('s, 'b) gworld = "'s world" +
  gw_hub :: Hub
  gw_back :: 'b

text \<open>The gRPC clients: a call gives an error text or a result.\<close>

record 'b clients =
  gc_RegisterDriver :: "string \<Rightarrow> string \<Rightarrow> string \<Rightarrow> string \<Rightarrow> string \<Rightarrow> int \<Rightarrow> float64 \<Rightarrow> float64 \<Rightarrow> 'b \<Rightarrow> (string + string \<times> string) \<times> 'b"
  gc_UpdateDriverStatus :: "string \<Rightarrow> string \<Rightarrow> 'b \<Rightarrow> (string + string \<times> string) \<times> 'b"
  gc_CreateRide :: "string \<Rightarrow> float64 \<Rightarrow> float64 \<Rightarrow> float64 \<Rightarrow> float64 \<Rightarrow> int \<Rightarrow> 'b \<Rightarrow> (string + string) \<times> 'b"
  gc_GetRide :: "string \<Rightarrow> 'b \<Rightarrow> (string + (string \<times> json) list) \<times> 'b"
  gc_CancelRide :: "string \<Rightarrow> string \<Rightarrow> string \<Rightarrow> 'b \<Rightarrow> (string + (string \<times> json) list) \<times> 'b"
  gc_UpdateLocation :: "string \<Rightarrow> float64 \<Rightarrow> float64 \<Rightarrow> int \<Rightarrow> 'b \<Rightarrow> (string + bool \<times> string \<times> string) \<times> 'b"
  gc_FindCandidates :: "float64 \<Rightarrow> float64 \<Rightarrow> float64 \<Rightarrow> int \<Rightarrow> 'b \<Rightarrow> (string + json list \<times> int \<times> int) \<times> 'b"

record Server =
  sv_cfg :: config_Config
  sv_tokens :: TokenManager

text \<open>
  The clock readings of one request, and the answer of the WebSocket library's \<^verbatim>\<open>Upgrade\<close> (\<open>None\<close>: upgraded),
  which depends on whether the response writer it is given implements \<^verbatim>\<open>http.Hijacker\<close>.
\<close>

record gclock =
  gk_rid :: string
  gk_ip :: int
  gk_verify :: int
  gk_user :: int
  gk_issue :: int
  gk_upgrade :: "bool \<Rightarrow> response option"

definition gcall :: "('b \<Rightarrow> 'a \<times> 'b) \<Rightarrow> (('s, 'b, 'm) gworld_scheme, 'a) state" where
  "gcall f = State (\<lambda>w. let (r, b) = f (gw_back w) in (r, w\<lparr>gw_back := b\<rparr>))"

section \<open>Helpers\<close>

definition writeJSON :: "nat \<Rightarrow> json \<Rightarrow> response" where
  "writeJSON code v = \<lparr> hp_Status = code, hp_Header = [(''Content-Type'', ''application/json'')], hp_Body = RJson v \<rparr>"

definition writeError :: "nat \<Rightarrow> string \<Rightarrow> string \<Rightarrow> response" where
  "writeError code errCode msg = writeJSON code (JSub [(''error'', JStr errCode), (''message'', JStr msg)])"

definition extractToken :: "request \<Rightarrow> string" where
  "extractToken r = (let h = hr_Header r ''Authorization'' in
     if HasPrefix h ''Bearer '' then drop (length ''Bearer '') h else hr_Query r ''token'')"

text \<open>\<^verbatim>\<open>strings.LastIndex\<close> of one character.\<close>

fun LastIndex :: "string \<Rightarrow> char \<Rightarrow> nat option" where
  "LastIndex [] c = None"
| "LastIndex (x # xs) c = (case LastIndex xs c of
       Some i \<Rightarrow> Some (Suc i)
     | None \<Rightarrow> if x = c then Some 0 else None)"

definition clientIP :: "request \<Rightarrow> string" where
  "clientIP r = (let xff = hr_Header r ''X-Forwarded-For'' in
     if xff \<noteq> [] then hd (Split (CHR '','') xff)
     else let host = hr_RemoteAddr r in
       case LastIndex host (CHR '':'') of
         Some i \<Rightarrow> if 0 < i then take i host else host
       | None \<Rightarrow> host)"

definition queryFloat :: "(string \<Rightarrow> json option) \<Rightarrow> request \<Rightarrow> string \<Rightarrow> float64" where
  "queryFloat unj r key = (let s = hr_Query r key in
     if s = [] then Fin 0 else case unj s of Some (JNum x) \<Rightarrow> Fin x | _ \<Rightarrow> Fin 0)"

definition queryInt :: "(string \<Rightarrow> json option) \<Rightarrow> request \<Rightarrow> string \<Rightarrow> int \<Rightarrow> int" where
  "queryInt unj r key d =
     (let s = hr_Query r key;
          v = (if s = [] then 0
               else case unj s of
                      Some (JNum x) \<Rightarrow> (case d_int 64 [(key, JNum x)] key of Some n \<Rightarrow> n | None \<Rightarrow> 0)
                    | _ \<Rightarrow> 0)
      in if v = 0 then d else v)"

text \<open>\<^verbatim>\<open>json.NewDecoder(http.MaxBytesReader(w, r.Body, 64*1024)).Decode\<close>: the object of the body, if
  it ends within the limit.\<close>

definition body_object :: "request \<Rightarrow> (string \<times> json) list option" where
  "body_object r = (case hr_Body r of
       JObj ob \<Rightarrow> if hr_BodyLen r \<le> 64 * 1024 then Some ob else None
     | JBad \<Rightarrow> None)"

definition d_obj :: "(string \<times> json) list \<Rightarrow> string \<Rightarrow> (string \<times> json) list option" where
  "d_obj ob f = (case map_of ob f of None \<Rightarrow> Some [] | Some (JSub o') \<Rightarrow> Some o' | _ \<Rightarrow> None)"

definition bad_json :: response where
  "bad_json = writeError 400 ''bad_request'' ''invalid JSON''"

section \<open>Handlers\<close>

definition handleLogin :: "jwt \<Rightarrow> gclock \<Rightarrow> Server \<Rightarrow> request \<Rightarrow> (('s, 'b, 'm) gworld_scheme, response) state" where
  "handleLogin J k sv r = State_Monad.return (
     case Option.bind (body_object r) (\<lambda>ob. do { e \<leftarrow> d_str ob ''email''; ro \<leftarrow> d_str ob ''role''; Some (e, ro) }) of
       None \<Rightarrow> bad_json
     | Some (email, role) \<Rightarrow>
         if email = [] then writeError 400 ''bad_request'' ''email is required''
         else let role = (if role \<in> {RoleUser, RoleDriver, RoleAdmin} then role else RoleUser)
              in case Issue J (gk_issue k) (sv_tokens sv) (''user-'' @ email) role of
                   Inl _ \<Rightarrow> writeError 500 ''internal'' ''could not issue token''
                 | Inr tok \<Rightarrow> writeJSON 200 (JSub [(''token'', JStr tok), (''role'', JStr role),
                     (''expires_in'', JNum (of_int (ttl_seconds (cfg_JWTExpiry (sv_cfg sv)))))]))"

definition handleRegisterDriver :: "'b clients \<Rightarrow> request \<Rightarrow> (('s, 'b, 'm) gworld_scheme, response) state" where
  "handleRegisterDriver C r =
     (case Option.bind (body_object r) (\<lambda>ob. do {
        n \<leftarrow> d_str ob ''name''; e \<leftarrow> d_str ob ''email''; la \<leftarrow> d_float ob ''lat''; lo \<leftarrow> d_float ob ''lng'';
        v \<leftarrow> d_obj ob ''vehicle''; mk \<leftarrow> d_str v ''make''; mo \<leftarrow> d_str v ''model''; pl \<leftarrow> d_str v ''plate'';
        se \<leftarrow> d_int 64 v ''seats''; Some (n, e, mk, mo, pl, se, la, lo) }) of
        None \<Rightarrow> State_Monad.return bad_json
      | Some (n, e, mk, mo, pl, se, la, lo) \<Rightarrow> do {
          x \<leftarrow> gcall (gc_RegisterDriver C n e mk mo pl se la lo);
          State_Monad.return (case x of
              Inl err \<Rightarrow> writeError 500 ''internal'' err
            | Inr (i, st) \<Rightarrow> writeJSON 201 (JSub [(''driver_id'', JStr i), (''state'', JStr st)])) })"

definition gw_handleDriverStatus :: "'b clients \<Rightarrow> request \<Rightarrow> (('s, 'b, 'm) gworld_scheme, response) state" where
  "gw_handleDriverStatus C r =
     (case Option.bind (body_object r) (\<lambda>ob. d_str ob ''state'') of
        None \<Rightarrow> State_Monad.return bad_json
      | Some st \<Rightarrow> do {
          x \<leftarrow> gcall (gc_UpdateDriverStatus C (hr_PathValue r) st);
          State_Monad.return (case x of
              Inl err \<Rightarrow> writeError 422 ''invalid_transition'' err
            | Inr (prev, cur) \<Rightarrow> writeJSON 200 (JSub [(''previous'', JStr prev), (''current'', JStr cur)])) })"

definition gw_handleDriverLocation :: "'b clients \<Rightarrow> request \<Rightarrow> (('s, 'b, 'm) gworld_scheme, response) state" where
  "gw_handleDriverLocation C r =
     (case Option.bind (body_object r) (\<lambda>ob. do {
        la \<leftarrow> d_float ob ''lat''; lo \<leftarrow> d_float ob ''lng''; sq \<leftarrow> d_int 64 ob ''seq''; Some (la, lo, sq) }) of
        None \<Rightarrow> State_Monad.return bad_json
      | Some (la, lo, sq) \<Rightarrow> do {
          x \<leftarrow> gcall (gc_UpdateLocation C (hr_PathValue r) la lo sq);
          State_Monad.return (case x of
              Inl err \<Rightarrow> writeError 500 ''internal'' err
            | Inr (accepted, cell, reason) \<Rightarrow>
                if \<not> accepted then writeJSON 409 (JSub [(''accepted'', JBool False), (''reason'', JStr reason)])
                else writeJSON 200 (JSub [(''accepted'', JBool True), (''h3_cell'', JStr cell)])) })"

definition handleCreateRide :: "'b clients \<Rightarrow> request \<Rightarrow> (('s, 'b, 'm) gworld_scheme, response) state" where
  "handleCreateRide C r =
     (let userID = UserIDFromContext (hr_Ctx r)
      in case Option.bind (body_object r) (\<lambda>ob. do {
           pa \<leftarrow> d_float ob ''pickup_lat''; pn \<leftarrow> d_float ob ''pickup_lng''; da \<leftarrow> d_float ob ''dropoff_lat'';
           dn \<leftarrow> d_float ob ''dropoff_lng''; ra \<leftarrow> d_int 64 ob ''radius_m''; Some (pa, pn, da, dn, ra) }) of
           None \<Rightarrow> State_Monad.return bad_json
         | Some (pa, pn, da, dn, ra) \<Rightarrow> do {
             x \<leftarrow> gcall (gc_CreateRide C userID pa pn da dn ra);
             State_Monad.return (case x of
                 Inl err \<Rightarrow> writeError 500 ''internal'' err
               | Inr i \<Rightarrow> writeJSON 201 (JSub [(''ride_id'', JStr i), (''state'', JStr ''REQUESTED''),
                   (''message'', JStr ''ride requested; dispatch engine will assign a driver'')])) })"

definition handleGetRide :: "'b clients \<Rightarrow> request \<Rightarrow> (('s, 'b, 'm) gworld_scheme, response) state" where
  "handleGetRide C r = do {
     x \<leftarrow> gcall (gc_GetRide C (hr_PathValue r));
     State_Monad.return (case x of
         Inl _ \<Rightarrow> writeError 404 ''not_found'' ''ride not found''
       | Inr ride \<Rightarrow> writeJSON 200 (JSub ride)) }"

definition handleCancelRide :: "'b clients \<Rightarrow> request \<Rightarrow> (('s, 'b, 'm) gworld_scheme, response) state" where
  "handleCancelRide C r =
     (let userID = UserIDFromContext (hr_Ctx r);
          reason = (case Option.bind (body_object r) (\<lambda>ob. d_str ob ''reason'') of Some s \<Rightarrow> s | None \<Rightarrow> [])
      in do {
        x \<leftarrow> gcall (gc_CancelRide C (hr_PathValue r) userID reason);
        State_Monad.return (case x of
            Inl err \<Rightarrow> writeError 422 ''cannot_cancel'' err
          | Inr ride \<Rightarrow> writeJSON 200 (JSub ride)) })"

definition handleNearbyDrivers ::
  "(string \<Rightarrow> json option) \<Rightarrow> 'b clients \<Rightarrow> request \<Rightarrow> (('s, 'b, 'm) gworld_scheme, response) state" where
  "handleNearbyDrivers unj C r =
     (let lat = queryFloat unj r ''lat''; lng = queryFloat unj r ''lng'';
          radius = queryInt unj r ''radius_m'' 1000; mx = queryInt unj r ''limit'' 20
      in do {
        x \<leftarrow> gcall (gc_FindCandidates C lat lng (Fin (of_int radius)) mx);
        State_Monad.return (case x of
            Inl err \<Rightarrow> writeError 500 ''internal'' err
          | Inr (cands, cells, tookNs) \<Rightarrow> writeJSON 200 (JSub [(''candidates'', JArr cands),
              (''cells_searched'', JNum (of_int cells)), (''took_ns'', JNum (of_int tookNs))])) })"

definition handleWS :: "gclock \<Rightarrow> request \<Rightarrow> (('s, 'b, 'm) gworld_scheme, response) state" where
  "handleWS k r =
     (let user = UserIDFromContext (hr_Ctx r); role = RoleFromContext (hr_Ctx r)
      in case gk_upgrade k (hr_Hijack r) of
           Some resp \<Rightarrow> State_Monad.return resp
         | None \<Rightarrow> State (\<lambda>w. (\<lparr> hp_Status = 101, hp_Header = [], hp_Body = Upgraded \<rparr>,
             w\<lparr>gw_hub := ServeWS (hr_Conn r) user role (gw_hub w)\<rparr>)))"

definition handleHealth :: "request \<Rightarrow> (('s, 'b, 'm) gworld_scheme, response) state" where
  "handleHealth r = State_Monad.return (writeJSON 200 (JSub [(''status'', JStr ''ok''), (''service'', JStr ''gateway'')]))"

definition Ping :: "(('s, 'm) world_scheme, rerr + unit) state" where
  "Ping = rread (\<lambda>_. Inr ())"

definition handleReady :: "request \<Rightarrow> (('s, 'b, 'm) gworld_scheme, response) state" where
  "handleReady r = do {
     x \<leftarrow> Ping;
     State_Monad.return (case x of
         Inl _ \<Rightarrow> writeError 503 ''not_ready'' ''redis unavailable''
       | Inr _ \<Rightarrow> writeJSON 200 (JSub [(''status'', JStr ''ready'')])) }"

definition not_found :: response where
  "not_found = \<lparr> hp_Status = 404, hp_Header = [(''Content-Type'', ''text/plain; charset=utf-8'')],
     hp_Body = RText ''404 page not found'' \<rparr>"

definition handleMetrics :: "request \<Rightarrow> (('s, 'b, 'm) gworld_scheme, response) state" where
  "handleMetrics r = State_Monad.return not_found"

section \<open>Authentication, routes and middleware\<close>

definition rate_limited :: "go_err + bool \<Rightarrow> bool" where
  "rate_limited x = (x = Inr False)"

definition requireAuth ::
  "'s redis \<Rightarrow> jwt \<Rightarrow> gclock \<Rightarrow> Server \<Rightarrow> Role list \<Rightarrow> (request \<Rightarrow> (('s, 'b, 'm) gworld_scheme, response) state)
   \<Rightarrow> request \<Rightarrow> (('s, 'b, 'm) gworld_scheme, response) state" where
  "requireAuth R J k sv roles nxt r =
     (let tok = extractToken r
      in if tok = [] then State_Monad.return (writeError 401 ''missing_token'' ''Authorization: Bearer <token> required'')
         else case Verify J (gk_verify k) (sv_tokens sv) tok of
           Inl _ \<Rightarrow> State_Monad.return (writeError 401 ''invalid_token'' ''token verification failed'')
         | Inr claims \<Rightarrow>
             if RequireRole (ContextWithClaims (hr_Ctx r) claims) roles \<noteq> None
             then State_Monad.return (writeError 403 ''forbidden'' ''insufficient role'')
             else do {
               x \<leftarrow> RateAllow R (gk_user k) ''user'' (cl_UserID claims) (cfg_UserRateCapacity (sv_cfg sv))
                      (cfg_UserRateRefill (sv_cfg sv)) 1;
               if rate_limited x
               then State_Monad.return (writeError 429 ''rate_limited'' ''user rate limit exceeded'')
               else nxt (r\<lparr>hr_Ctx := ContextWithClaims (hr_Ctx r) claims\<rparr>) })"

text \<open>
  The patterns of the mux: a segment of the path is literal or the wildcard \<^verbatim>\<open>{id}\<close>, which takes any
  segment that is not empty. A pattern for \<^verbatim>\<open>GET\<close> also takes \<^verbatim>\<open>HEAD\<close>; a path that only patterns of
  other methods take is answered with 405, and one that none takes with 404.
\<close>

datatype seg = Lit string | Wild

record ('s, 'b, 'm) route =
  rt_Method :: string
  rt_Pattern :: "seg list"
  rt_Roles :: "Role list option"
  rt_Handler :: "request \<Rightarrow> (('s, 'b, 'm) gworld_scheme, response) state"

fun match_segs :: "seg list \<Rightarrow> string list \<Rightarrow> string option" where
  "match_segs [] [] = Some []"
| "match_segs (Lit s # ps) (x # xs) = (if x = s then match_segs ps xs else None)"
| "match_segs (Wild # ps) (x # xs) = (if x = [] then None else map_option (\<lambda>_. x) (match_segs ps xs))"
| "match_segs _ _ = None"

definition api :: "seg list \<Rightarrow> seg list" where
  "api ps = Lit [] # Lit ''api'' # Lit ''v1'' # ps"

text \<open>
  The table of routes. In the source the calls of \<^verbatim>\<open>requireAuth\<close> pass the roles one by one although it
  takes a slice, so that this function does not compile as it stands; the model has the lists of roles
  that the calls name. The properties below are about \<^verbatim>\<open>middleware\<close>, \<^verbatim>\<open>requireAuth\<close> and the handlers, for any
  list of roles.
\<close>

definition Routes ::
  "(string \<Rightarrow> json option) \<Rightarrow> jwt \<Rightarrow> 'b clients \<Rightarrow> gclock \<Rightarrow> Server \<Rightarrow> ('s, 'b, 'm) route list" where
  "Routes unj J C k sv = [
     \<lparr> rt_Method = ''POST'', rt_Pattern = api [Lit ''auth'', Lit ''login''], rt_Roles = None, rt_Handler = handleLogin J k sv \<rparr>,
     \<lparr> rt_Method = ''GET'', rt_Pattern = [Lit [], Lit ''health''], rt_Roles = None, rt_Handler = handleHealth \<rparr>,
     \<lparr> rt_Method = ''GET'', rt_Pattern = [Lit [], Lit ''ready''], rt_Roles = None, rt_Handler = handleReady \<rparr>,
     \<lparr> rt_Method = ''GET'', rt_Pattern = [Lit [], Lit ''metrics''], rt_Roles = None, rt_Handler = handleMetrics \<rparr>,
     \<lparr> rt_Method = ''POST'', rt_Pattern = api [Lit ''drivers''], rt_Roles = Some [RoleDriver, RoleAdmin],
       rt_Handler = handleRegisterDriver C \<rparr>,
     \<lparr> rt_Method = ''PATCH'', rt_Pattern = api [Lit ''drivers'', Wild, Lit ''status''], rt_Roles = Some [RoleDriver, RoleAdmin],
       rt_Handler = gw_handleDriverStatus C \<rparr>,
     \<lparr> rt_Method = ''POST'', rt_Pattern = api [Lit ''drivers'', Wild, Lit ''location''], rt_Roles = Some [RoleDriver, RoleAdmin],
       rt_Handler = gw_handleDriverLocation C \<rparr>,
     \<lparr> rt_Method = ''POST'', rt_Pattern = api [Lit ''rides''], rt_Roles = Some [RoleUser, RoleAdmin],
       rt_Handler = handleCreateRide C \<rparr>,
     \<lparr> rt_Method = ''GET'', rt_Pattern = api [Lit ''rides'', Wild], rt_Roles = Some [RoleUser, RoleAdmin],
       rt_Handler = handleGetRide C \<rparr>,
     \<lparr> rt_Method = ''POST'', rt_Pattern = api [Lit ''rides'', Wild, Lit ''cancel''], rt_Roles = Some [RoleUser, RoleAdmin],
       rt_Handler = handleCancelRide C \<rparr>,
     \<lparr> rt_Method = ''GET'', rt_Pattern = api [Lit ''drivers'', Lit ''nearby''], rt_Roles = Some [RoleUser, RoleAdmin],
       rt_Handler = handleNearbyDrivers unj C \<rparr>,
     \<lparr> rt_Method = ''GET'', rt_Pattern = api [Lit ''ws''], rt_Roles = Some [RoleUser, RoleDriver, RoleAdmin],
       rt_Handler = handleWS k \<rparr>]"

definition path_match :: "('s, 'b, 'm) route \<Rightarrow> request \<Rightarrow> string option" where
  "path_match rt r = match_segs (rt_Pattern rt) (Split (CHR ''/'') (hr_Path r))"

definition takes :: "request \<Rightarrow> ('s, 'b, 'm) route \<Rightarrow> bool" where
  "takes r rt \<longleftrightarrow> path_match rt r \<noteq> None
     \<and> (rt_Method rt = hr_Method r \<or> rt_Method rt = ''GET'' \<and> hr_Method r = ''HEAD'')"

definition mux ::
  "'s redis \<Rightarrow> jwt \<Rightarrow> gclock \<Rightarrow> Server \<Rightarrow> ('s, 'b, 'm) route list \<Rightarrow> request \<Rightarrow> (('s, 'b, 'm) gworld_scheme, response) state" where
  "mux R J k sv rts r =
     (case List.find (takes r) rts of
        Some rt \<Rightarrow>
          (let r = r\<lparr>hr_PathValue := the (path_match rt r)\<rparr>
           in case rt_Roles rt of
                None \<Rightarrow> rt_Handler rt r
              | Some roles \<Rightarrow> requireAuth R J k sv roles (rt_Handler rt) r)
      | None \<Rightarrow> State_Monad.return
          (if \<exists>rt \<in> set rts. path_match rt r \<noteq> None
           then \<lparr> hp_Status = 405, hp_Header = [(''Content-Type'', ''text/plain; charset=utf-8'')],
                  hp_Body = RText ''Method Not Allowed'' \<rparr>
           else not_found))"

definition secure_headers :: "string \<Rightarrow> (string \<times> string) list" where
  "secure_headers rid = [(''X-Request-Id'', rid), (''X-Content-Type-Options'', ''nosniff''),
     (''X-Frame-Options'', ''DENY''),
     (''Content-Security-Policy'', ''default-src '' @ [CHR 0x27] @ ''none'' @ [CHR 0x27])]"

text \<open>
  The \<^verbatim>\<open>statusWriter\<close> that the handlers get embeds the interface \<^verbatim>\<open>http.ResponseWriter\<close> and so has none
  of the writer's other methods: behind the middleware a connection cannot be hijacked.
\<close>

definition middleware ::
  "'s redis \<Rightarrow> gclock \<Rightarrow> Server \<Rightarrow> (request \<Rightarrow> (('s, 'b, 'm) gworld_scheme, response) state)
   \<Rightarrow> request \<Rightarrow> (('s, 'b, 'm) gworld_scheme, response) state" where
  "middleware R k sv nxt r =
     (let rid = (if hr_Header r ''X-Request-Id'' = [] then ''req-'' @ gk_rid k else hr_Header r ''X-Request-Id'');
          r = r\<lparr>hr_Header := (hr_Header r)(''X-Request-Id'' := rid)\<rparr>;
          rw = r\<lparr>hr_Hijack := False\<rparr>;
          out = (\<lambda>p :: response. p\<lparr>hp_Header := secure_headers rid @ hp_Header p\<rparr>)
      in do {
        x \<leftarrow> (if hr_Path r \<noteq> ''/health'' \<and> hr_Path r \<noteq> ''/metrics''
              then RateAllow R (gk_ip k) ''ip'' (clientIP r) (cfg_IPRateCapacity (sv_cfg sv)) (cfg_IPRateRefill (sv_cfg sv)) 1
              else State_Monad.return (Inr True));
        if rate_limited x
        then State_Monad.return (out (writeError 429 ''rate_limited'' ''too many requests''))
        else do { p \<leftarrow> nxt rw; State_Monad.return (out p) } })"

definition serve ::
  "'s redis \<Rightarrow> (string \<Rightarrow> json option) \<Rightarrow> jwt \<Rightarrow> 'b clients \<Rightarrow> gclock \<Rightarrow> Server \<Rightarrow> request
   \<Rightarrow> (('s, 'b, 'm) gworld_scheme, response) state" where
  "serve R unj J C k sv = middleware R k sv (mux R J k sv (Routes unj J C k sv))"

section \<open>Frames\<close>

definition same_back :: "('s, 'b, 'm) gworld_scheme \<Rightarrow> ('s, 'b, 'm) gworld_scheme \<Rightarrow> bool" where
  "same_back w w' \<longleftrightarrow> gw_back w' = gw_back w \<and> gw_hub w' = gw_hub w"

lemma same_back_refl [simp]: "same_back w w"
  by (simp add: same_back_def)

lemma same_back_trans: "same_back w w1 \<Longrightarrow> same_back w1 w2 \<Longrightarrow> same_back w w2"
  by (simp add: same_back_def)

lemma rdo_same_back [simp]: "same_back w (snd (run_state (rdo cmd) w))"
  by (cases "fates w"; cases "hd (fates w)") (simp_all add: same_back_def rdo_def split_beta Let_def)

lemma rread_same_back [simp]: "same_back w (snd (run_state (rread cmd) w))"
  by (simp add: rread_def)

lemma RateAllow_lost:
  "fates w = LostBefore # fs \<Longrightarrow> run_state (RateAllow R now scope i cap refill n) w = (Inl (ERedis Unreachable), w\<lparr>fates := fs\<rparr>)"
  by (simp add: RateAllow_def rdo_def Let_def split_beta)

lemma RateAllow_same_back [simp]: "same_back w (snd (run_state (RateAllow R now scope i cap refill n) w))"
  by (simp add: RateAllow_def split_beta)

lemma public_same_back:
  assumes "rt \<in> set (Routes unj J C k sv)" and "rt_Roles rt = None"
  shows "same_back w (snd (run_state (rt_Handler rt r) w))"
  using assms
  by (auto simp: Routes_def handleLogin_def handleHealth_def handleReady_def Ping_def handleMetrics_def split_beta)

lemma request_simps [simp]:
  "extractToken (r\<lparr>hr_Header := (hr_Header r)(''X-Request-Id'' := rid)\<rparr>) = extractToken r"
  "extractToken (r\<lparr>hr_PathValue := v\<rparr>) = extractToken r" "extractToken (r\<lparr>hr_Hijack := b\<rparr>) = extractToken r"
  "takes (r\<lparr>hr_Header := h\<rparr>) = takes r" "takes (r\<lparr>hr_Hijack := b\<rparr>) = takes r"
  "clientIP (r\<lparr>hr_Header := (hr_Header r)(''X-Request-Id'' := rid)\<rparr>) = clientIP r"
  by (simp_all add: clientIP_def extractToken_def takes_def path_match_def fun_eq_iff Let_def)

lemma middleware_cases:
  assumes "run_state (middleware R k sv nxt r) w = (p, w')"
  obtains (limited) "same_back w w'" "hp_Status p = 429"
  | (served) w1 p1 rid where "same_back w w1" "hp_Status p = hp_Status p1"
      "run_state (nxt (r\<lparr>hr_Header := (hr_Header r)(''X-Request-Id'' := rid), hr_Hijack := False\<rparr>)) w1 = (p1, w')"
proof -
  let ?rid = "if hr_Header r ''X-Request-Id'' = [] then ''req-'' @ gk_rid k else hr_Header r ''X-Request-Id''"
  let ?r = "r\<lparr>hr_Header := (hr_Header r)(''X-Request-Id'' := ?rid)\<rparr>"
  let ?m = "if hr_Path ?r \<noteq> ''/health'' \<and> hr_Path ?r \<noteq> ''/metrics''
     then RateAllow R (gk_ip k) ''ip'' (clientIP ?r) (cfg_IPRateCapacity (sv_cfg sv)) (cfg_IPRateRefill (sv_cfg sv)) 1
     else State_Monad.return (Inr True)"
  obtain x w1 where x: "run_state ?m w = (x, w1)" by fastforce
  have "same_back w (snd (run_state ?m w))" by simp
  with x have w1: "same_back w w1" by simp
  obtain p1 w2 where p1: "run_state (nxt (?r\<lparr>hr_Hijack := False\<rparr>)) w1 = (p1, w2)" by fastforce
  show thesis
  proof (cases "rate_limited x")
    case True
    with assms x have "w' = w1" "hp_Status p = 429"
      by (auto simp: middleware_def Let_def writeError_def writeJSON_def)
    with w1 limited show thesis by simp
  next
    case False
    with assms x p1 have "w' = w2" "hp_Status p = hp_Status p1"
      by (auto simp: middleware_def Let_def)
    with w1 p1 served show thesis by simp
  qed
qed

lemma requireAuth_cases:
  assumes "run_state (requireAuth R J k sv roles nxt r) w = (p, w')"
  obtains (limited) "same_back w w'" "hp_Status p = 429"
  | (refused) "same_back w w'" "hp_Status p \<in> {401, 403}"
      "\<nexists>c. extractToken r \<noteq> [] \<and> Verify J (gk_verify k) (sv_tokens sv) (extractToken r) = Inr c \<and> cl_Role c \<in> set roles"
  | (granted) c w1 where "Verify J (gk_verify k) (sv_tokens sv) (extractToken r) = Inr c" "extractToken r \<noteq> []"
      "cl_Role c \<in> set roles" "same_back w w1"
      "run_state (nxt (r\<lparr>hr_Ctx := ContextWithClaims (hr_Ctx r) c\<rparr>)) w1 = (p, w')"
proof (cases "extractToken r = [] \<or> (\<exists>e. Verify J (gk_verify k) (sv_tokens sv) (extractToken r) = Inl e)")
  case True
  with assms show thesis
    by (intro refused) (auto simp: requireAuth_def Let_def writeError_def writeJSON_def split: if_splits)
next
  case False
  then obtain c where c: "extractToken r \<noteq> []" "Verify J (gk_verify k) (sv_tokens sv) (extractToken r) = Inr c"
    by (metis old.sum.exhaust)
  let ?m = "RateAllow R (gk_user k) ''user'' (cl_UserID c) (cfg_UserRateCapacity (sv_cfg sv)) (cfg_UserRateRefill (sv_cfg sv)) 1"
  obtain x w1 where x: "run_state ?m w = (x, w1)" by fastforce
  have "same_back w (snd (run_state ?m w))" by simp
  with x have w1: "same_back w w1" by simp
  show thesis
  proof (cases "cl_Role c \<in> set roles")
    case False
    with assms c show thesis
      by (intro refused) (auto simp: requireAuth_def RequireRole_iff Let_def writeError_def writeJSON_def)
  next
    case True
    show thesis
    proof (cases "rate_limited x")
      case lim: True
      with assms c x w1 True show thesis
        by (intro limited) (auto simp: requireAuth_def RequireRole_iff Let_def writeError_def writeJSON_def)
    next
      case False
      with assms c x True have "run_state (nxt (r\<lparr>hr_Ctx := ContextWithClaims (hr_Ctx r) c\<rparr>)) w1 = (p, w')"
        by (simp add: requireAuth_def RequireRole_iff Let_def)
      with c(1,2) True w1 show thesis by (intro granted)
    qed
  qed
qed

section \<open>Properties\<close>

text \<open>The handler ran on the request as it came, with the identity \<open>uid\<close> and \<open>role\<close> in its context.\<close>

definition handled ::
  "(request \<Rightarrow> (('s, 'b, 'm) gworld_scheme, response) state) \<Rightarrow> request \<Rightarrow> string \<Rightarrow> Role
   \<Rightarrow> ('s, 'b, 'm) gworld_scheme \<Rightarrow> response \<Rightarrow> ('s, 'b, 'm) gworld_scheme \<Rightarrow> bool" where
  "handled nxt r uid role w p w' \<longleftrightarrow> (\<exists>w1 p1 rq. same_back w w1 \<and> run_state (nxt rq) w1 = (p1, w') \<and> hp_Status p = hp_Status p1
     \<and> UserIDFromContext (hr_Ctx rq) = uid \<and> RoleFromContext (hr_Ctx rq) = role
     \<and> hr_Method rq = hr_Method r \<and> hr_Path rq = hr_Path r \<and> hr_PathValue rq = hr_PathValue r
     \<and> hr_Query rq = hr_Query r \<and> hr_Body rq = hr_Body r \<and> hr_BodyLen rq = hr_BodyLen r)"

lemma protected_cases:
  fixes w w' :: "('s, 'b, 'm) gworld_scheme"
  assumes "run_state (middleware R k sv (requireAuth R J k sv roles nxt) r) w = (p, w')"
  obtains (limited) "same_back w w'" "hp_Status p = 429"
  | (refused) "same_back w w'" "hp_Status p \<in> {401, 403}"
      "\<nexists>c. extractToken r \<noteq> [] \<and> Verify J (gk_verify k) (sv_tokens sv) (extractToken r) = Inr c \<and> cl_Role c \<in> set roles"
  | (granted) c where "Verify J (gk_verify k) (sv_tokens sv) (extractToken r) = Inr c" "cl_Role c \<in> set roles"
      "handled nxt r (cl_UserID c) (cl_Role c) w p w'"
  using assms
proof (cases rule: middleware_cases)
  case lim: limited
  then show thesis by (rule limited)
next
  case (served w1 p1 rid)
  let ?r = "r\<lparr>hr_Header := (hr_Header r)(''X-Request-Id'' := rid), hr_Hijack := False\<rparr>"
  from served(3) show thesis
  proof (cases rule: requireAuth_cases)
    case lim: limited
    then show thesis using same_back_trans [OF served(1)] served(2) by (intro limited) simp_all
  next
    case ref: refused
    then show thesis using same_back_trans [OF served(1)] served(2) by (intro refused) simp_all
  next
    case (granted c w2)
    then have "handled nxt r (cl_UserID c) (cl_Role c) w p w'"
      using same_back_trans [OF served(1) granted(4)] served(2)
      unfolding handled_def
      by (intro exI [of _ w2] exI [of _ p1] exI [of _ "?r\<lparr>hr_Ctx := ContextWithClaims (hr_Ctx ?r) c\<rparr>"]) simp
    with granted that(3) show thesis by simp
  qed
qed

text \<open>
  C15. Authorization. Behind the middleware, and around any handler and any list of roles, \<^verbatim>\<open>requireAuth\<close> lets a
  request reach the handler only with a token whose HS256 signature verifies under the server's secret,
  of the server's issuer, not expired, and with one of the roles; the handler then sees exactly the
  user and the role of the token, and the request is otherwise the one that came. Every other request
  is answered with 401, 403 or 429 and changes nothing behind the gateway (services and WebSocket hub).
  Conversely, a token that the server issued to a user for one of the roles and that has not expired is
  let through as this user, unless one of the rate limits answers 429.
\<close>

theorem gateway_authorization:
  fixes w w' :: "('s, 'b, 'm) gworld_scheme"
  assumes "jwt_library J" and "run_state (middleware R k sv (requireAuth R J k sv roles nxt) r) w = (p, w')"
  shows "(same_back w w' \<and> hp_Status p \<in> {401, 403, 429}
      \<or> (\<exists>c. jVerifies J ''HS256'' (tm_secret (sv_tokens sv)) (extractToken r) c
          \<and> (tm_issuer (sv_tokens sv) \<noteq> [] \<longrightarrow> rc_Issuer c = tm_issuer (sv_tokens sv))
          \<and> (\<forall>e. rc_ExpiresAt c = Some e \<longrightarrow> gk_verify k < e) \<and> cl_Role c \<in> set roles
          \<and> handled nxt r (cl_UserID c) (cl_Role c) w p w'))
    \<and> (\<forall>t uid role. Issue J t (sv_tokens sv) uid role = Inr (extractToken r) \<and> issue_ok t (sv_tokens sv) uid role
          \<and> extractToken r \<noteq> [] \<and> gk_verify k < expires_at t (sv_tokens sv) \<and> role \<in> set roles
        \<longrightarrow> same_back w w' \<and> hp_Status p = 429 \<or> handled nxt r uid role w p w')"
proof -
  have issued: "\<exists>c. Verify J (gk_verify k) (sv_tokens sv) (extractToken r) = Inr c \<and> cl_UserID c = uid \<and> cl_Role c = role"
    if "Issue J t (sv_tokens sv) uid role = Inr (extractToken r)" "issue_ok t (sv_tokens sv) uid role" "gk_verify k < expires_at t (sv_tokens sv)"
    for t uid role
    by (rule jwt_library.Issue_accepted [OF assms(1) that]) blast
  from assms(2) show ?thesis
  proof (cases rule: protected_cases)
    case limited
    then show ?thesis by simp
  next
    case refused
    then show ?thesis using issued by blast
  next
    case (granted c)
    then show ?thesis
      using jwt_library.Verify_Inr [OF assms(1), of "gk_verify k" "sv_tokens sv" "extractToken r" c] issued by fastforce
  qed
qed

text \<open>
  The mux sends a request to the route it takes. For the table of \<open>Routes\<close> this gives: a request changes
  something behind the gateway only on a protected route, with an accepted token of one of its roles.
\<close>

lemma serve_authorization:
  fixes w w' :: "('s, 'b, 'm) gworld_scheme"
  assumes "run_state (serve R unj J C k sv r) w = (p, w')" and "\<not> same_back w w'"
  obtains rt :: "('s, 'b, 'm) route" and rs c where "List.find (takes r) (Routes unj J C k sv) = Some rt" "rt_Roles rt = Some rs"
    "Verify J (gk_verify k) (sv_tokens sv) (extractToken r) = Inr c" "cl_Role c \<in> set rs"
  using assms(1) unfolding serve_def
proof (cases rule: middleware_cases)
  case limited
  then show thesis using assms(2) by simp
next
  case (served w1 p1 rid)
  let ?r = "r\<lparr>hr_Header := (hr_Header r)(''X-Request-Id'' := rid), hr_Hijack := False\<rparr>"
  let ?rts = "Routes unj J C k sv :: ('s, 'b, 'm) route list"
  show thesis
  proof (cases "List.find (takes r) ?rts")
    case None
    then have "w' = w1" using served(3) by (simp add: mux_def)
    then show thesis using served(1) assms(2) by simp
  next
    case (Some rt)
    then have rt: "rt \<in> set ?rts" by (auto simp: find_Some_iff)
    show thesis
    proof (cases "rt_Roles rt")
      case None
      then have "same_back w1 w'"
        using served(3) Some public_same_back [OF rt None, of w1 "?r\<lparr>hr_PathValue := the (path_match rt ?r)\<rparr>"]
        by (simp add: mux_def Let_def)
      then show thesis using same_back_trans [OF served(1)] assms(2) by simp
    next
      case roles: (Some rs)
      have "run_state (requireAuth R J k sv rs (rt_Handler rt) (?r\<lparr>hr_PathValue := the (path_match rt ?r)\<rparr>)) w1 = (p1, w')"
        using served(3) Some roles by (simp add: mux_def Let_def)
      then show thesis
      proof (cases rule: requireAuth_cases)
        case limited
        then show thesis using same_back_trans [OF served(1)] assms(2) by simp
      next
        case refused
        then show thesis using same_back_trans [OF served(1)] assms(2) by simp
      next
        case (granted c w2)
        then show thesis using that [OF Some roles, of c] by simp
      qed
    qed
  qed
qed

text \<open>
  C31. No WebSocket client can connect. The upgrade needs to take over the connection (\<^verbatim>\<open>http.Hijacker\<close>), and the
  middleware hands the handlers a \<^verbatim>\<open>statusWriter\<close>, which hides that method of the server's writer. So
  whenever the library refuses a writer that cannot be hijacked, as it documents, every request to
  \<^verbatim>\<open>handleWS\<close> behind the middleware leaves the hub and the services as they are and is answered with the
  library's error, or is refused before; without the middleware the same request can join the hub.
\<close>

theorem websocket_never_upgrades:
  fixes w w' :: "('s, 'b, 'm) gworld_scheme"
  assumes "gk_upgrade k False = Some resp"
    and "run_state (middleware R k sv (requireAuth R J k sv roles (handleWS k)) r) w = (p, w')"
  shows "same_back w w' \<and> hp_Status p \<in> {401, 403, 429, hp_Status resp}
    \<and> (gk_upgrade k True = None \<longrightarrow> (\<forall>rq v. hr_Hijack rq \<longrightarrow>
        gw_hub (snd (run_state (handleWS k rq) v)) = ServeWS (hr_Conn rq) (UserIDFromContext (hr_Ctx rq)) (RoleFromContext (hr_Ctx rq)) (gw_hub (v :: ('s, 'b, 'm) gworld_scheme))))"
proof -
  have "same_back w w' \<and> hp_Status p \<in> {401, 403, 429, hp_Status resp}"
    using assms(2)
  proof (cases rule: middleware_cases)
    case limited
    then show ?thesis by simp
  next
    case (served w1 p1 rid)
    from served(3) show ?thesis
    proof (cases rule: requireAuth_cases)
      case limited
      then show ?thesis using same_back_trans [OF served(1)] served(2) by auto
    next
      case refused
      then show ?thesis using same_back_trans [OF served(1)] served(2) by auto
    next
      case (granted c w2)
      then have "w' = w2" "p1 = resp" using assms(1) by (simp_all add: handleWS_def Let_def)
      then show ?thesis using same_back_trans [OF served(1) granted(4)] served(2) by simp
    qed
  qed
  then show ?thesis by (simp add: handleWS_def Let_def)
qed

lemma mux_login:
  assumes "hr_Method r = ''POST''" and "hr_Path r = ''/api/v1/auth/login''"
  shows "mux R J k sv (Routes unj J C k sv :: ('s, 'b, 'm) route list) r = handleLogin J k sv (r\<lparr>hr_PathValue := []\<rparr>)"
proof -
  have "path_match rt r = Some []" if "rt_Pattern rt = api [Lit ''auth'', Lit ''login'']"
    for rt :: "('s, 'b, 'm) route"
    using that assms(2) by (simp add: path_match_def api_def)
  then show ?thesis using assms(1) by (simp add: mux_def Routes_def takes_def)
qed

text \<open>
  Login checks nothing: whoever posts a mail address and a known role gets a token for it. When the
  IP limiter lets the request through, the answer to a login as \<^verbatim>\<open>ADMIN\<close> is 200 with a token that the
  same server accepts as an administrator's until it expires, on every protected route.
\<close>

theorem login_grants_any_role:
  assumes "jwt_library J" and "hr_Method r = ''POST''" and "hr_Path r = ''/api/v1/auth/login''"
    and "hr_Body r = JObj ob" and "hr_BodyLen r \<le> 64 * 1024" and "d_str ob ''email'' = Some email" and "email \<noteq> []"
    and "d_str ob ''role'' = Some role" and "role \<in> {RoleUser, RoleDriver, RoleAdmin}"
    and "Issue J (gk_issue k) (sv_tokens sv) (''user-'' @ email) role = Inr tok"
    and "issue_ok (gk_issue k) (sv_tokens sv) (''user-'' @ email) role"
    and "run_state (RateAllow R (gk_ip k) ''ip'' (clientIP r) (cfg_IPRateCapacity (sv_cfg sv))
           (cfg_IPRateRefill (sv_cfg sv)) 1) w = (Inr True, w1)"
  shows "\<exists>p. run_state (serve R unj J C k sv r) w = (p, w1) \<and> hp_Status p = 200
    \<and> (\<exists>rest. hp_Body p = RJson (JSub ((''token'', JStr tok) # rest)))
    \<and> (\<forall>now < expires_at (gk_issue k) (sv_tokens sv). \<exists>c. Verify J now (sv_tokens sv) tok = Inr c
        \<and> cl_Role c = role \<and> cl_UserID c = ''user-'' @ email)"
proof -
  have "hr_Path r \<noteq> ''/health''" "hr_Path r \<noteq> ''/metrics''" using assms(3) by simp_all
  then have "\<exists>p. run_state (serve R unj J C k sv r) w = (p, w1) \<and> hp_Status p = 200
    \<and> (\<exists>rest. hp_Body p = RJson (JSub ((''token'', JStr tok) # rest)))"
    using assms(4-12)
    by (simp add: serve_def middleware_def Let_def rate_limited_def mux_login assms(2,3)
        handleLogin_def body_object_def writeJSON_def)
  moreover have "\<exists>c. Verify J now (sv_tokens sv) tok = Inr c \<and> cl_Role c = role \<and> cl_UserID c = ''user-'' @ email"
    if "now < expires_at (gk_issue k) (sv_tokens sv)" for now
    by (rule jwt_library.Issue_accepted [OF assms(1,10,11) that]) blast
  ultimately show ?thesis by blast
qed

section \<open>Witnesses\<close>

text \<open>A gateway over the empty reference server, with services that count the calls they get.\<close>

definition demo_clients :: "nat clients" where
  "demo_clients = \<lparr>
     gc_RegisterDriver = \<lambda>_ _ _ _ _ _ _ _ n. (Inr (''d1'', ''AVAILABLE''), Suc n),
     gc_UpdateDriverStatus = \<lambda>_ _ n. (Inr (''OFFLINE'', ''AVAILABLE''), Suc n),
     gc_CreateRide = \<lambda>_ _ _ _ _ _ n. (Inr ''r1'', Suc n),
     gc_GetRide = \<lambda>_ n. (Inr [], Suc n), gc_CancelRide = \<lambda>_ _ _ n. (Inr [], Suc n),
     gc_UpdateLocation = \<lambda>_ _ _ _ n. (Inr (True, [], []), Suc n),
     gc_FindCandidates = \<lambda>_ _ _ _ n. (Inr ([], 0, 0), Suc n) \<rparr>"

definition demo_gworld :: "(ref, nat) gworld" where
  "demo_gworld = \<lparr> srv = Map.empty, fates = [], gw_hub = NewHub, gw_back = 0 \<rparr>"

definition demo_server :: Server where
  "demo_server = \<lparr> sv_cfg = Load (\<lambda>_. None) (\<lambda>_. []) ''gateway'', sv_tokens = NewTokenManager ''k'' 0 \<rparr>"

definition demo_gclock :: gclock where
  "demo_gclock = \<lparr> gk_rid = ''1'', gk_ip = 1, gk_verify = 0, gk_user = 1, gk_issue = 0,
     gk_upgrade = \<lambda>hijack. if hijack then None
       else Some \<lparr> hp_Status = 500, hp_Header = [], hp_Body = RText ''Internal Server Error'' \<rparr> \<rparr>"

definition demo_request :: "string \<Rightarrow> string \<Rightarrow> payload \<Rightarrow> request" where
  "demo_request m path b = \<lparr> hr_Method = m, hr_Path = path, hr_Header = \<lambda>_. [], hr_Query = \<lambda>_. [], hr_Body = b,
     hr_BodyLen = 20, hr_RemoteAddr = ''10.0.0.1:99'', hr_PathValue = [], hr_Ctx = Map.empty, hr_Conn = 0, hr_Hijack = True \<rparr>"

text \<open>A rider's token, on a request to create a ride while the rate limiter cannot be reached.\<close>

definition demo_token :: string where
  "demo_token = projr (Issue ref_jwt 0 (sv_tokens demo_server) ''user-ann'' RoleUser)"

definition token_request :: request where
  "token_request = (demo_request ''POST'' ''/api/v1/rides'' (JObj []))
     \<lparr>hr_Header := \<lambda>h. if h = ''Authorization'' then ''Bearer '' @ demo_token else []\<rparr>"

lemma demo_token:
  "Issue ref_jwt 0 (sv_tokens demo_server) ''user-ann'' RoleUser = Inr (extractToken token_request)"
  "extractToken token_request \<noteq> []" "issue_ok 0 (sv_tokens demo_server) ''user-ann'' RoleUser"
  "gk_verify demo_gclock < expires_at 0 (sv_tokens demo_server)"
proof -
  have t: "extractToken token_request = demo_token"
    by (simp add: extractToken_def token_request_def HasPrefix_def)
  show "Issue ref_jwt 0 (sv_tokens demo_server) ''user-ann'' RoleUser = Inr (extractToken token_request)"
    by (simp add: t demo_token_def Issue_def ref_jwt_def Let_def)
  show "extractToken token_request \<noteq> []"
    by (simp add: t demo_token_def Issue_def ref_jwt_def Let_def ref_token_def fld_def)
  show "issue_ok 0 (sv_tokens demo_server) ''user-ann'' RoleUser" "gk_verify demo_gclock < expires_at 0 (sv_tokens demo_server)"
    by (simp_all add: issue_ok_def expires_at_def demo_server_def NewTokenManager_def Issuer_def role_defs demo_gclock_def)
qed

theorem gateway_authorization_witness:
  "\<exists>p w'. run_state (middleware ref_redis demo_gclock demo_server (requireAuth ref_redis ref_jwt demo_gclock demo_server
       [RoleUser, RoleAdmin] (handleCreateRide demo_clients)) token_request) (demo_gworld\<lparr>fates := [LostBefore, LostBefore]\<rparr>) = (p, w')
     \<and> hp_Status p = 201 \<and> gw_back w' = 1"
proof -
  let ?m = "middleware ref_redis demo_gclock demo_server (requireAuth ref_redis ref_jwt demo_gclock demo_server
       [RoleUser, RoleAdmin] (handleCreateRide demo_clients)) token_request"
  let ?w = "demo_gworld\<lparr>fates := [LostBefore, LostBefore]\<rparr>"
  obtain p w' where run: "run_state ?m ?w = (p, w')" by fastforce
  obtain c where v: "Verify ref_jwt (gk_verify demo_gclock) (sv_tokens demo_server) (extractToken token_request) = Inr c" "cl_Role c = RoleUser"
    by (rule rj.Issue_accepted [OF demo_token(1,3,4)]) (rule that)
  have "hr_Path token_request \<noteq> ''/health''" "hr_Path token_request \<noteq> ''/metrics''" by (simp_all add: token_request_def demo_request_def)
  then have no429: "hp_Status p \<noteq> 429"
    using run v demo_token(2)
    by (auto simp: middleware_def requireAuth_def Let_def rate_limited_def RateAllow_lost RequireRole_iff handleCreateRide_def
        bad_json_def writeError_def writeJSON_def split_beta split: option.splits sum.splits)
  have "handled (handleCreateRide demo_clients) token_request ''user-ann'' RoleUser ?w p w'"
    using conjunct2 [OF gateway_authorization [OF rj.jwt_library_axioms run], rule_format, of 0 "''user-ann''" RoleUser] demo_token no429
    by simp
  then have "hp_Status p = 201 \<and> gw_back w' = 1"
    by (auto simp: handled_def handleCreateRide_def body_object_def token_request_def demo_request_def d_float_def d_int_def
        gcall_def demo_clients_def writeJSON_def same_back_def demo_gworld_def Let_def)
  with run show ?thesis by blast
qed

theorem websocket_never_upgrades_witness:
  "gw_hub (snd (run_state (middleware ref_redis demo_gclock demo_server (requireAuth ref_redis ref_jwt demo_gclock demo_server
       [RoleUser, RoleDriver, RoleAdmin] (handleWS demo_gclock)) token_request) demo_gworld)) = NewHub"
proof -
  have "gk_upgrade demo_gclock False = Some \<lparr> hp_Status = 500, hp_Header = [], hp_Body = RText ''Internal Server Error'' \<rparr>"
    by (simp add: demo_gclock_def)
  from websocket_never_upgrades [OF this prod.collapse [symmetric], of demo_gworld ref_redis demo_server ref_jwt
      "[RoleUser, RoleDriver, RoleAdmin]" token_request]
  have "same_back demo_gworld (snd (run_state (middleware ref_redis demo_gclock demo_server (requireAuth ref_redis ref_jwt
      demo_gclock demo_server [RoleUser, RoleDriver, RoleAdmin] (handleWS demo_gclock)) token_request) demo_gworld))" by blast
  then show ?thesis by (simp add: same_back_def) (simp add: demo_gworld_def)
qed

theorem login_grants_any_role_witness:
  "\<exists>p w1. run_state (serve ref_redis (\<lambda>_. None) ref_jwt demo_clients demo_gclock demo_server
     (demo_request ''POST'' ''/api/v1/auth/login'' (JObj [(''email'', JStr ''x''), (''role'', JStr ''ADMIN'')]))) demo_gworld
     = (p, w1) \<and> hp_Status p = 200"
proof -
  let ?r = "demo_request ''POST'' ''/api/v1/auth/login'' (JObj [(''email'', JStr ''x''), (''role'', JStr ''ADMIN'')])"
  have cfg: "cfg_IPRateCapacity (sv_cfg demo_server) = 300" "cfg_IPRateRefill (sv_cfg demo_server) = Fin 5"
    by (simp_all add: demo_server_def Load_def getEnvInt_def getEnvFloat_def)
  have f: "fates demo_gworld = []" and b: "bucket_is ref_redis (srv demo_gworld) (RateLimitKey ''ip'' (clientIP ?r)) None"
    by (simp_all add: demo_gworld_def bucket_is_def ref_view_def ref_live_def)
  obtain w1 where w1: "run_state (RateAllow ref_redis (gk_ip demo_gclock) ''ip'' (clientIP ?r) (cfg_IPRateCapacity (sv_cfg demo_server))
      (cfg_IPRateRefill (sv_cfg demo_server)) 1) demo_gworld = (Inr True, w1)"
    using RateAllow_take [OF ref.redis_service_axioms f b, of 300 5 1, OF _ _ _ _ _ _ _ refl]
    by (auto simp: cfg demo_gclock_def bucket_tokens_def bucket_ok_def)
  obtain tok where tok: "Issue ref_jwt (gk_issue demo_gclock) (sv_tokens demo_server) (''user-'' @ ''x'') ''ADMIN'' = Inr tok"
    by (simp add: Issue_def ref_jwt_def Let_def)
  have ok: "issue_ok (gk_issue demo_gclock) (sv_tokens demo_server) (''user-'' @ ''x'') ''ADMIN''"
    by (simp add: issue_ok_def demo_gclock_def demo_server_def NewTokenManager_def Issuer_def)
  show ?thesis
    using login_grants_any_role [OF rj.jwt_library_axioms _ _ _ _ _ _ _ _ tok ok w1, where ob = "[(''email'', JStr ''x''), (''role'', JStr ''ADMIN'')]"]
    by (simp add: demo_request_def d_str_def role_defs) blast
qed

end
