(* ===== verification/Process.thy ===== *)
theory Process
  imports Settings Dispatch Processor
begin

text \<open>
  The processes: connections (\<^verbatim>\<open>internal/connect/connect.go\<close>, \<^verbatim>\<open>NewPool\<close> of
  \<^verbatim>\<open>internal/postgres/pool.go\<close>, \<^verbatim>\<open>NewProducer\<close> of \<^verbatim>\<open>internal/kafka/kafka.go\<close>), the server bootstrap
  (\<^verbatim>\<open>internal/server/server.go\<close>) and the \<^verbatim>\<open>main\<close> functions under \<^verbatim>\<open>cmd/\<close>. What the outside
  answers (whether Redis answers a ping, which addresses can be opened, what the pgx library does)
  is a parameter. Logging, metrics and tracing are left out.
\<close>

section \<open>Connections\<close>

text \<open>
  The pgx library: \<open>px_Parse\<close> says which connection strings parse, \<open>px_New\<close> is
  \<^verbatim>\<open>pgxpool.NewWithConfig\<close>, \<open>px_Ping\<close> whether the server answers. A pool configuration records
  whether it comes from \<^verbatim>\<open>pgxpool.ParseConfig\<close>.
\<close>

record pool_config =
  pc_DSN :: string
  pc_MaxConns :: int
  pc_MinConns :: int
  pc_MaxConnLifetime :: int
  pc_MaxConnIdleTime :: int
  pc_HealthCheckPeriod :: int
  pc_createdByParseConfig :: bool

datatype pool_out = PoolOk | PoolErr | PoolPanic

record pgx =
  px_Parse :: "string \<Rightarrow> bool"
  px_New :: "pool_config \<Rightarrow> pool_out"
  px_Ping :: bool

definition NewPool :: "pgx \<Rightarrow> PgConfig \<Rightarrow> pool_out" where
  "NewPool X cfg =
     (let cfg = (if pg_MaxConns cfg \<le> 0 then cfg\<lparr>pg_MaxConns := 20\<rparr> else cfg)
      in if \<not> px_Parse X (DSN cfg) then PoolErr
         else case px_New X \<lparr> pc_DSN = DSN cfg, pc_MaxConns = pg_MaxConns cfg, pc_MinConns = 1,
                 pc_MaxConnLifetime = 30 * 60 * 10 ^ 9, pc_MaxConnIdleTime = 5 * 60 * 10 ^ 9,
                 pc_HealthCheckPeriod = 60 * 10 ^ 9, pc_createdByParseConfig = False \<rparr> of
                PoolOk \<Rightarrow> if px_Ping X then PoolOk else PoolErr
              | r \<Rightarrow> r)"

text \<open>The producer needs a broker; the writer itself connects later.\<close>

definition NewProducer :: "string list \<Rightarrow> bool" where
  "NewProducer brokers = (brokers \<noteq> [])"

record Clients =
  cn_Redis :: bool
  cn_Postgres :: bool
  cn_Producer :: bool
  cn_DLQ :: bool

definition connect_Redis :: "(string \<Rightarrow> int \<Rightarrow> bool) \<Rightarrow> config_Config \<Rightarrow> bool" where
  "connect_Redis ping cfg = ping (cfg_RedisAddr cfg) (cfg_RedisDB cfg)"

text \<open>\<open>PoolErr\<close> stands for the nil pool: an empty connection string or a failed connection.\<close>

definition connect_Postgres :: "pgx \<Rightarrow> config_Config \<Rightarrow> pool_out" where
  "connect_Postgres X cfg =
     (if cfg_PostgresDSN cfg = [] then PoolErr
      else NewPool X \<lparr> pg_Host = [], pg_Port = 0, pg_User = [], pg_Password = [], pg_DB = [], pg_SSLMode = [],
             pg_MaxConns = 0, pg_RawDSN = cfg_PostgresDSN cfg \<rparr>)"

definition connect_KafkaProducer :: "config_Config \<Rightarrow> bool" where
  "connect_KafkaProducer cfg = NewProducer (cfg_KafkaBrokers cfg)"

section \<open>The server bootstrap\<close>

datatype action = Listened string | GrpcStop | ServeGrpc | ServeAdmin | ServeHttp | AwaitSignal
  | HttpShutdown | AdminShutdown | NotServing | GracefulStop | TracerShutdown | Closed string

definition Clients_Close :: "Clients \<Rightarrow> action list" where
  "Clients_Close c = (if cn_Producer c then [Closed ''producer''] else []) @ (if cn_DLQ c then [Closed ''dlq''] else [])
     @ (if cn_Postgres c then [Closed ''postgres''] else []) @ (if cn_Redis c then [Closed ''redis''] else [])"

record Deps =
  d_Config :: config_Config
  d_Tracer :: bool
  d_RegisterGRPC :: bool
  d_ExtraHTTP :: bool
  d_OnShutdown :: "action list"

datatype run_err = ListenGrpc string | ListenAdmin string | ListenHttp string

text \<open>
  \<open>lis open a\<close> says whether \<^verbatim>\<open>net.Listen\<close> opens the address \<open>a\<close> while the addresses \<open>open\<close> are
  open. \<open>Run\<close> gives its error and what it did, up to the end of the process or, after a signal,
  of the shutdown.
\<close>

definition Run :: "(string list \<Rightarrow> string \<Rightarrow> bool) \<Rightarrow> Deps \<Rightarrow> run_err option \<times> action list" where
  "Run lis d =
     (let cfg = d_Config d; g = cfg_GRPCAddr cfg; a = cfg_AdminAddr cfg; h = cfg_HTTPAddr cfg;
          http = (h \<noteq> [] \<and> (d_ExtraHTTP d \<or> d_RegisterGRPC d))
      in if \<not> lis [] g then (Some (ListenGrpc g), [])
         else if \<not> lis [g] a then (Some (ListenAdmin a), [Listened g, GrpcStop])
         else if http \<and> \<not> lis [g, a] h then (Some (ListenHttp h), [Listened g, Listened a, GrpcStop])
         else (None, [Listened g, Listened a] @ (if http then [Listened h] else [])
                @ [ServeGrpc, ServeAdmin] @ (if http then [ServeHttp] else []) @ [AwaitSignal]
                @ (if http then [HttpShutdown] else []) @ [AdminShutdown, NotServing, GracefulStop]
                @ (if d_Tracer d then [TracerShutdown] else []) @ d_OnShutdown d))"

section \<open>The processes\<close>

datatype exit = FatalRedis | FatalPostgres | FatalConsumer | ProcessPanic | RunErr run_err | ShutDown "action list"
  | Consuming "Consumer list"

definition run_exit :: "run_err option \<times> action list \<Rightarrow> exit" where
  "run_exit r = (case fst r of Some e \<Rightarrow> RunErr e | None \<Rightarrow> ShutDown (snd r))"

text \<open>
  The \<^verbatim>\<open>main\<close> functions of the driver, ride and location services differ in their name and in
  whether they open the database.
\<close>

definition service_main ::
  "(string list \<Rightarrow> string \<Rightarrow> bool) \<Rightarrow> (string \<Rightarrow> int \<Rightarrow> bool) \<Rightarrow> pgx \<Rightarrow> bool \<Rightarrow> config_Config \<Rightarrow> exit" where
  "service_main lis ping X uses_db cfg =
     (if \<not> connect_Redis ping cfg then FatalRedis
      else let pool = (if uses_db then connect_Postgres X cfg else PoolErr)
           in if pool = PoolPanic then ProcessPanic
              else let clients = \<lparr> cn_Redis = True, cn_Postgres = (pool = PoolOk),
                         cn_Producer = connect_KafkaProducer cfg, cn_DLQ = False \<rparr>
                   in run_exit (Run lis \<lparr> d_Config = cfg, d_Tracer = False, d_RegisterGRPC = True,
                        d_ExtraHTTP = False, d_OnShutdown = Clients_Close clients \<rparr>))"

definition driver_main where
  "driver_main pf env lis ping X = service_main lis ping X True (Load pf env ''driver-service'')"

definition ride_main where
  "ride_main pf env lis ping X = service_main lis ping X True (Load pf env ''ride-service'')"

definition location_main where
  "location_main pf env lis ping X = service_main lis ping X False (Load pf env ''location-service'')"

definition main_engine :: "config_Config \<Rightarrow> Engine" where
  "main_engine cfg = NewEngine (NewManager (cfg_LeaseTTL cfg) (cfg_LeaseRenew cfg)) (connect_KafkaProducer cfg)
     \<lparr> DefaultRadiusM = Fin (of_int (cfg_DefaultRadiusM cfg)), MaxCandidates = 0, WDistance = Fin 0,
       WRequestAge = Fin 0, WRating = Fin 0 \<rparr>"

definition main_consumer :: "config_Config \<Rightarrow> Consumer option" where
  "main_consumer cfg = NewConsumer \<lparr> cc_Brokers = cfg_KafkaBrokers cfg, cc_Topic = TopicRideRequested,
     cc_Group = ''dispatch'', cc_DLQ = connect_KafkaProducer cfg, cc_MaxRetries = 3 \<rparr>"

text \<open>The process of the dispatch engine: how it ends, the engine and the consumer it ran with.\<close>

definition dispatch_engine_main ::
  "(string \<Rightarrow> float64 option) \<Rightarrow> env \<Rightarrow> (string list \<Rightarrow> string \<Rightarrow> bool) \<Rightarrow> (string \<Rightarrow> int \<Rightarrow> bool)
   \<Rightarrow> exit \<times> (Engine \<times> Consumer option) option" where
  "dispatch_engine_main pf env lis ping =
     (let cfg = Load pf env ''dispatch-engine''
      in if \<not> connect_Redis ping cfg then (FatalRedis, None)
         else let prod = connect_KafkaProducer cfg; eng = main_engine cfg;
                  clients = \<lparr> cn_Redis = True, cn_Postgres = False, cn_Producer = prod, cn_DLQ = prod \<rparr>;
                  out = run_exit (Run lis \<lparr> d_Config = cfg, d_Tracer = False, d_RegisterGRPC = True,
                    d_ExtraHTTP = False, d_OnShutdown = Clients_Close clients \<rparr>)
              in if prod \<and> main_consumer cfg = None then (FatalConsumer, None)
                 else (out, Some (eng, if prod then main_consumer cfg else None)))"

definition event_processor_main :: "(string \<Rightarrow> float64 option) \<Rightarrow> env \<Rightarrow> pgx \<Rightarrow> exit" where
  "event_processor_main pf env X =
     (let cfg = Load pf env ''event-processor''
      in case connect_Postgres X cfg of
           PoolPanic \<Rightarrow> ProcessPanic
         | PoolErr \<Rightarrow> FatalPostgres
         | PoolOk \<Rightarrow>
             (let cs = processor_consumers (cfg_KafkaBrokers cfg) (connect_KafkaProducer cfg)
              in if None \<in> set cs then FatalConsumer else Consuming (map the cs)))"

section \<open>Properties\<close>

text \<open>
  Documented behaviour of the outside: a non-empty address for \<^verbatim>\<open>net.Listen\<close> without a colon has no
  port and is refused (the empty address stands for any free port); and
  \<^verbatim>\<open>pgxpool.NewWithConfig\<close> panics on a configuration that was not made by \<^verbatim>\<open>pgxpool.ParseConfig\<close>.
\<close>

definition listen_contract :: "(string list \<Rightarrow> string \<Rightarrow> bool) \<Rightarrow> bool" where
  "listen_contract lis \<longleftrightarrow> (\<forall>op a. a \<noteq> [] \<and> CHR '':'' \<notin> set a \<longrightarrow> \<not> lis op a)"

definition pgx_contract :: "pgx \<Rightarrow> bool" where
  "pgx_contract X \<longleftrightarrow> (\<forall>c. \<not> pc_createdByParseConfig c \<longrightarrow> px_New X c = PoolPanic)"

lemma Run_no_port:
  assumes "listen_contract lis" and "cfg_GRPCAddr (d_Config d) \<noteq> []" and "CHR '':'' \<notin> set (cfg_GRPCAddr (d_Config d))"
  shows "Run lis d = (Some (ListenGrpc (cfg_GRPCAddr (d_Config d))), [])"
  using assms by (simp add: listen_contract_def Run_def Let_def)

text \<open>
  A process that got all its addresses serves on them until the signal, and closes its clients
  only after every server has stopped.
\<close>

definition serves_then_closes :: "action list \<Rightarrow> action list \<Rightarrow> bool" where
  "serves_then_closes acts closing \<longleftrightarrow> (\<exists>pre post. acts = pre @ AwaitSignal # post @ closing
     \<and> {ServeGrpc, ServeAdmin} \<subseteq> set pre \<and> {AdminShutdown, NotServing, GracefulStop} \<subseteq> set post
     \<and> (ServeHttp \<in> set pre \<longrightarrow> HttpShutdown \<in> set post) \<and> (\<forall>x. Closed x \<notin> set (pre @ post)))"

lemma Run_serves:
  assumes "lis [] (cfg_GRPCAddr (d_Config d))" and "lis [cfg_GRPCAddr (d_Config d)] (cfg_AdminAddr (d_Config d))"
    and "lis [cfg_GRPCAddr (d_Config d), cfg_AdminAddr (d_Config d)] (cfg_HTTPAddr (d_Config d))"
  shows "\<exists>acts. Run lis d = (None, acts) \<and> serves_then_closes acts (d_OnShutdown d)"
proof -
  let ?http = "cfg_HTTPAddr (d_Config d) \<noteq> [] \<and> (d_ExtraHTTP d \<or> d_RegisterGRPC d)"
  let ?pre = "[Listened (cfg_GRPCAddr (d_Config d)), Listened (cfg_AdminAddr (d_Config d))]
    @ (if ?http then [Listened (cfg_HTTPAddr (d_Config d))] else []) @ [ServeGrpc, ServeAdmin] @ (if ?http then [ServeHttp] else [])"
  let ?post = "(if ?http then [HttpShutdown] else []) @ [AdminShutdown, NotServing, GracefulStop]
    @ (if d_Tracer d then [TracerShutdown] else [])"
  have "Run lis d = (None, ?pre @ AwaitSignal # ?post @ d_OnShutdown d)" using assms by (simp add: Run_def Let_def)
  moreover have "serves_then_closes (?pre @ AwaitSignal # ?post @ d_OnShutdown d) (d_OnShutdown d)"
    unfolding serves_then_closes_def by (rule exI [of _ ?pre], rule exI [of _ ?post]) auto
  ultimately show ?thesis by blast
qed

lemma connect_Postgres_panics:
  assumes "pgx_contract X" and "cfg_PostgresDSN cfg \<noteq> []" and "px_Parse X (cfg_PostgresDSN cfg)"
  shows "connect_Postgres X cfg = PoolPanic"
  using assms by (simp add: connect_Postgres_def NewPool_def DSN_def pgx_contract_def Let_def)

text \<open>Whatever the environment says, the engine runs with its built-in configuration.\<close>

lemma main_engine_cfg: "eng_cfg (main_engine cfg) = DefaultConfig"
  by (simp add: main_engine_def NewEngine_def)

text \<open>
  C40. Which processes come up, with Redis up. While \<^verbatim>\<open>GRPC_ADDR\<close> is unset the address is the bare
  default port, which \<^verbatim>\<open>net.Listen\<close> refuses: whatever else the environment sets, the location
  service ends with that error before it opens or serves anything, and in the empty environment the
  dispatch engine does too. Once the three addresses can be opened the location service does serve on
  them until the signal, and it closes its producer and then Redis after every server has stopped.
  The driver and ride services and the event processor come up in no environment whose connection
  string parses: the pool configuration is not made by \<^verbatim>\<open>ParseConfig\<close>, so connecting to Postgres
  panics, before any address is opened.
\<close>

theorem default_processes_do_not_serve:
  assumes "listen_contract lis" and "pgx_contract X" and "\<forall>a db. ping a db"
  shows "(env ''GRPC_ADDR'' = [] \<longrightarrow> location_main pf env lis ping X = RunErr (ListenGrpc ''9003''))
    \<and> fst (dispatch_engine_main pf (\<lambda>_. []) lis ping) = RunErr (ListenGrpc ''9004'')
    \<and> (let cfg = Load pf env ''location-service'' in
        lis [] (cfg_GRPCAddr cfg) \<and> lis [cfg_GRPCAddr cfg] (cfg_AdminAddr cfg)
        \<and> lis [cfg_GRPCAddr cfg, cfg_AdminAddr cfg] (cfg_HTTPAddr cfg) \<longrightarrow>
        (\<exists>acts. location_main pf env lis ping X = ShutDown acts
          \<and> serves_then_closes acts ((if splitCSV (getEnv env ''KAFKA_BROKERS'' ''localhost:9092'') \<noteq> [] then [Closed ''producer''] else [])
              @ [Closed ''redis''])))
    \<and> (px_Parse X (cfg_PostgresDSN (Load pf env [])) \<longrightarrow>
        driver_main pf env lis ping X = ProcessPanic \<and> ride_main pf env lis ping X = ProcessPanic
        \<and> event_processor_main pf env X = ProcessPanic)"
proof -
  have pg: "connect_Postgres X (Load pf env service) = PoolPanic"
    if "px_Parse X (cfg_PostgresDSN (Load pf env []))" for service
    by (rule connect_Postgres_panics [OF assms(2)]) (use that in \<open>simp_all add: Load_def getEnv_def\<close>)
  have up: "connect_Redis ping cfg" for cfg using assms(3) by (simp add: connect_Redis_def)
  have addr: "env ''GRPC_ADDR'' = [] \<Longrightarrow> cfg_GRPCAddr (Load pf env service) = defaultPort service ''9000''" for env service
    by (simp add: Load_def getEnv_def)
  have "location_main pf env lis ping X = RunErr (ListenGrpc ''9003'')" if "env ''GRPC_ADDR'' = []"
    using that by (simp add: location_main_def service_main_def up run_exit_def Run_no_port [OF assms(1)] addr defaultPort_def)
  moreover have "main_consumer (Load pf (\<lambda>_. []) ''dispatch-engine'') \<noteq> None"
    by (simp add: main_consumer_def NewConsumer_def Load_def getEnv_def splitCSV_def)
  then have "fst (dispatch_engine_main pf (\<lambda>_. []) lis ping) = RunErr (ListenGrpc ''9004'')"
    by (simp add: dispatch_engine_main_def up run_exit_def Run_no_port [OF assms(1)] addr defaultPort_def Let_def)
  moreover have "\<exists>acts. location_main pf env lis ping X = ShutDown acts
      \<and> serves_then_closes acts ((if splitCSV (getEnv env ''KAFKA_BROKERS'' ''localhost:9092'') \<noteq> [] then [Closed ''producer''] else [])
          @ [Closed ''redis''])"
    if "lis [] (cfg_GRPCAddr cfg)" "lis [cfg_GRPCAddr cfg] (cfg_AdminAddr cfg)"
      "lis [cfg_GRPCAddr cfg, cfg_AdminAddr cfg] (cfg_HTTPAddr cfg)" and cfg: "cfg = Load pf env ''location-service''" for cfg
  proof -
    let ?d = "\<lparr> d_Config = cfg, d_Tracer = False, d_RegisterGRPC = True, d_ExtraHTTP = False,
      d_OnShutdown = Clients_Close \<lparr> cn_Redis = True, cn_Postgres = False, cn_Producer = connect_KafkaProducer cfg, cn_DLQ = False \<rparr> \<rparr>"
    from Run_serves [of lis ?d] that(1-3) obtain acts where
      "Run lis ?d = (None, acts)" "serves_then_closes acts (d_OnShutdown ?d)" by auto
    moreover have "cfg_KafkaBrokers cfg = splitCSV (getEnv env ''KAFKA_BROKERS'' ''localhost:9092'')" by (simp add: cfg Load_def)
    ultimately show ?thesis
      by (simp add: location_main_def service_main_def up run_exit_def cfg [symmetric] Clients_Close_def
          connect_KafkaProducer_def NewProducer_def)
  qed
  ultimately show ?thesis
    by (simp add: driver_main_def ride_main_def event_processor_main_def service_main_def up pg Let_def)
qed

definition demo_pgx :: pgx where
  "demo_pgx = \<lparr> px_Parse = (\<lambda>_. True), px_New = (\<lambda>c. if pc_createdByParseConfig c then PoolOk else PoolPanic),
     px_Ping = True \<rparr>"

definition demo_listen :: "string list \<Rightarrow> string \<Rightarrow> bool" where
  "demo_listen op a = (a = [] \<or> CHR '':'' \<in> set a \<and> a \<notin> set op)"

definition demo_env :: env where
  "demo_env v = (if v = ''GRPC_ADDR'' then '':9003'' else if v = ''ADMIN_ADDR'' then '':9103''
     else if v = ''HTTP_ADDR'' then '':8083'' else [])"

theorem default_processes_do_not_serve_witness:
  "location_main (\<lambda>_. None) (\<lambda>_. []) demo_listen (\<lambda>_ _. True) demo_pgx = RunErr (ListenGrpc ''9003'')
   \<and> (\<exists>acts. location_main (\<lambda>_. None) demo_env demo_listen (\<lambda>_ _. True) demo_pgx = ShutDown acts
        \<and> serves_then_closes acts [Closed ''producer'', Closed ''redis''])
   \<and> driver_main (\<lambda>_. None) demo_env demo_listen (\<lambda>_ _. True) demo_pgx = ProcessPanic"
proof -
  have c: "listen_contract demo_listen" "pgx_contract demo_pgx"
    by (simp_all add: listen_contract_def pgx_contract_def demo_listen_def demo_pgx_def)
  have "cfg_GRPCAddr (Load (\<lambda>_. None) demo_env s) = '':9003''" "cfg_AdminAddr (Load (\<lambda>_. None) demo_env s) = '':9103''"
    "cfg_HTTPAddr (Load (\<lambda>_. None) demo_env s) = '':8083''" for s
    by (simp_all add: Load_def getEnv_def demo_env_def)
  then show ?thesis
    using default_processes_do_not_serve [OF c, of "\<lambda>_ _. True" "\<lambda>_. []" "\<lambda>_. None"]
      default_processes_do_not_serve [OF c, of "\<lambda>_ _. True" demo_env "\<lambda>_. None"]
    by (simp add: demo_listen_def demo_pgx_def Let_def getEnv_def demo_env_def splitCSV_def)
qed

end
