(* ===== verification/Spec2Isabelle.thy ===== *)
theory Spec2Isabelle
  imports Position Dispatch Ride Location Dispatch_Service Processor Hub Rate Consumer Keyspace Gateway Process
begin

text \<open>
  Verification of NEXUS-DISPATCH, a ride-dispatch platform in Go: drivers report their position, riders
  request rides, and an engine assigns to every ride the best free driver nearby, at most one ride to a
  driver at a time.

  \<^bold>\<open>The program.\<close> Five processes share a Redis server (the hot state: driver profiles, positions, cells of a
  spatial index, leases, rides, rate limits), a Kafka log of events and a Postgres database, and a gateway
  stands before them. A driver registers with the driver service and sends positions to the location
  service, which writes them by a Lua script and publishes an event; a rider's request becomes a ride and a
  \<^verbatim>\<open>ride-requested\<close> event, which the dispatch engine consumes: it searches the cells around the pickup, scores
  the drivers and reserves the first it can by a lease in Redis, which it renews; the event processor
  writes what happened to the database. The mutual exclusion of the whole platform is the lease: a key
  per driver with a time to live, set, renewed and deleted only by two Lua scripts.

  \<^bold>\<open>Theories and sources\<close> (all under \<^verbatim>\<open>src/\<close>).
  \<^item> \<^verbatim>\<open>Prelude\<close>: \<^verbatim>\<open>float64\<close> (finite reals, infinities, NaN), 53-bit rounding of Lua numbers, decimal text, splitting.
    \<^verbatim>\<open>Double\<close>: rounding to IEEE doubles and the operations the token-bucket script computes with. \<^verbatim>\<open>Utf8\<close>: the
    replacement of invalid UTF-8 by \<^verbatim>\<open>encoding/json\<close>.
  \<^item> \<^verbatim>\<open>Redis_Service\<close>: the Redis server as a record of commands with the locale \<open>redis_service\<close>: what each command
    answers and does to the keyspace and the times to live, and what the passing of time does. A world
    has the server's state and the fates of the coming calls (answered, lost before or after the server
    executed them), so every operation is verified under lost requests and lost answers. \<^verbatim>\<open>Ref_Redis\<close> is
    an executable server that interprets the locale and carries the witnesses.
  \<^item> \<^verbatim>\<open>Keys\<close>, \<^verbatim>\<open>Scripts\<close>, \<^verbatim>\<open>Store\<close>: \<^verbatim>\<open>internal/redis/keys.go\<close>, \<^verbatim>\<open>scripts.go\<close>, \<^verbatim>\<open>store.go\<close>. A script is one atomic
    function on the server; an operation of the store is a sequence of round trips.
  \<^item> \<^verbatim>\<open>Geospatial\<close>: \<^verbatim>\<open>internal/geospatial/h3.go\<close> over an H3 library that is a parameter; the contract
    \<open>h3_covers\<close> is stated for the resolution the platform uses and met by a tiling in bands of latitude. \<^verbatim>\<open>Nearby\<close> and \<^verbatim>\<open>Position\<close>
    prove the search and the position updates of the store; \<^verbatim>\<open>Rate\<close> its rate limiter; \<^verbatim>\<open>Keyspace\<close> the typing of
    its keys.
  \<^item> \<^verbatim>\<open>Reservation\<close>: \<^verbatim>\<open>internal/reservation\<close>, and the cluster of engines as a step relation in which
    reservations, renewals, releases, lost calls, writes of other components and time interleave.
  \<^item> \<^verbatim>\<open>Events\<close> and \<^verbatim>\<open>Consumer\<close>: \<^verbatim>\<open>internal/events\<close> and \<^verbatim>\<open>internal/kafka\<close>; the group reader is the locale
    \<open>group_reader\<close>, interpreted on a partition log. \<open>Run_sessions\<close> is one process after another in the read loop.
  \<^item> \<^verbatim>\<open>Go_Sort\<close> and \<^verbatim>\<open>Dispatch\<close>: \<^verbatim>\<open>internal/dispatch/engine.go\<close> over a sort with the contract \<open>slice_sort\<close>;
    \<^verbatim>\<open>Dispatch_Service\<close>: \<^verbatim>\<open>internal/dispatchsvc\<close>, the engine behind gRPC and Kafka.
  \<^item> \<^verbatim>\<open>Postgres\<close>: \<^verbatim>\<open>internal/postgres/repo.go\<close> over a database that is a parameter; \<^verbatim>\<open>Driver\<close>, \<^verbatim>\<open>Ride\<close>, \<^verbatim>\<open>Location\<close>:
    \<^verbatim>\<open>internal/driver\<close>, \<^verbatim>\<open>internal/ride\<close>, \<^verbatim>\<open>internal/location\<close>; \<^verbatim>\<open>Processor\<close>: \<^verbatim>\<open>cmd/event-processor\<close>.
  \<^item> \<^verbatim>\<open>Auth\<close>, \<^verbatim>\<open>Hub\<close>, \<^verbatim>\<open>Gateway\<close>: \<^verbatim>\<open>internal/auth/auth.go\<close> over a JWT library with the contract \<open>jwt_library\<close> (dates to the second, no issuer check for an empty issuer),
    \<^verbatim>\<open>internal/gateway/hub.go\<close> as a step relation on channels, \<^verbatim>\<open>internal/gateway/server.go\<close> as a function from
    requests to responses, the response writer of the middleware, which hides \<^verbatim>\<open>http.Hijacker\<close>, included.
  \<^item> \<^verbatim>\<open>Settings\<close> and \<^verbatim>\<open>Process\<close>: \<^verbatim>\<open>internal/config\<close>, \<^verbatim>\<open>internal/connect\<close>, \<^verbatim>\<open>internal/server\<close>, \<^verbatim>\<open>NewPool\<close> and the
    \<^verbatim>\<open>main\<close> functions.
  \<^item> This theory composes the ride service, the consumer and the dispatch engine over one Redis server.

  State correspondence: a struct is a record with its fields; a method is a function of the same name from the
  record and the world to its results, in the state monad where it talks to Redis, Kafka or Postgres. The world
  grows by record extension: \<^verbatim>\<open>world\<close> (Redis), \<^verbatim>\<open>node\<close> (with Kafka), \<^verbatim>\<open>full\<close> (with Postgres), \<^verbatim>\<open>dnode\<close>, \<^verbatim>\<open>pnode\<close> and
  \<^verbatim>\<open>gworld\<close> for single processes. Go errors are sums or options, panics are values of their own, gRPC
  statuses are \<open>rpc\<close> values. Clock readings and random bytes are arguments.

  \<^bold>\<open>What the lemmas show.\<close>
  \<^item> Leases: at most one holder per driver in every reachable state of the cluster, one winner of a race,
    compare-and-delete, self-healing after expiry, renewal, distinct lease values.
  \<^item> Search and index: soundness under any faults, completeness when answered (given that the H3 rings
    cover a disk), the order guard of position updates, convergence in any order, the cell index.
  \<^item> Dispatch: success is backed by a lease, the assigned driver has the least score, failures close.
  \<^item> Store: every operation keeps the keyspace well-typed; the rate limiter follows a token bucket, and lets no
    more through than it, up to the rounding of doubles.
  \<^item> Services: the state machines of drivers and rides and their handlers on every branch, the accounting of
    batches against a specification of what Redis accepts, downsampling of history.
  \<^item> Delivery: retries and dead letters of one message, and at-most-once delivery of the read loop across crashes.
  \<^item> Edge: authorization, tokens until they expire, WebSocket upgrades that never succeed, the safety of the hub and the independence of its fan-out from
    map order, start and stop of the processes.
  Some theorems pin down where the code departs from its comments or documentation.

  \<^bold>\<open>Bounds and fuel.\<close> Loops are structural recursions on lists, with two exceptions: the scan of \<open>DriverCount\<close> is a
  \<open>partial_function (option)\<close>, since the server decides when it ends, and \<open>dur_loop\<close> has fuel, for which
  \<open>dur_loop_fuel\<close> shows that the length of the text is enough. Versions, sequence counters and batch
  counters are machine integers of their width; integers that Redis compares in Lua are rounded to 53 bits.
  The token bucket computes in doubles, with every operation rounded. Elsewhere arithmetic on \<^verbatim>\<open>float64\<close> is
  exact on finite values: rounding of distances and scores is not modelled.

  \<^bold>\<open>Not modelled.\<close> Metrics, tracing and logging (\<^verbatim>\<open>internal/metrics\<close>, \<^verbatim>\<open>internal/tracing\<close>, \<^verbatim>\<open>internal/logging\<close>) only
  produce output. The generated code under \<^verbatim>\<open>api/gen\<close> carries messages and no decisions; the messages the
  handlers use are records here. The gRPC clients of the gateway are declared and not implemented in the
  repository. Contexts are modelled where they end a loop, not as deadlines of single calls. JSON is modelled
  at the level of objects: field names are matched exactly, a number is its value, and a string has its invalid
  UTF-8 replaced. The headers of a message are a list in one order where the sources range over a map, and one
  broadcast of the hub is one step.
\<close>

section \<open>From a request to a driver\<close>

text \<open>
  C5. The services together. A valid ride is created, which publishes one message; the consumer of the
  dispatch engine, over the same Redis server, handles this message at its first attempt when its search
  finds candidates and they are free. Then a driver among the candidates is leased for exactly this
  ride: the text under the driver's lease key parses to a lease whose ride is the created one. But the
  hot record of the ride is as the ride service wrote it: \<^verbatim>\<open>GetRide\<close> still answers \<^verbatim>\<open>REQUESTED\<close> with no driver.
\<close>

theorem requested_ride_is_assigned:
  fixes w w1 :: "('s, 'q, 'm) full_scheme" and v :: "('s, 'n) dnode_scheme"
  assumes "redis_service R" and "slice_sort srt"
    and created: "run_state (CreateRide R Q clk s req) w = (RpcOk ride, w1)" "create_ok req" "rsvc_prod s" "fates w = []" "acks w = []"
      "i = ''ride-'' @ show_int (clk 0)" "view R (srv w) (RideKey i) = None" "\<bar>cr_RadiusM req\<bar> < 2 ^ 31" "\<bar>ms (clk 1)\<bar> < 2 ^ 63"
    and engine: "srv v = srv w1" "fates v = []" "ev = ride_event req i (clk 2)" "\<forall>a. \<not> ended a"
      "run_state (SearchNearby R H (rq_PickupLat ev) (rq_PickupLng ev) (eff_radius (eng v) ev)) v = (Ret (cands, cells), v)"
      "cands \<noteq> []" "0 < MaxCandidates (eng_cfg (eng v))" "10 ^ 9 \<le> m_ttl (eng_resv (eng v))" "rnds (calls v) 0 = Some b"
      "\<forall>p \<in> set cands. plain (pos_ID p) \<and> lease_free R (srv v) (pos_ID p)"
      "\<forall>c \<in> set (score (eng_cfg (eng v)) cands (age_seconds (t_age (clks (calls v))) (Timestamp (rq_Env ev)))). c_Score c \<noteq> NaN"
  shows "\<exists>msg v' d. bus w1 = bus w @ [msg]
    \<and> run_state (process (HandleRideRequested R H srt rnds clks) errText ended TopicRideRequested dlq maxRetries msg) v = (Done, v')
    \<and> d \<in> pos_ID ` set cands \<and> leased_for R (srv v') d (rd_Id ride)
    \<and> (\<forall>u :: ('s, 'q, 'm) full_scheme. srv u = srv v' \<and> fates u = [] \<longrightarrow>
        (\<exists>ride'. run_state (GetRide R Q s i) u = (RpcOk ride', u) \<and> rd_State ride' = RS_REQUESTED \<and> rd_DriverId ride' = []))"
proof -
  obtain body w' where cr:
    "run_state (CreateRide R Q clk s req) w = (RpcOk \<lparr> rd_Id = i, rd_UserId = cr_UserId req, rd_DriverId = [],
       rd_State = RS_REQUESTED, rd_PickupLat = cr_PickupLat req, rd_PickupLng = cr_PickupLng req,
       rd_DropoffLat = cr_DropoffLat req, rd_DropoffLng = cr_DropoffLng req, rd_CreatedAtMs = ms (clk 3) \<rparr>, w')"
    "Encode (EvRideRequested (ride_event req i (clk 2))) = Some body"
    "bus w' = bus w @ [\<lparr> msg_Topic = TopicRideRequested, msg_Key = i, msg_Value = body, msg_Headers = [] \<rparr>]"
    "view R (srv w') = (view R (srv w))(RideKey i \<mapsto> RHash (ride_hash req i (ms (clk 1))))"
    by (rule CreateRide_run [where clk = clk, OF assms(1) created(4,5,2,3,7,6)]) (rule that)
  have w1: "w' = w1" "rd_Id ride = i" using cr(1) created(1) by auto
  let ?msg = "\<lparr> msg_Topic = TopicRideRequested, msg_Key = i, msg_Value = body, msg_Headers = [] \<rparr>"
  let ?ev = "ride_event_read req i (clk 2)"
  have dec: "DecodeRideRequested (msg_Value ?msg) = Some ?ev"
    using ride_event_decodes [OF cr(2) created(6,8)] by simp
  have same: "rq_PickupLat ?ev = rq_PickupLat ev" "rq_PickupLng ?ev = rq_PickupLng ev" "rq_Env ?ev = rq_Env ev"
    "eff_radius e ?ev = eff_radius e ev" "rq_RideID ?ev = i" for e
    by (simp_all add: engine(3) ride_event_read_def eff_radius_def ride_event_def)
  have "plain i" using plain_show_int by (simp add: created(6) plain_def)
  then obtain v1 d where run:
    "run_state (process (HandleRideRequested R H srt rnds clks) errText ended TopicRideRequested dlq maxRetries ?msg) v = (Done, v1)"
    "d \<in> pos_ID ` set cands" "leased_for R (srv v1) d i"
    "\<And>k. k \<notin> {DriverLeaseKey d, DriverKey d} \<Longrightarrow> view R (srv v1) k = view R (srv v) k"
    by (rule process_assigns [where rnds = rnds and b = b and clks = clks and ended = ended,
          OF assms(1,2) engine(4) dec engine(2), unfolded same, OF engine(5-11)]) (rule that)
  have "view R (srv v1) (RideKey i) = Some (RHash (ride_hash req i (ms (clk 1))))"
    using run(4) [of "RideKey i"] engine(1) cr(4) w1(1) by simp
  then have get: "run_state (GetRide R Q s i) u = (RpcOk (rideFromHot R (ride_hash req i (ms (clk 1)))), u)"
    if "srv u = srv v1" "fates u = []" for u :: "('s, 'q, 'm) full_scheme"
    using that by (intro GetRide_hot [OF assms(1)]) simp_all
  have hot: "rd_State (rideFromHot R (ride_hash req i (ms (clk 1)))) = RS_REQUESTED"
    "rd_DriverId (rideFromHot R (ride_hash req i (ms (clk 1)))) = []"
    by (simp_all add: rideFromHot_def ride_hash_def hget_text_def bulk_text_def ride_stateToProto_def Let_def)
  show ?thesis
    using cr(3) w1 run(1-3) get hot by (intro exI [of _ ?msg] exI [of _ v1] exI [of _ d]) auto
qed

definition near_create :: CreateRideRequest where
  "near_create = demo_create\<lparr>cr_PickupLat := Fin 0, cr_PickupLng := Fin 0\<rparr>"

lemma search_by_view:
  assumes "ref_view st (CellKey ''87'') = Some (RSet {''d1''})"
    and "ref_view st (DriverLocKey ''d1'') = ref_view demo (DriverLocKey ''d1'')"
    and "ref_view st (DriverKey ''d1'') = ref_view demo (DriverKey ''d1'')" and "srv w = st" and "fates w = []"
  shows "run_state (SearchNearby ref_redis one_cell (Fin 0) (Fin 0) (Fin 500)) w = (Ret ([demo_pos], 1), w)"
proof -
  have one: "xs = [a]" if "distinct xs" "set xs = {a}" for xs and a :: string
  proof -
    from that distinct_card [of xs] have "length xs = 1" by simp
    then obtain x where "xs = [x]" unfolding One_nat_def length_Suc_conv by blast
    with that(2) show ?thesis by simp
  qed
  have "is_set (ref_view st (CellKey ''87''))" by (simp add: assms(1))
  then obtain xs where "ref_SMEMBERS st (CellKey ''87'') = Inr xs" "distinct xs" "set xs = {''d1''}"
    using ref.SMEMBERS_law [of st "CellKey ''87''"] assms(1)
    by (cases "ref_SMEMBERS st (CellKey ''87'')") (simp_all add: set_or_empty_def)
  then have m: "ref_SMEMBERS st (CellKey ''87'') = Inr [''d1'']" using one by simp
  have l: "ref_HMGET st (DriverLocKey ''d1'') [''lat'', ''lng'', ''cell'']
      = Inr [Some (BFloat (Fin 0)), Some (BFloat (Fin 0)), Some (BStr ''87'')]"
    using ref.HMGET_law [of st "DriverLocKey ''d1''"] by (simp add: assms(2))
  have h: "ref_HGET st (DriverKey ''d1'') f = Inr ([''state'' \<mapsto> BStr ''AVAILABLE'', ''rating'' \<mapsto> BFloat (Fin 4)] f)" for f
    using ref.HGET_law [of st "DriverKey ''d1''"] by (simp add: assms(3))
  show ?thesis
    by (simp add: assms(4,5) SearchNearby_def search_driver_def m l h Let_def hget_text_def bulk_text_def ParseFloat_def
        hget_val_def dist_sort_def insertion_sort_def demo_pos_def)
qed

theorem requested_ride_is_assigned_witness:
  "\<exists>w1 msg v'. bus w1 = [msg] \<and> run_state (process (HandleRideRequested ref_redis one_cell insertion_sort
       (\<lambda>_ _. Some (replicate 8 0)) (\<lambda>_. demo_clock)) (\<lambda>_. []) (\<lambda>_. False) TopicRideRequested True 3 msg)
       (demo_dnode\<lparr>srv := srv (w1 :: (ref, sql list) full)\<rparr>) = (Done, v')
     \<and> leased_for ref_redis (srv v') ''d1'' ''ride-7''"
proof -
  have i: "''ride-7'' = ''ride-'' @ show_int ((\<lambda>_. 7) 0)" by code_simp
  have ok: "create_ok near_create" by (simp add: create_ok_def near_create_def demo_create_def ValidateLatLng_def)
  have f: "fates demo_full = []" "acks demo_full = []" "rsvc_prod demo_rsvc" "bus demo_full = []"
    "view ref_redis (srv demo_full) (RideKey ''ride-7'') = None"
    by (simp_all add: demo_full_def demo_rsvc_def)
  let ?ride = "\<lparr> rd_Id = ''ride-7'', rd_UserId = cr_UserId near_create, rd_DriverId = [],
       rd_State = RS_REQUESTED, rd_PickupLat = cr_PickupLat near_create, rd_PickupLng = cr_PickupLng near_create,
       rd_DropoffLat = cr_DropoffLat near_create, rd_DropoffLng = cr_DropoffLng near_create, rd_CreatedAtMs = ms 7 \<rparr>"
  obtain w1 where cr: "run_state (CreateRide ref_redis log_pg (\<lambda>_. 7) demo_rsvc near_create) demo_full = (RpcOk ?ride, w1)"
    and v: "view ref_redis (srv w1)
      = (view ref_redis (srv demo_full))(RideKey ''ride-7'' \<mapsto> RHash (ride_hash near_create ''ride-7'' (ms 7)))"
    by (rule CreateRide_run [where clk = "\<lambda>_. 7" and Q = log_pg, OF ref.redis_service_axioms f(1,2) ok f(3,5) i]) (rule that)
  let ?v = "demo_dnode\<lparr>srv := srv w1\<rparr>"
  let ?ev = "ride_event near_create ''ride-7'' 7"
  have e: "eng ?v = demo_engine" "fates ?v = []" by (simp_all add: demo_dnode_def)
  have ev: "rq_PickupLat ?ev = Fin 0" "rq_PickupLng ?ev = Fin 0" "eff_radius (eng ?v) ?ev = Fin 500"
    by (simp_all add: ride_event_def near_create_def demo_create_def ride_radius_def eff_radius_def)
  have search: "run_state (SearchNearby ref_redis one_cell (rq_PickupLat ?ev) (rq_PickupLng ?ev) (eff_radius (eng ?v) ?ev)) ?v
      = (Ret ([demo_pos], 1), ?v)"
    unfolding ev by (rule search_by_view [of "srv w1"]) (use v in \<open>simp_all add: demo_full_def demo_dnode_def\<close>)
  have cfg: "0 < MaxCandidates (eng_cfg (eng ?v))" "10 ^ 9 \<le> m_ttl (eng_resv (eng ?v))"
    by (simp_all add: e demo_engine_def NewEngine_def DefaultConfig_def NewManager_def)
  have free: "\<forall>p \<in> set [demo_pos]. plain (pos_ID p) \<and> lease_free ref_redis (srv ?v) (pos_ID p)"
    using v by (simp add: demo_pos_def lease_free_def demo_full_def)
  have nan: "\<forall>c \<in> set (score (eng_cfg (eng ?v)) [demo_pos]
      (age_seconds (t_age ((\<lambda>_. demo_clock) (calls ?v))) (Timestamp (rq_Env ?ev)))). c_Score c \<noteq> NaN"
    by (simp add: e demo_engine_def NewEngine_def DefaultConfig_def demo_pos_def score_def Let_def age_seconds_def)
  have small: "\<bar>cr_RadiusM near_create\<bar> < 2 ^ 31" "\<bar>ms ((\<lambda>_. 7) 1)\<bar> < 2 ^ 63"
    by (simp_all add: near_create_def demo_create_def ms_def)
  from requested_ride_is_assigned [where rnds = "\<lambda>_ _. Some (replicate 8 0)" and b = "replicate 8 0" and clks = "\<lambda>_. demo_clock"
      and clk = "\<lambda>_. 7" and ended = "\<lambda>_. False" and errText = "\<lambda>_. []" and dlq = True and maxRetries = 3,
      OF ref.redis_service_axioms ins.slice_sort_axioms cr ok f(3,1,2) i f(5) small _ e(2) refl _ search _ cfg refl free nan]
  show ?thesis using f(4) by (auto simp: demo_pos_def)
qed

end
